(* ===== verification/Prelude.thy ===== *)
theory Prelude
  imports Main "HOL-Library.AList" "HOL-Library.Word" "HOL-Library.Code_Target_Nat"
begin

text \<open>
  Shared vocabulary of the development.

  A Go function that takes and mutates state and may return an error or panic is a value of type
  \<open>('s, 'a) go\<close>: a function from the state to an \<open>outcome\<close> and the state left behind.  An error
  return (\<open>Fail\<close>) keeps every mutation made before it, exactly as in Go; a \<open>Panic\<close> stops the
  computation the same way, and is never caught by an \<open>if err != nil\<close>.
  The combinators below are Go's control flow: sequencing with an early return, a loop whose body may
  return early, catching an error value, wrapping an error message.

  The locale \<open>trans_rel\<close> is the shared proof principle: a reflexive and transitive relation between
  the state before and the state after (a frame condition, a list that only grows, an invariant that
  is kept) holds of a composed operation once it holds of its parts.
\<close>

named_theorems outcome_simps \<open>evaluation of the control-flow combinators\<close>
named_theorems within_rules \<open>composition rules for transition relations\<close>

section \<open>Outcomes and the Go monad\<close>

datatype 'a outcome = Ok 'a | Fail string | Panic string

type_synonym ('s, 'a) go = "'s \<Rightarrow> 'a outcome \<times> 's"

definition ret :: "'a \<Rightarrow> ('s, 'a) go" where
  "ret x = (\<lambda>s. (Ok x, s))"

definition fail :: "string \<Rightarrow> ('s, 'a) go" where
  "fail e = (\<lambda>s. (Fail e, s))"

definition panic :: "string \<Rightarrow> ('s, 'a) go" where
  "panic p = (\<lambda>s. (Panic p, s))"

definition gets :: "('s \<Rightarrow> 'a) \<Rightarrow> ('s, 'a) go" where
  "gets f = (\<lambda>s. (Ok (f s), s))"

definition modify :: "('s \<Rightarrow> 's) \<Rightarrow> ('s, unit) go" where
  "modify f = (\<lambda>s. (Ok (), f s))"

definition bind_go :: "('s, 'a) go \<Rightarrow> ('a \<Rightarrow> ('s, 'b) go) \<Rightarrow> ('s, 'b) go" where
  "bind_go m k = (\<lambda>s. case m s of
     (Ok x, t) \<Rightarrow> k x t
   | (Fail e, t) \<Rightarrow> (Fail e, t)
   | (Panic p, t) \<Rightarrow> (Panic p, t))"

text \<open>Sequencing of code that does not touch the state.\<close>

fun bind_out :: "'a outcome \<Rightarrow> ('a \<Rightarrow> 'b outcome) \<Rightarrow> 'b outcome" where
  "bind_out (Ok x) k = k x"
| "bind_out (Fail e) k = Fail e"
| "bind_out (Panic p) k = Panic p"

lemma bind_out_Ok_iff: "bind_out m k = Ok y \<longleftrightarrow> (\<exists>x. m = Ok x \<and> k x = Ok y)"
  by (cases m) auto

lemma bind_out_Panic_iff: "bind_out m k = Panic p \<longleftrightarrow> m = Panic p \<or> (\<exists>x. m = Ok x \<and> k x = Panic p)"
  by (cases m) auto

text \<open>An outcome computed without touching the state.\<close>

definition lift_out :: "'a outcome \<Rightarrow> ('s, 'a) go" where
  "lift_out r = (\<lambda>s. (r, s))"

text \<open>\<open>if v, err := m(); err != nil\<close>: the error becomes a value; a panic still propagates.\<close>

definition attempt :: "('s, 'a) go \<Rightarrow> ('s, string + 'a) go" where
  "attempt m = (\<lambda>s. case m s of
     (Ok x, t) \<Rightarrow> (Ok (Inr x), t)
   | (Fail e, t) \<Rightarrow> (Ok (Inl e), t)
   | (Panic p, t) \<Rightarrow> (Panic p, t))"

text \<open>\<open>fmt.Errorf("prefix: %v", err)\<close>\<close>

definition wrap_err :: "string \<Rightarrow> ('s, 'a) go \<Rightarrow> ('s, 'a) go" where
  "wrap_err pre m = (\<lambda>s. case m s of
     (Fail e, t) \<Rightarrow> (Fail (pre @ e), t)
   | other \<Rightarrow> other)"

text \<open>\<open>for _, x := range xs\<close>, collecting what the bodies return; the first error leaves the loop.\<close>

fun for_each :: "'a list \<Rightarrow> ('a \<Rightarrow> ('s, 'b) go) \<Rightarrow> ('s, 'b list) go" where
  "for_each [] f = ret []"
| "for_each (x # xs) f =
     bind_go (f x) (\<lambda>y. bind_go (for_each xs f) (\<lambda>ys. ret (y # ys)))"

text \<open>A loop that threads an accumulator.\<close>

fun fold_go :: "('a \<Rightarrow> 'b \<Rightarrow> ('s, 'b) go) \<Rightarrow> 'a list \<Rightarrow> 'b \<Rightarrow> ('s, 'b) go" where
  "fold_go f [] acc = ret acc"
| "fold_go f (x # xs) acc = bind_go (f x acc) (fold_go f xs)"

text \<open>\<open>for i := 0; i < n; i++\<close> with a body that does not read \<open>i\<close>.\<close>

fun repeat_go :: "nat \<Rightarrow> ('s, 'a) go \<Rightarrow> ('s, 'a list) go" where
  "repeat_go 0 m = ret []"
| "repeat_go (Suc n) m =
     bind_go m (\<lambda>x. bind_go (repeat_go n m) (\<lambda>xs. ret (x # xs)))"

text \<open>Running an operation on one component of a larger state.\<close>

definition on_part :: "('t \<Rightarrow> 's) \<Rightarrow> ('s \<Rightarrow> 't \<Rightarrow> 't) \<Rightarrow> ('s, 'a) go \<Rightarrow> ('t, 'a) go" where
  "on_part get put m = (\<lambda>t. case m (get t) of (r, s) \<Rightarrow> (r, put s t))"

lemma ret_run [simp, outcome_simps]: "ret x s = (Ok x, s)" by (simp add: ret_def)
lemma fail_run [simp, outcome_simps]: "fail e s = (Fail e, s)" by (simp add: fail_def)
lemma panic_run [simp, outcome_simps]: "panic p s = (Panic p, s)" by (simp add: panic_def)
lemma gets_run [simp, outcome_simps]: "gets f s = (Ok (f s), s)" by (simp add: gets_def)
lemma modify_run [simp, outcome_simps]: "modify f s = (Ok (), f s)" by (simp add: modify_def)
lemma lift_out_run [simp, outcome_simps]: "lift_out r s = (r, s)" by (simp add: lift_out_def)

lemma bind_go_run [outcome_simps]:
  "m s = (Ok x, t) \<Longrightarrow> bind_go m k s = k x t"
  "m s = (Fail e, t) \<Longrightarrow> bind_go m k s = (Fail e, t)"
  "m s = (Panic p, t) \<Longrightarrow> bind_go m k s = (Panic p, t)"
  by (simp_all add: bind_go_def)

text \<open>
  The simplifier applies \<open>ret_run\<close> and its kin in their eta-contracted form, so the rules for a pure
  first step are stated for both forms.
\<close>

lemma bind_go_pure [simp]:
  "bind_go (ret x) k = k x"
  "bind_go (fail e) k = fail e"
  "bind_go (panic p) k = panic p"
  "bind_go (Pair (Ok x)) k = k x"
  "bind_go (Pair (Fail e)) k = Pair (Fail e)"
  "bind_go (Pair (Panic p)) k = Pair (Panic p)"
  "bind_go (gets f) k s = k (f s) s"
  by (auto simp: bind_go_def fun_eq_iff)

lemma bind_go_modify [simp]: "bind_go (modify g) k s = k () (g s)"
  by (simp add: bind_go_def)

lemma bind_go_assoc: "bind_go (bind_go m f) g = bind_go m (\<lambda>x. bind_go (f x) g)"
  by (auto simp: bind_go_def fun_eq_iff split: outcome.split prod.split)

lemma bind_go_Ok_iff:
  "bind_go m k s = (Ok y, u) \<longleftrightarrow> (\<exists>x t. m s = (Ok x, t) \<and> k x t = (Ok y, u))"
  by (auto simp: bind_go_def split: outcome.splits prod.splits)

lemma bind_go_OkE [elim!]:
  assumes "bind_go m k s = (Ok y, u)"
  obtains x t where "m s = (Ok x, t)" and "k x t = (Ok y, u)"
  using assms by (auto simp: bind_go_Ok_iff)

lemma bind_go_Fail_iff:
  "bind_go m k s = (Fail e, u) \<longleftrightarrow>
     m s = (Fail e, u) \<or> (\<exists>x t. m s = (Ok x, t) \<and> k x t = (Fail e, u))"
  by (auto simp: bind_go_def split: outcome.splits prod.splits)

lemma bind_go_Panic_iff:
  "bind_go m k s = (Panic p, u) \<longleftrightarrow>
     m s = (Panic p, u) \<or> (\<exists>x t. m s = (Ok x, t) \<and> k x t = (Panic p, u))"
  by (auto simp: bind_go_def split: outcome.splits prod.splits)

lemma attempt_run [outcome_simps]:
  "m s = (Ok x, t) \<Longrightarrow> attempt m s = (Ok (Inr x), t)"
  "m s = (Fail e, t) \<Longrightarrow> attempt m s = (Ok (Inl e), t)"
  "m s = (Panic p, t) \<Longrightarrow> attempt m s = (Panic p, t)"
  by (simp_all add: attempt_def)

lemma attempt_OkD:
  "attempt m s = (Ok (Inr x), t) \<Longrightarrow> m s = (Ok x, t)"
  "attempt m s = (Ok (Inl e), t) \<Longrightarrow> m s = (Fail e, t)"
  by (auto simp: attempt_def split: outcome.splits prod.splits)

lemma wrap_err_Ok_iff [simp]: "wrap_err p m s = (Ok x, t) \<longleftrightarrow> m s = (Ok x, t)"
  by (auto simp: wrap_err_def split: outcome.splits prod.splits)

lemma snd_wrap_err [simp]: "snd (wrap_err p m s) = snd (m s)"
  by (auto simp: wrap_err_def split: outcome.splits prod.splits)

lemma on_part_Ok_iff:
  "on_part get put m t = (r, u) \<longleftrightarrow> (\<exists>s. m (get t) = (r, s) \<and> u = put s t)"
  by (auto simp: on_part_def split: prod.splits)

lemma repeat_go_length: "repeat_go n m s = (Ok xs, t) \<Longrightarrow> length xs = n"
  by (induction n arbitrary: s xs t) auto

lemma for_each_length: "for_each xs f s = (Ok ys, t) \<Longrightarrow> length ys = length xs"
  by (induction xs arbitrary: s ys t) auto

lemma for_each_append:
  "for_each (xs @ ys) f =
     bind_go (for_each xs f) (\<lambda>us. bind_go (for_each ys f) (\<lambda>vs. ret (us @ vs)))"
proof (induction xs)
  case Nil
  show ?case
    by (auto simp: bind_go_def fun_eq_iff split: outcome.split prod.split)
next
  case (Cons x xs)
  then show ?case by (simp add: bind_go_assoc)
qed

lemma for_each_lift_out:
  "for_each xs (\<lambda>x. lift_out (f x)) s = (Ok ys, t) \<longleftrightarrow> list_all2 (\<lambda>x y. f x = Ok y) xs ys \<and> t = s"
proof (induction xs arbitrary: ys)
  case (Cons x xs)
  then show ?case
    by (cases ys) (auto simp: bind_go_Ok_iff)
qed auto

text \<open>A property of the accumulator that every round keeps holds of the result.\<close>

lemma fold_go_inv:
  assumes "fold_go f xs acc s = (Ok r, t)" and "P acc"
    and "\<And>x a u b v. x \<in> set xs \<Longrightarrow> P a \<Longrightarrow> f x a u = (Ok b, v) \<Longrightarrow> P b"
  shows "P r"
  using assms
proof (induction xs arbitrary: acc s)
  case (Cons x xs)
  then obtain b u where b: "f x acc s = (Ok b, u)" and r: "fold_go f xs b u = (Ok r, t)" by auto
  from b Cons.prems have "P b" by (metis list.set_intros(1))
  with r Cons.IH Cons.prems(3) show ?case by (metis list.set_intros(2))
qed simp

text \<open>An evaluated step of a longer run.\<close>

fun is_ok :: "'a outcome \<Rightarrow> bool" where
  "is_ok (Ok x) = True"
| "is_ok _ = False"

fun the_ok :: "'a outcome \<Rightarrow> 'a" where
  "the_ok (Ok x) = x"

lemma run_ok: "is_ok (fst p) \<Longrightarrow> p = (Ok (the_ok (fst p)), snd p)"
  by (cases p; cases "fst p") auto

section \<open>Transition relations\<close>

text \<open>\<open>within R m\<close>: whatever the outcome, the state before and the state after \<open>m\<close> are \<open>R\<close>-related.\<close>

definition within :: "('s \<Rightarrow> 's \<Rightarrow> bool) \<Rightarrow> ('s, 'a) go \<Rightarrow> bool" where
  "within R m \<longleftrightarrow> (\<forall>s. R s (snd (m s)))"

lemma withinI: "(\<And>s. R s (snd (m s))) \<Longrightarrow> within R m"
  by (simp add: within_def)

lemma withinD: "within R m \<Longrightarrow> m s = (r, t) \<Longrightarrow> R s t"
  by (metis within_def snd_conv)

locale trans_rel =
  fixes R :: "'s \<Rightarrow> 's \<Rightarrow> bool"
  assumes rel_refl: "R s s"
    and rel_trans: "R s t \<Longrightarrow> R t u \<Longrightarrow> R s u"
begin

lemma within_pure [intro]:
  "within R (ret x)" "within R (fail e)" "within R (panic p)" "within R (gets f)"
  "within R (lift_out r)" "within R (Pair r)"
  by (simp_all add: within_def rel_refl)

lemma within_bind [intro]:
  assumes "within R m" and "\<And>x. within R (k x)"
  shows "within R (bind_go m k)"
proof (rule withinI)
  fix s
  obtain r t where m: "m s = (r, t)" by (cases "m s")
  then have "R s t" using assms(1) by (rule withinD [rotated])
  moreover have "R t (snd (k x t))" for x
    using assms(2)[of x] by (simp add: within_def)
  ultimately show "R s (snd (bind_go m k s))"
    using m by (cases r) (auto simp: bind_go_def intro: rel_trans)
qed

lemma within_attempt [intro]: "within R m \<Longrightarrow> within R (attempt m)"
  by (auto simp: within_def attempt_def split: outcome.split prod.split) (metis snd_conv)+

lemma within_wrap [intro]: "within R m \<Longrightarrow> within R (wrap_err p m)"
  by (simp add: within_def)

lemma within_for_each [intro]: "(\<And>x. within R (f x)) \<Longrightarrow> within R (for_each xs f)"
  by (induction xs) auto

lemma within_fold [intro]: "(\<And>x a. within R (f x a)) \<Longrightarrow> within R (fold_go f xs acc)"
  by (induction xs arbitrary: acc) auto

lemma within_repeat [intro]: "within R m \<Longrightarrow> within R (repeat_go n m)"
  by (induction n) auto

lemma within_if [intro]: "within R m \<Longrightarrow> within R n \<Longrightarrow> within R (if b then m else n)"
  by simp

lemma within_case_sum [intro]:
  "(\<And>e. within R (f e)) \<Longrightarrow> (\<And>x. within R (g x)) \<Longrightarrow>
     within R (case r of Inl e \<Rightarrow> f e | Inr x \<Rightarrow> g x)"
  by (cases r) auto

lemma within_case_option [intro]:
  "within R m \<Longrightarrow> (\<And>x. within R (g x)) \<Longrightarrow> within R (case r of None \<Rightarrow> m | Some x \<Rightarrow> g x)"
  by (cases r) auto

lemma within_case_prod [intro]:
  "(\<And>a b. within R (f a b)) \<Longrightarrow> within R (case r of (a, b) \<Rightarrow> f a b)"
  by (cases r) auto

lemma within_case_outcome [intro]:
  "(\<And>x. within R (f x)) \<Longrightarrow> (\<And>e. within R (g e)) \<Longrightarrow> (\<And>p. within R (h p)) \<Longrightarrow>
     within R (case r of Ok x \<Rightarrow> f x | Fail e \<Rightarrow> g e | Panic p \<Rightarrow> h p)"
  by (cases r) auto

lemmas within_all = within_case_sum within_case_option within_case_prod within_case_outcome
  within_pure within_bind within_attempt within_wrap within_for_each
  within_fold within_repeat within_if

end

section \<open>Invariants of step relations\<close>

text \<open>A property every step keeps holds in every reachable state; several can be kept together.\<close>

locale invariant_system =
  fixes step :: "'s \<Rightarrow> 's \<Rightarrow> bool" and inv :: "'s \<Rightarrow> bool"
  assumes step_inv: "step s t \<Longrightarrow> inv s \<Longrightarrow> inv t"
begin

lemma reach_inv: "step\<^sup>*\<^sup>* s t \<Longrightarrow> inv s \<Longrightarrow> inv t"
  by (induction rule: rtranclp_induct) (auto intro: step_inv)

end

text \<open>
  A concrete system refines an abstract one when every step of it is a sequence of abstract steps; then
  every run is, and what is invariant of the abstract system holds along concrete runs.
\<close>

locale simulation =
  fixes cstep :: "'c \<Rightarrow> 'c \<Rightarrow> bool" and astep :: "'a \<Rightarrow> 'a \<Rightarrow> bool" and absn :: "'c \<Rightarrow> 'a"
  assumes sim: "cstep s t \<Longrightarrow> astep\<^sup>*\<^sup>* (absn s) (absn t)"
begin

lemma run_sim: "cstep\<^sup>*\<^sup>* s t \<Longrightarrow> astep\<^sup>*\<^sup>* (absn s) (absn t)"
  by (induction rule: rtranclp_induct) (auto intro: sim rtranclp_trans)

end

locale refined_invariant = simulation cstep astep absn + abstract: invariant_system astep inv
  for cstep :: "'c \<Rightarrow> 'c \<Rightarrow> bool" and astep :: "'a \<Rightarrow> 'a \<Rightarrow> bool" and absn :: "'c \<Rightarrow> 'a"
    and inv :: "'a \<Rightarrow> bool"

sublocale refined_invariant \<subseteq> concrete: invariant_system cstep "\<lambda>s. inv (absn s)"
  by unfold_locales (auto intro: abstract.reach_inv sim)

end
