(* ===== verification/GoStrings.thy ===== *)
theory GoStrings
  imports Prelude
begin

text \<open>
  The part of Go's standard library of strings, numbers and encodings that the program uses.  A Go
  string and a Go byte slice are both sequences of bytes; both are \<open>string\<close> (a list of 8-bit
  \<open>char\<close>s) here.  Case conversion is defined on ASCII, the only letters that occur in the strings it
  is applied to for their effect; other bytes pass through unchanged.

  The locale \<open>codec\<close> is the contract of an encoder and its partial inverse; hexadecimal, decimal and
  (in theory Proto) the enum tables are instances.
\<close>

type_synonym bytes = string
type_synonym uint64 = "64 word"
type_synonym int32 = "32 word"

text \<open>Go's \<open>int(x)\<close> of a \<open>uint64\<close> reinterprets the 64 bits as two's complement.\<close>

definition int_of_uint64 :: "uint64 \<Rightarrow> int" where
  "int_of_uint64 x = sint x"

text \<open>The number of rounds of \<open>for i := 0; i < n; i++\<close> with \<open>n\<close> an \<open>int\<close>.\<close>

definition loop_count :: "int \<Rightarrow> nat" where
  "loop_count n = nat n"

lemma sint_uint64:
  "sint (x :: uint64) = (if uint x < 2 ^ 63 then uint x else uint x - 2 ^ 64)"
proof -
  have range: "0 \<le> uint x" "uint x < 2 ^ 64"
    using uint_bounded [of x] by simp_all
  have "sint x = (uint x + 2 ^ 63) mod 2 ^ 64 - 2 ^ 63"
    by (simp add: sint_uint signed_take_bit_eq_take_bit_shift take_bit_eq_mod)
  also have "\<dots> = (if uint x < 2 ^ 63 then uint x else uint x - 2 ^ 64)"
  proof (cases "uint x < 2 ^ 63")
    case True
    with range show ?thesis by (simp add: mod_pos_pos_trivial)
  next
    case False
    have "(uint x + 2 ^ 63) mod 2 ^ 64 = (uint x - 2 ^ 63 + 2 ^ 64) mod 2 ^ 64"
      by (simp add: add.commute)
    also have "\<dots> = (uint x - 2 ^ 63) mod 2 ^ 64"
      by (rule mod_add_self2)
    also have "\<dots> = uint x - 2 ^ 63"
      using False range by (intro mod_pos_pos_trivial) simp_all
    finally show ?thesis using False by simp
  qed
  finally show ?thesis .
qed

lemma loop_count_small:
  "unat (x :: uint64) < 2 ^ 63 \<Longrightarrow> loop_count (int_of_uint64 x) = unat x"
  by (simp add: loop_count_def int_of_uint64_def sint_uint64 nat_less_iff flip: nat_uint_eq)

lemma loop_count_wrap:
  "2 ^ 63 \<le> unat (x :: uint64) \<Longrightarrow> loop_count (int_of_uint64 x) = 0"
proof -
  assume "2 ^ 63 \<le> unat x"
  then have "\<not> uint x < 2 ^ 63" by (simp add: le_nat_iff flip: nat_uint_eq)
  moreover have "uint x < 2 ^ 64" using uint_bounded [of x] by simp
  ultimately show ?thesis by (simp add: loop_count_def int_of_uint64_def sint_uint64)
qed

section \<open>Decimal\<close>

definition digit_char :: "nat \<Rightarrow> char" where
  "digit_char n = ''0123456789'' ! n"

definition digit_val :: "char \<Rightarrow> nat" where
  "digit_val c = of_char c - 48"

text \<open>\<open>fmt.Sprintf("%d", n)\<close> and \<open>strconv.Itoa\<close>\<close>

fun itoa :: "nat \<Rightarrow> string" where
  "itoa n = (if n < 10 then [digit_char n] else itoa (n div 10) @ [digit_char (n mod 10)])"

declare itoa.simps [simp del]

definition itoa_int :: "int \<Rightarrow> string" where
  "itoa_int i = (if i < 0 then CHR ''-'' # itoa (nat (- i)) else itoa (nat i))"

definition atoi :: "string \<Rightarrow> nat" where
  "atoi = foldl (\<lambda>a c. 10 * a + digit_val c) 0"

definition digits :: "char set" where
  "digits = set ''0123456789''"

lemma digit_char_props:
  assumes "n < 10"
  shows "digit_val (digit_char n) = n" and "digit_char n \<in> digits"
proof -
  from assms have "n \<in> {0, 1, 2, 3, 4, 5, 6, 7, 8, 9}" by auto
  then show "digit_val (digit_char n) = n" and "digit_char n \<in> digits"
    by (auto simp: digit_char_def digit_val_def digits_def)
qed

lemma itoa_digits: "set (itoa n) \<subseteq> digits"
proof (induction n rule: itoa.induct)
  case (1 n)
  then show ?case
    by (subst itoa.simps) (auto simp: digit_char_props(2))
qed

lemma itoa_nonempty [simp]: "itoa n \<noteq> []"
  by (subst itoa.simps) simp

lemma atoi_itoa [simp]: "atoi (itoa n) = n"
proof (induction n rule: itoa.induct)
  case (1 n)
  then show ?case
    by (subst itoa.simps) (auto simp: atoi_def digit_char_props(1))
qed

lemma itoa_inj [simp]: "itoa m = itoa n \<longleftrightarrow> m = n"
  by (metis atoi_itoa)

lemma itoa_no_sep: "c \<notin> digits \<Longrightarrow> c \<notin> set (itoa n)"
  using itoa_digits by blast

section \<open>Codecs and hexadecimal\<close>

locale codec =
  fixes enc :: "'a \<Rightarrow> 'b" and dec :: "'b \<Rightarrow> 'a option" and valid :: "'a \<Rightarrow> bool"
  assumes dec_enc: "valid x \<Longrightarrow> dec (enc x) = Some x"
begin

lemma enc_inj: "valid x \<Longrightarrow> valid y \<Longrightarrow> enc x = enc y \<longleftrightarrow> x = y"
  using dec_enc by (metis option.inject)

lemma enc_inj_on: "inj_on enc {x. valid x}"
  using enc_inj by (auto simp: inj_on_def)

lemma distinct_map_enc: "list_all valid xs \<Longrightarrow> distinct (map enc xs) \<longleftrightarrow> distinct xs"
  by (auto simp: distinct_map list_all_iff intro: inj_on_subset [OF enc_inj_on])

end

text \<open>\<open>hex.EncodeToString\<close> and \<open>hex.DecodeString\<close> (which accepts both cases).\<close>

definition hex_digit :: "nat \<Rightarrow> char" where
  "hex_digit n = ''0123456789abcdef'' ! n"

definition hex_value :: "char \<Rightarrow> nat option" where
  "hex_value c = map_of (zip ''0123456789abcdefABCDEF''
     [0, 1, 2, 3, 4, 5, 6, 7, 8, 9, 10, 11, 12, 13, 14, 15, 10, 11, 12, 13, 14, 15]) c"

fun hex_encode :: "bytes \<Rightarrow> string" where
  "hex_encode [] = []"
| "hex_encode (c # cs) =
     hex_digit (of_char c div 16) # hex_digit (of_char c mod 16) # hex_encode cs"

fun hex_decode :: "string \<Rightarrow> bytes option" where
  "hex_decode [] = Some []"
| "hex_decode [c] = None"
| "hex_decode (a # b # cs) =
     (case (hex_value a, hex_value b, hex_decode cs) of
        (Some x, Some y, Some zs) \<Rightarrow> Some (char_of (16 * x + y) # zs)
      | _ \<Rightarrow> None)"

lemma hex_value_digit [simp]: "n < 16 \<Longrightarrow> hex_value (hex_digit n) = Some n"
proof -
  assume "n < 16"
  then have "n \<in> set [0..<16]" by simp
  moreover have "list_all (\<lambda>n. hex_value (hex_digit n) = Some n) [0..<16]" by code_simp
  ultimately show ?thesis by (simp only: list_all_iff)
qed

lemma hex_decode_encode [simp]: "hex_decode (hex_encode bs) = Some bs"
proof (induction bs)
  case (Cons c cs)
  have "of_char c < (256 :: nat)" by simp
  then have "of_char c div 16 < (16 :: nat)" by (intro less_mult_imp_div_less) simp
  moreover have "16 * (of_char c div 16) + of_char c mod 16 = (of_char c :: nat)" by simp
  ultimately show ?case by (simp add: Cons)
qed simp

interpretation hex: codec hex_encode hex_decode "\<lambda>_. True"
  by unfold_locales simp

interpretation decimal: codec itoa "\<lambda>s. Some (atoi s)" "\<lambda>_. True"
  by unfold_locales simp

lemma hex_encode_length [simp]: "length (hex_encode bs) = 2 * length bs"
  by (induction bs) auto

lemma hex_encode_append [simp]: "hex_encode (xs @ ys) = hex_encode xs @ hex_encode ys"
  by (induction xs) auto

definition hex_chars :: "char set" where
  "hex_chars = set ''0123456789abcdef''"

lemma hex_digit_mem: "n < 16 \<Longrightarrow> hex_digit n \<in> hex_chars"
  unfolding hex_digit_def hex_chars_def by (intro nth_mem) simp

lemma hex_encode_chars: "set (hex_encode bs) \<subseteq> hex_chars"
proof (induction bs)
  case (Cons c cs)
  have "of_char c < (256 :: nat)" by simp
  then have "of_char c div 16 < (16 :: nat)" by (intro less_mult_imp_div_less) simp
  then show ?case using Cons by (simp add: hex_digit_mem)
qed simp

section \<open>Package strings\<close>

definition has_prefix :: "string \<Rightarrow> string \<Rightarrow> bool" where
  "has_prefix s p \<longleftrightarrow> take (length p) s = p"

definition trim_prefix :: "string \<Rightarrow> string \<Rightarrow> string" where
  "trim_prefix s p = (if has_prefix s p then drop (length p) s else s)"

fun join_strings :: "string \<Rightarrow> string list \<Rightarrow> string" where
  "join_strings sep [] = []"
| "join_strings sep [x] = x"
| "join_strings sep (x # y # ys) = x @ sep @ join_strings sep (y # ys)"

text \<open>\<open>strings.Split(s, sep)\<close> for a one-byte separator: never the empty list.\<close>

fun split_on :: "char \<Rightarrow> string \<Rightarrow> string list" where
  "split_on sep [] = [[]]"
| "split_on sep (c # cs) =
     (if c = sep then [] # split_on sep cs
      else (case split_on sep cs of
              [] \<Rightarrow> [[c]]
            | w # ws \<Rightarrow> (c # w) # ws))"

definition lower_char :: "char \<Rightarrow> char" where
  "lower_char c = (if 65 \<le> (of_char c :: nat) \<and> of_char c \<le> (90 :: nat)
                   then char_of (of_char c + 32 :: nat) else c)"

definition upper_char :: "char \<Rightarrow> char" where
  "upper_char c = (if 97 \<le> (of_char c :: nat) \<and> of_char c \<le> (122 :: nat)
                   then char_of (of_char c - 32 :: nat) else c)"

definition to_lower :: "string \<Rightarrow> string" where
  "to_lower = map lower_char"

text \<open>
  \<open>strings.Title\<close>: a letter after a separator becomes upper case.  On ASCII everything but letters,
  digits and the underscore separates words; the text starts after a (virtual) space.
\<close>

definition is_separator :: "char \<Rightarrow> bool" where
  "is_separator c = (let n = of_char c :: nat in
     \<not> (48 \<le> n \<and> n \<le> 57 \<or> 97 \<le> n \<and> n \<le> 122 \<or> 65 \<le> n \<and> n \<le> 90 \<or> n = 95) \<and> n < 128)"

fun title_from :: "char \<Rightarrow> string \<Rightarrow> string" where
  "title_from prev [] = []"
| "title_from prev (c # cs) = (if is_separator prev then upper_char c else c) # title_from c cs"

definition title :: "string \<Rightarrow> string" where
  "title s = title_from (CHR '' '') s"

lemma has_prefix_append [simp]: "has_prefix (p @ s) p"
  by (simp add: has_prefix_def)

lemma has_prefix_iff: "has_prefix s p \<longleftrightarrow> (\<exists>r. s = p @ r)"
  by (metis append_take_drop_id has_prefix_append has_prefix_def)

lemma trim_prefix_append [simp]: "trim_prefix (p @ s) p = s"
  by (simp add: trim_prefix_def)

lemma split_on_nonempty [simp]: "split_on sep s \<noteq> []"
  by (induction s) (auto split: list.split)

lemma split_on_no_sep: "sep \<notin> set s \<Longrightarrow> split_on sep s = [s]"
  by (induction s) auto

lemma join_split_on: "join_strings [sep] (split_on sep s) = s"
proof (induction s)
  case (Cons c cs)
  obtain w ws where w: "split_on sep cs = w # ws"
    by (cases "split_on sep cs") auto
  with Cons show ?case by (cases ws) auto
qed simp

lemma split_on_words: "w \<in> set (split_on sep s) \<Longrightarrow> sep \<notin> set w"
  by (induction s arbitrary: w) (auto split: if_splits list.splits)

end
