(* ===== verification/GoWorld.thy ===== *)
theory GoWorld
  imports GoStrings
begin

text \<open>
  The world outside the process: package \<open>path/filepath\<close>, the file system as packages \<open>os\<close> and
  \<open>ioutil\<close> use it, and the services the program calls (the Docker daemon, the execution client's
  JSON-RPC endpoint, key generation).

  The file system is modelled: directories, file contents, open descriptors, and an arbitrary
  assignment of operating-system faults to paths (permissions, a full disk).  The services are not:
  their state has an arbitrary type \<open>'w\<close>, and every call to one is a function on that state which the
  definitions take as a parameter.  Each such call is recorded in \<open>trace\<close>, so that a theorem can say
  which requests the program sends and in what order.
\<close>

section \<open>Package path/filepath\<close>

definition slash :: char where "slash = CHR ''/''"

text \<open>One path element processed by \<open>filepath.Clean\<close>; the elements kept so far, last first.\<close>

definition clean_step :: "bool \<Rightarrow> string list \<Rightarrow> string \<Rightarrow> string list" where
  "clean_step rooted out c =
     (if c = [] \<or> c = ''.'' then out
      else if c = ''..'' then
        (case out of
           [] \<Rightarrow> (if rooted then [] else [''..''])
         | d # ds \<Rightarrow> (if d = ''..'' then ''..'' # out else ds))
      else c # out)"

definition path_clean :: "string \<Rightarrow> string" where
  "path_clean p =
     (if p = [] then ''.''
      else let rooted = (hd p = slash);
               out = rev (foldl (clean_step rooted) [] (split_on slash p))
           in if rooted then slash # join_strings [slash] out
              else if out = [] then ''.'' else join_strings [slash] out)"

text \<open>\<open>filepath.Join(a, b)\<close> and \<open>filepath.Dir\<close>\<close>

definition path_join :: "string \<Rightarrow> string \<Rightarrow> string" where
  "path_join a b =
     (if a \<noteq> [] then path_clean (a @ [slash] @ b)
      else if b \<noteq> [] then path_clean b else [])"

definition path_dir :: "string \<Rightarrow> string" where
  "path_dir p = path_clean (rev (dropWhile (\<lambda>c. c \<noteq> slash) (rev p)))"

text \<open>A plain file name: one path element that is not a relative one.\<close>

definition plain_name :: "string \<Rightarrow> bool" where
  "plain_name c \<longleftrightarrow> c \<noteq> [] \<and> c \<noteq> ''.'' \<and> c \<noteq> ''..'' \<and> slash \<notin> set c"

lemma clean_step_plain [simp]: "plain_name c \<Longrightarrow> clean_step r out c = c # out"
  by (simp add: clean_step_def plain_name_def)

lemma foldl_clean_plain: "list_all plain_name cs \<Longrightarrow> foldl (clean_step r) out cs = rev cs @ out"
  by (induction cs arbitrary: out) auto

lemma split_on_join:
  "list_all (\<lambda>w. sep \<notin> set w) ws \<Longrightarrow> ws \<noteq> [] \<Longrightarrow> split_on sep (join_strings [sep] ws) = ws"
proof (induction "[sep]" ws rule: join_strings.induct)
  case (2 x)
  then show ?case by (simp add: split_on_no_sep)
next
  case (3 x y ys)
  have "split_on sep (x @ sep # rest) = x # split_on sep rest" if "sep \<notin> set x" for rest
    using that by (induction x) auto
  with 3 show ?case by simp
qed simp

text \<open>An absolute path built from plain names.\<close>

definition abs_path :: "string list \<Rightarrow> string" where
  "abs_path cs = slash # join_strings [slash] cs"

lemma plain_names_no_slash: "list_all plain_name cs \<Longrightarrow> list_all (\<lambda>w. slash \<notin> set w) cs"
  by (auto simp: list_all_iff plain_name_def)

lemma join_strings_snoc:
  "cs \<noteq> [] \<Longrightarrow> join_strings sep (cs @ [n]) = join_strings sep cs @ sep @ n"
proof (induction sep cs rule: join_strings.induct)
  case (3 sep x y ys)
  then show ?case by simp
qed auto

lemma abs_path_snoc: "cs \<noteq> [] \<Longrightarrow> abs_path (cs @ [n]) = abs_path cs @ [slash] @ n"
  by (simp add: abs_path_def join_strings_snoc)

lemma path_clean_abs: "list_all plain_name cs \<Longrightarrow> path_clean (abs_path cs) = abs_path cs"
proof (cases "cs = []")
  case True
  then show ?thesis by (simp add: path_clean_def abs_path_def clean_step_def)
next
  case False
  assume "list_all plain_name cs"
  with False show ?thesis
    by (simp add: path_clean_def abs_path_def Let_def split_on_join plain_names_no_slash
        foldl_clean_plain) (simp add: clean_step_def foldl_clean_plain)
qed

lemma path_join_abs:
  assumes "list_all plain_name cs" and "cs \<noteq> []" and "plain_name n"
  shows "path_join (abs_path cs) n = abs_path (cs @ [n])"
proof -
  have "path_join (abs_path cs) n = path_clean (abs_path (cs @ [n]))"
    unfolding path_join_def abs_path_snoc [OF assms(2)] by (simp add: abs_path_def)
  then show ?thesis using assms by (simp add: path_clean_abs)
qed

text \<open>A joined path ends as the plain name does that it was joined with.\<close>

lemma split_on_snoc: "sep \<notin> set n \<Longrightarrow> \<exists>ws. split_on sep (p @ [sep] @ n) = ws @ [n]"
proof (induction p)
  case Nil
  then show ?case by (intro exI [of _ "[[]]"]) (simp add: split_on_no_sep)
next
  case (Cons c cs)
  then obtain ws where ws: "split_on sep (cs @ [sep] @ n) = ws @ [n]" by blast
  show ?case
  proof (cases "c = sep")
    case True
    with ws show ?thesis by (intro exI [of _ "[] # ws"]) simp
  next
    case False
    show ?thesis
    proof (cases ws)
      case Nil
      have "sep \<in> set (join_strings [sep] (split_on sep (cs @ [sep] @ n)))" by (simp add: join_split_on)
      with ws Nil Cons.prems show ?thesis by simp
    next
      case (Cons v vs)
      with ws False show ?thesis by (intro exI [of _ "(c # v) # vs"]) simp
    qed
  qed
qed

lemma last_join_snoc: "n \<noteq> [] \<Longrightarrow> last (join_strings sep (ws @ [n])) = last n"
  by (cases "ws = []") (simp_all add: join_strings_snoc)

lemma last_path_join:
  assumes "plain_name n"
  shows "last (path_join d n) = last n"
proof (cases "d = []")
  case True
  have "n \<noteq> []" "slash \<notin> set n" using assms by (simp_all add: plain_name_def)
  then have "split_on slash n = [n]" "hd n \<noteq> slash" "n \<noteq> []"
    using split_on_no_sep hd_in_set by metis+
  with True assms show ?thesis by (simp add: path_join_def path_clean_def)
next
  case False
  obtain ws where ws: "split_on slash (d @ [slash] @ n) = ws @ [n]"
    using split_on_snoc assms by (metis plain_name_def)
  have "foldl (clean_step r) [] (ws @ [n]) = n # foldl (clean_step r) [] ws" for r
    using assms by simp
  moreover have "n \<noteq> []" using assms by (simp add: plain_name_def)
  moreover have "join_strings [slash] (xs @ [n]) \<noteq> []" for xs
    using \<open>n \<noteq> []\<close> by (cases "xs = []") (simp_all add: join_strings_snoc)
  ultimately show ?thesis
    using False by (simp add: path_join_def path_clean_def Let_def ws [simplified] last_join_snoc)
qed

lemma path_dir_abs:
  assumes "list_all plain_name cs" and "cs \<noteq> []" and "plain_name n"
  shows "path_dir (abs_path (cs @ [n])) = abs_path cs"
proof -
  have "slash \<notin> set (rev n)" using assms(3) by (simp add: plain_name_def)
  then have "dropWhile (\<lambda>c. c \<noteq> slash) (rev n @ r) = dropWhile (\<lambda>c. c \<noteq> slash) r" for r
    by (subst dropWhile_append2) auto
  then have "path_dir (abs_path (cs @ [n])) = path_clean (abs_path cs @ [slash])"
    by (simp add: path_dir_def abs_path_snoc assms(2))
  also have "\<dots> = abs_path cs"
  proof -
    have "abs_path cs @ [slash] = slash # join_strings [slash] (cs @ [[]])"
      by (simp add: abs_path_def join_strings_snoc assms(2))
    moreover have "split_on slash (join_strings [slash] (cs @ [[]])) = cs @ [[]]"
      using assms(1) by (intro split_on_join) (auto simp: list_all_iff plain_name_def)
    ultimately show ?thesis
      using assms(1)
      by (simp add: path_clean_def Let_def foldl_clean_plain abs_path_def)
         (simp add: clean_step_def foldl_clean_plain)
  qed
  finally show ?thesis .
qed

section \<open>The file system\<close>

record fsys =
  fs_cwd :: string
  fs_dirs :: "string list"
  fs_files :: "string \<rightharpoonup> bytes"
  fs_open :: "nat list"
  fs_next_fd :: nat
  fs_fault :: "string \<Rightarrow> string option"
  fs_close_fault :: "string \<Rightarrow> string option"

record os_file =
  fd :: nat
  fpath :: string

definition is_dir :: "fsys \<Rightarrow> string \<Rightarrow> bool" where
  "is_dir f p \<longleftrightarrow> p = [slash] \<or> p \<in> set (fs_dirs f)"

definition exists_path :: "fsys \<Rightarrow> string \<Rightarrow> bool" where
  "exists_path f p \<longleftrightarrow> is_dir f p \<or> fs_files f p \<noteq> None"

text \<open>\<open>*PathError\<close>: the operation, the path and the system's message.\<close>

definition path_error :: "string \<Rightarrow> string \<Rightarrow> string \<Rightarrow> string" where
  "path_error op p msg = op @ '' '' @ p @ '': '' @ msg"

abbreviation "eexist \<equiv> ''file exists''"
abbreviation "enoent \<equiv> ''no such file or directory''"
abbreviation "enotdir \<equiv> ''not a directory''"
abbreviation "eisdir \<equiv> ''is a directory''"

text \<open>Why creating an entry \<open>p\<close> in its parent directory fails, if it does.\<close>

definition parent_problem :: "fsys \<Rightarrow> string \<Rightarrow> string option" where
  "parent_problem f p =
     (if is_dir f (path_dir p) then None
      else if fs_files f (path_dir p) \<noteq> None then Some enotdir
      else Some enoent)"

text \<open>\<open>os.Mkdir\<close>\<close>

definition os_mkdir :: "string \<Rightarrow> (fsys, unit) go" where
  "os_mkdir p = (\<lambda>f.
     case fs_fault f p of
       Some e \<Rightarrow> (Fail (path_error ''mkdir'' p e), f)
     | None \<Rightarrow>
       if exists_path f p then (Fail (path_error ''mkdir'' p eexist), f)
       else case parent_problem f p of
         Some e \<Rightarrow> (Fail (path_error ''mkdir'' p e), f)
       | None \<Rightarrow> (Ok (), f\<lparr>fs_dirs := p # fs_dirs f\<rparr>))"

text \<open>\<open>os.MkdirAll\<close>: every missing directory on the way to \<open>p\<close>, from the top.\<close>

fun prefix_paths :: "string \<Rightarrow> string list \<Rightarrow> string list" where
  "prefix_paths acc [] = []"
| "prefix_paths acc (c # cs) = (acc @ c) # prefix_paths (acc @ c @ [slash]) cs"

definition ancestors :: "string \<Rightarrow> string list" where
  "ancestors p = prefix_paths (if has_prefix p [slash] then [slash] else [])
     (filter (\<lambda>c. c \<noteq> []) (split_on slash p))"

definition os_mkdir_all :: "string \<Rightarrow> (fsys, unit) go" where
  "os_mkdir_all p =
     bind_go (for_each (ancestors p) (\<lambda>q f.
        if is_dir f q then (Ok (), f)
        else if fs_files f q \<noteq> None then (Fail (path_error ''mkdir'' q enotdir), f)
        else os_mkdir q f))
     (\<lambda>_. ret ())"

text \<open>\<open>os.OpenFile\<close> with \<open>O_CREATE\<close>, truncating (\<open>ioutil.WriteFile\<close>) or appending (a log file).\<close>

definition open_problem :: "fsys \<Rightarrow> string \<Rightarrow> string option" where
  "open_problem f p =
     (case fs_fault f p of
        Some e \<Rightarrow> Some e
      | None \<Rightarrow> if is_dir f p then Some eisdir
                else if fs_files f p \<noteq> None then None
                else parent_problem f p)"

definition os_write_file :: "string \<Rightarrow> bytes \<Rightarrow> (fsys, unit) go" where
  "os_write_file p content = (\<lambda>f.
     case open_problem f p of
       Some e \<Rightarrow> (Fail (path_error ''open'' p e), f)
     | None \<Rightarrow> (Ok (), f\<lparr>fs_files := (fs_files f)(p \<mapsto> content)\<rparr>))"

definition os_open_append :: "string \<Rightarrow> (fsys, os_file) go" where
  "os_open_append p = (\<lambda>f.
     case open_problem f p of
       Some e \<Rightarrow> (Fail (path_error ''open'' p e), f)
     | None \<Rightarrow>
       (Ok \<lparr>fd = fs_next_fd f, fpath = p\<rparr>,
        f\<lparr>fs_files := (fs_files f)(p \<mapsto> (case fs_files f p of None \<Rightarrow> [] | Some c \<Rightarrow> c)),
          fs_open := fs_open f @ [fs_next_fd f], fs_next_fd := Suc (fs_next_fd f)\<rparr>))"

text \<open>\<open>(*os.File).Close\<close>: a second close of the same file is an error.\<close>

definition os_close :: "os_file \<Rightarrow> (fsys, unit) go" where
  "os_close h = (\<lambda>f.
     if fd h \<notin> set (fs_open f) then (Fail (path_error ''close'' (fpath h) ''file already closed''), f)
     else let f' = f\<lparr>fs_open := filter (\<lambda>i. i \<noteq> fd h) (fs_open f)\<rparr>
          in case fs_close_fault f (fpath h) of
               Some e \<Rightarrow> (Fail (path_error ''close'' (fpath h) e), f')
             | None \<Rightarrow> (Ok (), f'))"

section \<open>Services\<close>

record container_config =
  cc_image :: string
  cc_cmd :: "string list"
  cc_labels :: "(string \<times> string) list"
  cc_user :: string
  cc_entrypoint :: "string list"

datatype call =
    ImageInspect string
  | ImagePull string
  | ContainerCreate container_config "string list"
  | ContainerStart string
  | ContainerInspect string
  | ContainerWait string
  | ContainerStop string
  | ContainerLogs string
  | HttpPost string
  | NewClient string
  | SendRawTransaction bytes
  | GetTransactionReceipt bytes
  | GetBlockByNumber
  | DepositCall bytes
  | TxnDo nat
  | TxnWait nat
  | CallGetDepositCount bytes
  | NetListen string

record 'w world =
  fs :: fsys
  ext :: 'w
  trace :: "call list"

text \<open>A request to a service: recorded, then answered by the service.\<close>

definition ext_call :: "call \<Rightarrow> ('w, 'a) go \<Rightarrow> ('w world, 'a) go" where
  "ext_call c f = (\<lambda>w. case f (ext w) of
     (r, x) \<Rightarrow> (r, w\<lparr>ext := x, trace := trace w @ [c]\<rparr>))"

text \<open>A value the outside supplies without a request (randomness, scheduling, map order).\<close>

definition ext_get :: "('w \<Rightarrow> 'a \<times> 'w) \<Rightarrow> ('w world, 'a) go" where
  "ext_get f = (\<lambda>w. case f (ext w) of (a, x) \<Rightarrow> (Ok a, w\<lparr>ext := x\<rparr>))"

text \<open>A computation of a library that may fail and uses outside randomness, not a request.\<close>

definition on_ext :: "('w, 'a) go \<Rightarrow> ('w world, 'a) go" where
  "on_ext m = on_part ext (\<lambda>x w. w\<lparr>ext := x\<rparr>) m"

definition on_fs :: "(fsys, 'a) go \<Rightarrow> ('w world, 'a) go" where
  "on_fs m = on_part fs (\<lambda>f w. w\<lparr>fs := f\<rparr>) m"

text \<open>\<open>ioutil.TempDir(dir, pattern)\<close>: random names are tried until one is free, 10000 times at most.\<close>

definition star_split :: "string \<Rightarrow> string \<times> string" where
  "star_split p =
     (if CHR ''*'' \<in> set p
      then (rev (tl (dropWhile (\<lambda>c. c \<noteq> CHR ''*'') (rev p))),
            rev (takeWhile (\<lambda>c. c \<noteq> CHR ''*'') (rev p)))
      else (p, []))"

fun temp_dir_try :: "nat \<Rightarrow> ('w \<Rightarrow> nat \<times> 'w) \<Rightarrow> string \<Rightarrow> string \<Rightarrow> ('w world, string) go" where
  "temp_dir_try 0 rnd pre suf = fail (path_error ''mkdirtemp'' (pre @ ''*'' @ suf) eexist)"
| "temp_dir_try (Suc n) rnd pre suf =
     bind_go (ext_get rnd) (\<lambda>r w.
       let name = pre @ itoa r @ suf in
       if exists_path (fs w) name \<and> fs_fault (fs w) name = None
       then temp_dir_try n rnd pre suf w
       else bind_go (on_fs (os_mkdir name)) (\<lambda>_. ret name) w)"

definition temp_dir :: "('w \<Rightarrow> nat \<times> 'w) \<Rightarrow> string \<Rightarrow> string \<Rightarrow> ('w world, string) go" where
  "temp_dir rnd dir pattern =
     (if slash \<in> set pattern
      then fail (path_error ''mkdirtemp'' pattern ''pattern contains path separator'')
      else case star_split pattern of
        (pre, suf) \<Rightarrow> temp_dir_try 10000 rnd (dir @ [slash] @ pre) suf)"

lemma temp_dir_try_numeral [simp]:
  "temp_dir_try (numeral k) rnd pre suf = temp_dir_try (Suc (pred_numeral k)) rnd pre suf"
  by (simp only: numeral_eq_Suc)

section \<open>What file and service operations leave alone\<close>

text \<open>
  The file system only grows: no operation of the program removes a directory or a file, and the
  assignment of faults never changes.
\<close>

definition fs_grows :: "fsys \<Rightarrow> fsys \<Rightarrow> bool" where
  "fs_grows f g \<longleftrightarrow> set (fs_dirs f) \<subseteq> set (fs_dirs g) \<and> dom (fs_files f) \<subseteq> dom (fs_files g)
     \<and> fs_fault g = fs_fault f \<and> fs_cwd g = fs_cwd f"

interpretation fs_grows: trans_rel fs_grows
  by unfold_locales (simp add: fs_grows_def, unfold fs_grows_def, metis order_trans)

definition world_grows :: "'w world \<Rightarrow> 'w world \<Rightarrow> bool" where
  "world_grows w v \<longleftrightarrow> fs_grows (fs w) (fs v) \<and> take (length (trace w)) (trace v) = trace w"

interpretation world_grows: trans_rel world_grows
proof unfold_locales
  fix w v u :: "'a world"
  show "world_grows w w" by (simp add: world_grows_def fs_grows.rel_refl)
  assume "world_grows w v" and "world_grows v u"
  then show "world_grows w u"
    unfolding world_grows_def
    by (metis append_eq_conv_conj append_take_drop_id append.assoc fs_grows.rel_trans)
qed

lemma os_mkdir_grows [within_rules]: "within fs_grows (os_mkdir p)"
  by (auto simp: within_def fs_grows_def os_mkdir_def split: option.split)

lemma os_mkdir_all_grows [within_rules]: "within fs_grows (os_mkdir_all p)"
proof -
  have "within fs_grows (\<lambda>f. if is_dir f q then (Ok (), f)
      else if fs_files f q \<noteq> None then (Fail (path_error ''mkdir'' q enotdir), f)
      else os_mkdir q f)" for q
    using os_mkdir_grows [of q] by (auto simp: within_def fs_grows.rel_refl)
  then show ?thesis unfolding os_mkdir_all_def by (intro fs_grows.within_all)
qed

lemma os_write_file_grows [within_rules]: "within fs_grows (os_write_file p c)"
  by (auto simp: within_def fs_grows_def os_write_file_def split: option.split)

lemma os_open_append_grows [within_rules]: "within fs_grows (os_open_append p)"
  by (auto simp: within_def fs_grows_def os_open_append_def split: option.split)

lemma os_close_grows [within_rules]: "within fs_grows (os_close h)"
  by (auto simp: within_def fs_grows_def os_close_def Let_def split: option.split)

lemma ext_call_grows [within_rules]: "within world_grows (ext_call c f)"
  by (auto simp: within_def world_grows_def ext_call_def fs_grows.rel_refl split: prod.split)

lemma ext_get_grows [within_rules]: "within world_grows (ext_get f)"
  by (auto simp: within_def world_grows_def ext_get_def fs_grows.rel_refl split: prod.split)

lemma on_ext_grows [within_rules]: "within world_grows (on_ext m)"
  by (auto simp: within_def world_grows_def on_ext_def on_part_def fs_grows.rel_refl
      split: prod.split)

lemma on_fs_grows: "within fs_grows m \<Longrightarrow> within world_grows (on_fs m)"
  by (auto simp: within_def world_grows_def on_fs_def on_part_def split: prod.split)
     (metis snd_conv)

text \<open>A relation kept by the draw of a name and by \<open>mkdir\<close> is kept by \<open>temp_dir\<close>.\<close>

lemma temp_dir_within:
  assumes R: "trans_rel R" and get: "within R (ext_get rnd)"
    and mk: "\<And>p. within R (on_fs (os_mkdir p))"
  shows "within R (temp_dir rnd d pattern)"
proof -
  note all = trans_rel.within_all [OF R]
  have mk': "within R (bind_go (on_fs (os_mkdir p)) (\<lambda>_. ret p))" for p
    by (intro all mk)
  have tries: "within R (temp_dir_try n rnd pre suf)" for n pre suf
  proof (induction n)
    case 0
    show ?case by (simp only: temp_dir_try.simps, intro all)
  next
    case (Suc n)
    have "within R (\<lambda>w.
       let name = pre @ itoa r @ suf in
       if exists_path (fs w) name \<and> fs_fault (fs w) name = None
       then temp_dir_try n rnd pre suf w
       else bind_go (on_fs (os_mkdir name)) (\<lambda>_. ret name) w)" for r
      using Suc mk' [of "pre @ itoa r @ suf"] by (simp add: within_def Let_def)
    then show ?case
      by (simp only: temp_dir_try.simps, intro trans_rel.within_bind [OF R] get)
  qed
  show ?thesis
    by (simp add: temp_dir_def trans_rel.within_pure [OF R] tries del: temp_dir_try_numeral
        split: prod.split)
qed

lemma temp_dir_grows [within_rules]: "within world_grows (temp_dir rnd d p)"
  by (intro temp_dir_within world_grows.trans_rel_axioms ext_get_grows on_fs_grows os_mkdir_grows)

text \<open>A file that was just written reads back as its content.\<close>

lemma os_write_file_Ok:
  "os_write_file p c f = (Ok u, g) \<Longrightarrow> g = f\<lparr>fs_files := (fs_files f)(p \<mapsto> c)\<rparr>"
  by (auto simp: os_write_file_def split: option.splits)

lemma os_mkdir_Ok:
  "os_mkdir p f = (Ok u, g) \<Longrightarrow> \<not> exists_path f p \<and> g = f\<lparr>fs_dirs := p # fs_dirs f\<rparr>"
  by (auto simp: os_mkdir_def split: option.splits if_splits)

section \<open>Which requests are sent\<close>

text \<open>Every request recorded between the two states satisfies \<open>P\<close>.\<close>

definition calls_in :: "(call \<Rightarrow> bool) \<Rightarrow> 'w world \<Rightarrow> 'w world \<Rightarrow> bool" where
  "calls_in P w v \<longleftrightarrow> (\<exists>cs. trace v = trace w @ cs \<and> list_all P cs)"

interpretation calls_in: trans_rel "calls_in P :: 'w world \<Rightarrow> 'w world \<Rightarrow> bool" for P
  by unfold_locales (auto simp: calls_in_def)

lemma calls_in_same [intro]: "trace v = trace w \<Longrightarrow> calls_in P w v"
  by (simp add: calls_in_def)

lemma calls_in_mono: "calls_in P w v \<Longrightarrow> (\<And>c. P c \<Longrightarrow> Q c) \<Longrightarrow> calls_in Q w v"
  unfolding calls_in_def by (metis list.pred_mono_strong)

lemma within_calls_mono:
  "within (calls_in P) m \<Longrightarrow> (\<And>c. P c \<Longrightarrow> Q c) \<Longrightarrow> within (calls_in Q) m"
  unfolding within_def by (blast intro: calls_in_mono)

named_theorems calls_rules \<open>which requests an operation sends\<close>

lemma ext_call_calls [calls_rules]: "P c \<Longrightarrow> within (calls_in P) (ext_call c f)"
  by (auto simp: within_def calls_in_def ext_call_def split: prod.split)

lemma ext_get_calls [calls_rules]: "within (calls_in P) (ext_get f)"
  by (auto simp: within_def ext_get_def split: prod.split)

lemma on_ext_calls [calls_rules]: "within (calls_in P) (on_ext m)"
  by (auto simp: within_def on_ext_def on_part_def split: prod.split)

lemma on_fs_calls [calls_rules]: "within (calls_in P) (on_fs m)"
  by (auto simp: within_def on_fs_def on_part_def split: prod.split)

lemma temp_dir_calls [calls_rules]: "within (calls_in P) (temp_dir rnd d p)"
  by (intro temp_dir_within calls_in.trans_rel_axioms calls_rules)

lemma ext_call_trace: "ext_call c f w = (r, v) \<Longrightarrow> trace v = trace w @ [c]"
  by (auto simp: ext_call_def split: prod.splits)

lemma ext_get_trace: "ext_get f w = (r, v) \<Longrightarrow> trace v = trace w"
  by (auto simp: ext_get_def split: prod.splits)

lemma silentD: "within (calls_in (\<lambda>_. False)) m \<Longrightarrow> m w = (r, v) \<Longrightarrow> trace v = trace w"
  by (auto dest!: withinD simp: calls_in_def list_all_iff)

text \<open>A concrete world: an empty working directory and \<open>/tmp\<close>, no faults, a counter outside.\<close>

definition sample_fs :: fsys where
  "sample_fs = \<lparr>fs_cwd = ''/work'', fs_dirs = [''/tmp'', ''/work''], fs_files = Map.empty,
     fs_open = [], fs_next_fd = 0, fs_fault = (\<lambda>_. None), fs_close_fault = (\<lambda>_. None)\<rparr>"

definition sample_world :: "nat world" where
  "sample_world = \<lparr>fs = sample_fs, ext = 0, trace = []\<rparr>"

end
