(* ===== verification/GoJson.thy ===== *)
theory GoJson
  imports GoStrings "HOL-Library.Char_ord" "HOL-Library.List_Lexorder"
begin

text \<open>
  What the program uses of \<open>encoding/json\<close> and \<open>encoding/base64\<close>: \<open>json.Marshal\<close> of strings, byte
  slices (base64), structs (fields in declaration order) and maps (keys sorted), and the base64
  alphabet.  A number keeps the text it was written with.
\<close>

datatype json =
    JNull
  | JBool bool
  | JNum string
  | JStr string
  | JArr "json list"
  | JObj "(string \<times> json) list"

definition dquote :: char where "dquote = CHR 0x22"
definition backslash :: char where "backslash = CHR 0x5C"
definition newline :: char where "newline = CHR 0x0A"

text \<open>
  String escapes of \<open>json.Marshal\<close> (with HTML escaping on, the default).
\<close>

definition json_escape :: "char \<Rightarrow> string" where
  "json_escape c =
     (if c = dquote \<or> c = backslash then [backslash, c]
      else if c = newline then [backslash, CHR ''n'']
      else if c = CHR 0x0D then [backslash, CHR ''r'']
      else if c = CHR 0x09 then [backslash, CHR ''t'']
      else if (of_char c :: nat) < 32 \<or> c = CHR ''<'' \<or> c = CHR ''>'' \<or> c = CHR 0x26
        then backslash # ''u00'' @ hex_encode [c]
      else [c])"

definition json_quote :: "string \<Rightarrow> string" where
  "json_quote s = [dquote] @ concat (map json_escape s) @ [dquote]"

fun json_print :: "json \<Rightarrow> string" where
  "json_print JNull = ''null''"
| "json_print (JBool b) = (if b then ''true'' else ''false'')"
| "json_print (JNum n) = n"
| "json_print (JStr s) = json_quote s"
| "json_print (JArr js) = ''['' @ join_strings '','' (map json_print js) @ '']''"
| "json_print (JObj kvs) =
     ''{'' @ join_strings '','' (map (\<lambda>(k, j). json_quote k @ '':'' @ json_print j) kvs) @ ''}''"

text \<open>A Go map is marshalled with its keys sorted.\<close>

definition json_of_map :: "(string \<times> json) list \<Rightarrow> json" where
  "json_of_map m = JObj (sort_key fst m)"

section \<open>Base64\<close>

definition b64_alphabet :: string where
  "b64_alphabet = ''ABCDEFGHIJKLMNOPQRSTUVWXYZabcdefghijklmnopqrstuvwxyz0123456789+/''"

definition b64_char :: "nat \<Rightarrow> char" where
  "b64_char n = b64_alphabet ! n"

text \<open>Three bytes make four characters; a short last group is padded.\<close>

definition b64_group :: "nat \<Rightarrow> string" where
  "b64_group n = [b64_char (n div 262144), b64_char (n div 4096 mod 64),
                  b64_char (n div 64 mod 64), b64_char (n mod 64)]"

fun b64_encode :: "bytes \<Rightarrow> string" where
  "b64_encode [] = []"
| "b64_encode [a] = take 2 (b64_group (65536 * of_char a)) @ ''==''"
| "b64_encode [a, b] = take 3 (b64_group (65536 * of_char a + 256 * of_char b)) @ ''=''"
| "b64_encode (a # b # c # cs) =
     b64_group (65536 * of_char a + 256 * of_char b + of_char c) @ b64_encode cs"

lemma b64_encode_length: "length (b64_encode bs) = 4 * ((length bs + 2) div 3)"
proof (induction bs rule: b64_encode.induct)
  case (4 a b c cs)
  have "(length (a # b # c # cs) + 2) div 3 = Suc ((length cs + 2) div 3)"
    by (simp add: div_add_self2 [of 3 "length cs + 2", simplified])
  with 4 show ?case by (simp add: b64_group_def)
qed (simp_all add: b64_group_def)

lemma json_quote_parts: "hd (json_quote s) = dquote" "last (json_quote s) = dquote"
  by (simp_all add: json_quote_def)

text \<open>Marshalling a string never produces a raw line break: a value stays on its line.\<close>

lemma json_quote_no_newline: "newline \<notin> set (json_quote s)"
proof -
  have "newline \<notin> hex_chars" by (simp add: newline_def hex_chars_def)
  then have "newline \<notin> set (hex_encode [c])" for c
    using hex_encode_chars by blast
  then show ?thesis
    by (auto simp: json_quote_def json_escape_def dquote_def backslash_def newline_def
        simp del: hex_encode.simps split: if_splits)
qed

end
