(* ===== verification/Proto.thy ===== *)
theory Proto
  imports GoWorld GoJson
begin

text \<open>
  Package \<open>internal/server/proto\<close>: the enums, requests and responses of the gRPC service and the
  helper functions of utils.go and account.go.

  A protobuf enum is an \<open>int32\<close> that may hold any value, so the enums are 32-bit words with the
  generated tables of names.  What \<open>String()\<close> prints for a number outside the table is the protobuf
  runtime's choice, the parameter \<open>unk\<close>.  Keys are opaque handles; the functions of the key libraries
  are the fields of \<open>crypto_api\<close>.
\<close>

section \<open>Enums\<close>

type_synonym node_type = int32
type_synonym node_client = int32
type_synonym fork = int32

definition NodeType_OtherType :: node_type where "NodeType_OtherType = 0"
definition NodeType_Beacon :: node_type where "NodeType_Beacon = 1"
definition NodeType_Validator :: node_type where "NodeType_Validator = 2"
definition NodeType_Bootnode :: node_type where "NodeType_Bootnode = 3"

definition NodeClient_OtherClient :: node_client where "NodeClient_OtherClient = 0"
definition NodeClient_Prysm :: node_client where "NodeClient_Prysm = 1"
definition NodeClient_Teku :: node_client where "NodeClient_Teku = 2"
definition NodeClient_Lighthouse :: node_client where "NodeClient_Lighthouse = 3"

definition Fork_Phase0 :: fork where "Fork_Phase0 = 0"
definition Fork_Altair :: fork where "Fork_Altair = 1"
definition Fork_Merge :: fork where "Fork_Merge = 2"

lemmas enum_defs =
  NodeType_OtherType_def NodeType_Beacon_def NodeType_Validator_def NodeType_Bootnode_def
  NodeClient_OtherClient_def NodeClient_Prysm_def NodeClient_Teku_def NodeClient_Lighthouse_def
  Fork_Phase0_def Fork_Altair_def Fork_Merge_def

definition NodeType_name :: "(int32 \<times> string) list" where
  "NodeType_name = [(0, ''OtherType''), (1, ''Beacon''), (2, ''Validator''), (3, ''Bootnode'')]"

definition NodeType_value :: "(string \<times> int32) list" where
  "NodeType_value = [(''OtherType'', 0), (''Beacon'', 1), (''Validator'', 2), (''Bootnode'', 3)]"

definition NodeClient_name :: "(int32 \<times> string) list" where
  "NodeClient_name = [(0, ''OtherClient''), (1, ''Prysm''), (2, ''Teku''), (3, ''Lighthouse'')]"

definition NodeClient_value :: "(string \<times> int32) list" where
  "NodeClient_value = [(''OtherClient'', 0), (''Prysm'', 1), (''Teku'', 2), (''Lighthouse'', 3)]"

definition NodeType_String :: "(int32 \<Rightarrow> string) \<Rightarrow> node_type \<Rightarrow> string" where
  "NodeType_String unk x = (case map_of NodeType_name x of Some s \<Rightarrow> s | None \<Rightarrow> unk x)"

definition NodeClient_String :: "(int32 \<Rightarrow> string) \<Rightarrow> node_client \<Rightarrow> string" where
  "NodeClient_String unk x = (case map_of NodeClient_name x of Some s \<Rightarrow> s | None \<Rightarrow> unk x)"

definition StringToNodeType :: "string \<Rightarrow> node_type option" where
  "StringToNodeType str = map_of NodeType_value (title str)"

definition StringToNodeClient :: "string \<Rightarrow> node_client option" where
  "StringToNodeClient str = map_of NodeClient_value (title str)"

abbreviation known_type :: "node_type \<Rightarrow> bool" where
  "known_type x \<equiv> x \<in> set (map fst NodeType_name)"

abbreviation known_client :: "node_client \<Rightarrow> bool" where
  "known_client x \<equiv> x \<in> set (map fst NodeClient_name)"

lemma title_names:
  "title ''OtherType'' = ''OtherType''" "title ''Beacon'' = ''Beacon''"
  "title ''Validator'' = ''Validator''" "title ''Bootnode'' = ''Bootnode''"
  "title ''OtherClient'' = ''OtherClient''" "title ''Prysm'' = ''Prysm''"
  "title ''Teku'' = ''Teku''" "title ''Lighthouse'' = ''Lighthouse''" "title '''' = ''''"
  by code_simp+

interpretation node_type: codec "NodeType_String unk" StringToNodeType known_type for unk
  by unfold_locales (auto simp: NodeType_String_def StringToNodeType_def NodeType_name_def
      NodeType_value_def title_names)

interpretation node_client: codec "NodeClient_String unk" StringToNodeClient known_client for unk
  by unfold_locales (auto simp: NodeClient_String_def StringToNodeClient_def NodeClient_name_def
      NodeClient_value_def title_names)

lemma enum_strings [simp]:
  "NodeType_String unk NodeType_OtherType = ''OtherType''"
  "NodeType_String unk NodeType_Beacon = ''Beacon''"
  "NodeType_String unk NodeType_Validator = ''Validator''"
  "NodeType_String unk NodeType_Bootnode = ''Bootnode''"
  "NodeClient_String unk NodeClient_OtherClient = ''OtherClient''"
  "NodeClient_String unk NodeClient_Prysm = ''Prysm''"
  "NodeClient_String unk NodeClient_Teku = ''Teku''"
  "NodeClient_String unk NodeClient_Lighthouse = ''Lighthouse''"
  by (simp_all add: NodeType_String_def NodeClient_String_def NodeType_name_def NodeClient_name_def
      enum_defs)

lemma StringToNodeType_known [simp]:
  "StringToNodeType ''OtherType'' = Some NodeType_OtherType"
  "StringToNodeType ''Beacon'' = Some NodeType_Beacon"
  "StringToNodeType ''Validator'' = Some NodeType_Validator"
  "StringToNodeType ''Bootnode'' = Some NodeType_Bootnode"
  "StringToNodeType '''' = None"
  by (simp_all add: StringToNodeType_def NodeType_value_def title_names enum_defs)

lemma StringToNodeClient_known [simp]:
  "StringToNodeClient ''OtherClient'' = Some NodeClient_OtherClient"
  "StringToNodeClient ''Prysm'' = Some NodeClient_Prysm"
  "StringToNodeClient ''Teku'' = Some NodeClient_Teku"
  "StringToNodeClient ''Lighthouse'' = Some NodeClient_Lighthouse"
  "StringToNodeClient '''' = None"
  by (simp_all add: StringToNodeClient_def NodeClient_value_def title_names enum_defs)

section \<open>Ports and labels\<close>

definition NodePortEth1Http :: string where "NodePortEth1Http = ''eth1.http''"
definition NodePortEth1P2P :: string where "NodePortEth1P2P = ''eth1.p2p''"
definition NodePortEth1AuthRPC :: string where "NodePortEth1AuthRPC = ''eth1.authrpc''"
definition NodePortP2P :: string where "NodePortP2P = ''eth2.p2p''"
definition NodePortHttp :: string where "NodePortHttp = ''eth2.http''"
definition NodePortPrysmGrpc :: string where "NodePortPrysmGrpc = ''eth2.prysm.grpc''"
definition NodePortBootnode :: string where "NodePortBootnode = ''eth.bootnode''"

lemmas port_defs = NodePortEth1Http_def NodePortEth1P2P_def NodePortEth1AuthRPC_def
  NodePortP2P_def NodePortHttp_def NodePortPrysmGrpc_def NodePortBootnode_def

definition IsTCP :: "string \<Rightarrow> bool" where
  "IsTCP n \<longleftrightarrow> n \<noteq> NodePortBootnode"

definition NodeClientLabel :: string where "NodeClientLabel = ''NodeClient''"
definition NodeTypeLabel :: string where "NodeTypeLabel = ''NodeType''"

lemma labels_differ [simp]: "NodeClientLabel \<noteq> NodeTypeLabel" "NodeTypeLabel \<noteq> NodeClientLabel"
  by (simp_all add: NodeClientLabel_def NodeTypeLabel_def)

section \<open>Accounts\<close>

datatype bls_key = BlsKey nat
datatype wallet_key = WalletKey nat

record 'w crypto_api =
  wallet_GenerateKey :: "('w, wallet_key) go"
  wallet_Address :: "wallet_key \<Rightarrow> bytes"
  wallet_MarshallPrivateKey :: "wallet_key \<Rightarrow> bytes outcome"
  address_String :: "bytes \<Rightarrow> string"
  bls_NewRandomKey :: "'w \<Rightarrow> bls_key \<times> 'w"
  bls_Prv_Marshal :: "bls_key \<Rightarrow> bytes outcome"
  bls_Pub_Serialize :: "bls_key \<Rightarrow> bytes"
  bls_PubKey :: "bls_key \<Rightarrow> bytes"
  bls_ToKeystore :: "bls_key \<Rightarrow> string \<Rightarrow> ('w, bytes) go"
  keystore_EncryptV3 :: "bytes \<Rightarrow> string \<Rightarrow> ('w, bytes) go"
  keystore_EncryptV4 :: "bytes \<Rightarrow> string \<Rightarrow> ('w, bytes) go"
  uuid_Generate :: "'w \<Rightarrow> string \<times> 'w"
  json_Unmarshal_map :: "bytes \<Rightarrow> (string \<times> json) list outcome"
  enum_unknown :: "int32 \<Rightarrow> string"

record account =
  Bls :: bls_key
  Ecdsa :: wallet_key

definition NewAccount :: "'w crypto_api \<Rightarrow> ('w world, account) go" where
  "NewAccount C =
     bind_go (attempt (on_ext (wallet_GenerateKey C))) (\<lambda>r.
       case r of
         Inl e \<Rightarrow> panic (''BUG: failed to generate key '' @ e)
       | Inr key \<Rightarrow> bind_go (ext_get (bls_NewRandomKey C)) (\<lambda>b. ret \<lparr>Bls = b, Ecdsa = key\<rparr>))"

text \<open>\<open>NewAccounts(num int)\<close>: a negative number makes none.\<close>

definition NewAccounts :: "'w crypto_api \<Rightarrow> int \<Rightarrow> ('w world, account list) go" where
  "NewAccounts C num = repeat_go (loop_count num) (NewAccount C)"

section \<open>Messages\<close>

record account_stub =
  PrivKey :: string
  PubKey :: string

record tranche_stub =
  Index :: uint64
  stub_Accounts :: "account_stub list"
  stub_Name :: string
  stub_Path :: string

definition ToStub :: "'w crypto_api \<Rightarrow> account \<Rightarrow> account_stub outcome" where
  "ToStub C a =
     (case bls_Prv_Marshal C (Bls a) of
        Ok priv \<Rightarrow> Ok \<lparr>PrivKey = hex_encode priv,
                       PubKey = hex_encode (bls_Pub_Serialize C (Bls a))\<rparr>
      | Fail e \<Rightarrow> Fail e
      | Panic p \<Rightarrow> Panic p)"

record proto_node =
  node_Name :: string
  node_Type :: node_type
  node_Client :: node_client
  node_Labels :: "(string \<times> string) list"
  node_Ip :: string

record validator_req =
  NumValidators :: uint64
  NumTranch :: uint64
  WithBeacon :: bool
  BeaconCount :: uint64

datatype deploy_oneof = ReqBeacon uint64 | ReqValidator validator_req

record node_deploy_request =
  NodeClient :: node_client
  Repo :: string
  req_Tag :: string
  NodeType :: "deploy_oneof option"

lemma NewAccount_grows [within_rules]: "within world_grows (NewAccount C)"
  unfolding NewAccount_def by (intro world_grows.within_all within_rules)

lemma NewAccounts_grows [within_rules]: "within world_grows (NewAccounts C n)"
  unfolding NewAccounts_def by (intro world_grows.within_all within_rules)

lemma NewAccounts_length: "NewAccounts C n w = (Ok as, v) \<Longrightarrow> length as = loop_count n"
  unfolding NewAccounts_def by (rule repeat_go_length)

text \<open>
  A concrete key library on a counter: key \<open>n\<close> has the 20-byte address \<open>0 \<dots> 0 n\<close>, a one-byte private
  and a two-byte public key.  It is the instance on which the hypotheses of the properties are shown
  to be satisfiable.
\<close>

definition sample_crypto :: "nat crypto_api" where
  "sample_crypto = \<lparr>
     wallet_GenerateKey = (\<lambda>n. (Ok (WalletKey n), Suc n)),
     wallet_Address = (\<lambda>k. case k of WalletKey n \<Rightarrow> replicate 19 (CHR 0x00) @ [char_of n]),
     wallet_MarshallPrivateKey = (\<lambda>k. case k of WalletKey n \<Rightarrow> Ok [char_of n]),
     address_String = (\<lambda>a. ''0x'' @ hex_encode a),
     bls_NewRandomKey = (\<lambda>n. (BlsKey n, Suc n)),
     bls_Prv_Marshal = (\<lambda>k. case k of BlsKey n \<Rightarrow> Ok [char_of n]),
     bls_Pub_Serialize = (\<lambda>k. case k of BlsKey n \<Rightarrow> [CHR ''p'', char_of n]),
     bls_PubKey = (\<lambda>k. case k of BlsKey n \<Rightarrow> [CHR ''p'', char_of n]),
     bls_ToKeystore = (\<lambda>k p n. (Ok (''{}''), n)),
     keystore_EncryptV3 = (\<lambda>d p n. (Ok d, n)),
     keystore_EncryptV4 = (\<lambda>d p n. (Ok d, n)),
     uuid_Generate = (\<lambda>n. (''id'', n)),
     json_Unmarshal_map = (\<lambda>d. Ok []),
     enum_unknown = (\<lambda>x. itoa (unat x))\<rparr>"

end
