(* ===== verification/Genesis.thy ===== *)
theory Genesis
  imports Proto
begin

text \<open>
  internal/genesis/genesis.go: the genesis state of the consensus chain.

  The types of the consensus library are records of the fields this code sets (the others keep their
  zero values), and the library's hashing and encoding are the parameter \<open>ssz_api\<close>: a hasher is a state
  of arbitrary type \<open>'h\<close> and each of its methods a function on it.  \<open>GenerateGenesis\<close> returns an
  interface value, which stays nil for a fork it does not know.
\<close>

section \<open>Data\<close>

record validator =
  Pubkey :: bytes
  ActivationEligibilityEpoch :: uint64
  ActivationEpoch :: uint64
  EffectiveBalance :: uint64
  WithdrawableEpoch :: uint64
  ExitEpoch :: uint64

record eth1_block =
  blk_Timestamp :: uint64
  blk_Hash :: bytes

record eth1_data =
  DepositRoot :: bytes
  BlockHash :: bytes

text \<open>\<open>Input\<close>; an \<open>int64\<close> is a word that is compared and printed as signed.\<close>

record input =
  in_Eth1Block :: eth1_block
  in_GenesisTime :: "64 word"
  in_InitialValidator :: "account list"
  in_Fork :: fork
  in_ForkVersion :: bytes

record state_fields =
  st_GenesisTime :: uint64
  st_GenesisValidatorsRoot :: bytes
  st_CurrentVersion :: bytes
  st_BodyRoot :: bytes
  st_Eth1Data :: eth1_data
  st_Validators :: "validator list"
  st_Balances :: "uint64 list"
  st_Slashings :: "uint64 list"

datatype beacon_state = BeaconStatePhase0 state_fields | BeaconStateAltair state_fields

fun state_data :: "beacon_state \<Rightarrow> state_fields" where
  "state_data (BeaconStatePhase0 d) = d"
| "state_data (BeaconStateAltair d) = d"

record 'h ssz_api =
  ssz_NewHasher :: 'h
  ssz_Index :: "'h \<Rightarrow> nat"
  ssz_HashTreeRootWith :: "validator \<Rightarrow> ('h, unit) go"
  ssz_MerkleizeWithMixin :: "nat \<Rightarrow> uint64 \<Rightarrow> uint64 \<Rightarrow> 'h \<Rightarrow> 'h"
  ssz_Merkleize :: "nat \<Rightarrow> 'h \<Rightarrow> 'h"
  ssz_HashRoot :: "'h \<Rightarrow> bytes outcome"
  ssz_BodyPhase0_root :: "bytes outcome"
  ssz_BodyAltair_root :: "bytes outcome"
  ssz_Marshal :: "beacon_state \<Rightarrow> bytes outcome"

section \<open>Code\<close>

definition minValidatorBalance :: uint64 where
  "minValidatorBalance = 32000000000"

definition empty_deposit_hex :: string where
  "empty_deposit_hex = ''d70a234731285c6804c2a4f56711ddb8c82c99740f207854891028af34e27e5e''"

text \<open>\<open>init\<close>: the 32-byte array is overwritten with the decoded bytes, as far as both reach.\<close>

definition copy_into :: "bytes \<Rightarrow> bytes \<Rightarrow> bytes" where
  "copy_into dst src = take (length dst) src @ drop (length src) dst"

definition init_emptyDepositRoot :: "bytes outcome" where
  "init_emptyDepositRoot =
     (case hex_decode empty_deposit_hex of
        None \<Rightarrow> Panic ''BUG: failed to parse empty deposit''
      | Some b \<Rightarrow> Ok (copy_into (replicate 32 (CHR 0x00)) b))"

definition emptyDepositRoot :: bytes where
  "emptyDepositRoot = (case init_emptyDepositRoot of Ok b \<Rightarrow> b | _ \<Rightarrow> replicate 32 (CHR 0x00))"

definition set_limit :: uint64 where
  "set_limit = 1099511627776"

definition ErrIncorrectListSize :: string where
  "ErrIncorrectListSize = ''incorrect list size''"

text \<open>\<open>(*ValidatorSet).HashTreeRoot\<close>, on the hasher it makes.\<close>

definition hash_validator_set :: "'h ssz_api \<Rightarrow> validator list \<Rightarrow> ('h, bytes) go" where
  "hash_validator_set S vs =
     bind_go (gets (ssz_Index S)) (\<lambda>indx.
     bind_go (gets (ssz_Index S)) (\<lambda>subIndx.
     let num = of_nat (length vs) in
     if num > set_limit then fail ErrIncorrectListSize
     else
       bind_go (for_each vs (ssz_HashTreeRootWith S)) (\<lambda>_.
       bind_go (modify (ssz_MerkleizeWithMixin S subIndx num set_limit)) (\<lambda>_.
       bind_go (modify (ssz_Merkleize S indx)) (\<lambda>_.
       bind_go (gets (ssz_HashRoot S)) lift_out)))))"

definition HashTreeRoot :: "'h ssz_api \<Rightarrow> validator list \<Rightarrow> bytes outcome" where
  "HashTreeRoot S vs = fst (hash_validator_set S vs (ssz_NewHasher S))"

definition genesis_validator :: "'w crypto_api \<Rightarrow> account \<Rightarrow> validator" where
  "genesis_validator C val =
     \<lparr>Pubkey = bls_PubKey C (Bls val), ActivationEligibilityEpoch = 0, ActivationEpoch = 0,
      EffectiveBalance = minValidatorBalance, WithdrawableEpoch = 18446744073709551615,
      ExitEpoch = 18446744073709551615\<rparr>"

text \<open>The loop over the accounts, appending to both slices.\<close>

fun add_validators ::
    "'w crypto_api \<Rightarrow> account list \<Rightarrow> validator list \<times> uint64 list \<Rightarrow> validator list \<times> uint64 list" where
  "add_validators C [] acc = acc"
| "add_validators C (val # vals) (validators, balances) =
     add_validators C vals (validators @ [genesis_validator C val], balances @ [minValidatorBalance])"

definition slashings :: "uint64 list" where
  "slashings = replicate 8192 0"

definition genesis_fields ::
    "input \<Rightarrow> bytes \<Rightarrow> bytes \<Rightarrow> validator list \<Rightarrow> uint64 list \<Rightarrow> state_fields" where
  "genesis_fields inp genesisValidatorRoot bodyRoot validators balances =
     \<lparr>st_GenesisTime = in_GenesisTime inp,
      st_GenesisValidatorsRoot = genesisValidatorRoot,
      st_CurrentVersion = in_ForkVersion inp,
      st_BodyRoot = bodyRoot,
      st_Eth1Data = \<lparr>DepositRoot = emptyDepositRoot, BlockHash = blk_Hash (in_Eth1Block inp)\<rparr>,
      st_Validators = validators,
      st_Balances = balances,
      st_Slashings = slashings\<rparr>"

text \<open>The comparison is unsigned: the conversion \<open>uint64(input.GenesisTime)\<close> keeps the bits.\<close>

definition GenerateGenesis ::
    "'w crypto_api \<Rightarrow> 'h ssz_api \<Rightarrow> input \<Rightarrow> beacon_state option outcome" where
  "GenerateGenesis C S inp =
     (if in_GenesisTime inp < blk_Timestamp (in_Eth1Block inp) then Fail ''low timestamp''
      else case add_validators C (in_InitialValidator inp) ([], []) of
        (validators, balances) \<Rightarrow>
          bind_out (HashTreeRoot S validators) (\<lambda>genesisValidatorRoot.
          if in_Fork inp = Fork_Phase0 then
            bind_out (ssz_BodyPhase0_root S) (\<lambda>bodyRoot.
            Ok (Some (BeaconStatePhase0
              (genesis_fields inp genesisValidatorRoot bodyRoot validators balances))))
          else if in_Fork inp = Fork_Altair then
            bind_out (ssz_BodyAltair_root S) (\<lambda>bodyRoot.
            Ok (Some (BeaconStateAltair
              (genesis_fields inp genesisValidatorRoot bodyRoot validators balances))))
          else Ok None))"

section \<open>Lemmas\<close>

lemma add_validators_eq:
  "add_validators C accts (vs, bs) =
     (vs @ map (genesis_validator C) accts, bs @ replicate (length accts) minValidatorBalance)"
  by (induction accts arbitrary: vs bs) (auto simp: replicate_app_Cons_same)

lemma emptyDepositRoot_ok: "init_emptyDepositRoot = Ok emptyDepositRoot \<and> length emptyDepositRoot = 32
    \<and> hex_encode emptyDepositRoot = empty_deposit_hex"
  by code_simp

text \<open>A concrete hasher: it counts what it has been fed.\<close>

definition sample_ssz :: "nat ssz_api" where
  "sample_ssz = \<lparr>ssz_NewHasher = 0, ssz_Index = (\<lambda>h. h), ssz_HashTreeRootWith = (\<lambda>v h. (Ok (), Suc h)),
     ssz_MerkleizeWithMixin = (\<lambda>i n lim h. h), ssz_Merkleize = (\<lambda>i h. h),
     ssz_HashRoot = (\<lambda>h. Ok (itoa h)), ssz_BodyPhase0_root = Ok ''p0'', ssz_BodyAltair_root = Ok ''alt'',
     ssz_Marshal = (\<lambda>b. Ok (st_GenesisValidatorsRoot (state_data b)))\<rparr>"

definition sample_input :: input where
  "sample_input = \<lparr>in_Eth1Block = \<lparr>blk_Timestamp = 5, blk_Hash = ''h''\<rparr>, in_GenesisTime = 9,
     in_InitialValidator = [\<lparr>Bls = BlsKey 0, Ecdsa = WalletKey 1\<rparr>, \<lparr>Bls = BlsKey 2, Ecdsa = WalletKey 3\<rparr>],
     in_Fork = Fork_Altair, in_ForkVersion = ''v''\<rparr>"

section \<open>Properties\<close>

text \<open>
  C32. A generated genesis state has one validator per account in order, each with a 32 ETH
  balance, active from epoch 0, 8192 zero slashings, the root of the validator list, the empty
  deposit root, the hash of the eth1 block and the time of the input, and is of the fork of the
  input.
\<close>

theorem GenerateGenesis_state:
  assumes "GenerateGenesis C S inp = Ok (Some st)"
  shows "map Pubkey (st_Validators (state_data st)) = map (\<lambda>a. bls_PubKey C (Bls a)) (in_InitialValidator inp)
    \<and> (\<forall>v \<in> set (st_Validators (state_data st)). EffectiveBalance v = 32000000000 \<and> ActivationEpoch v = 0
          \<and> ExitEpoch v = - 1 \<and> WithdrawableEpoch v = - 1)
    \<and> st_Balances (state_data st) = replicate (length (in_InitialValidator inp)) 32000000000
    \<and> length (st_Slashings (state_data st)) = 8192 \<and> set (st_Slashings (state_data st)) = {0}
    \<and> HashTreeRoot S (st_Validators (state_data st)) = Ok (st_GenesisValidatorsRoot (state_data st))
    \<and> st_GenesisTime (state_data st) = in_GenesisTime inp
    \<and> blk_Timestamp (in_Eth1Block inp) \<le> st_GenesisTime (state_data st)
    \<and> hex_encode (DepositRoot (st_Eth1Data (state_data st))) = empty_deposit_hex
    \<and> BlockHash (st_Eth1Data (state_data st)) = blk_Hash (in_Eth1Block inp)
    \<and> (case st of BeaconStatePhase0 d \<Rightarrow> in_Fork inp = Fork_Phase0 \<and> ssz_BodyPhase0_root S = Ok (st_BodyRoot d)
       | BeaconStateAltair d \<Rightarrow> in_Fork inp = Fork_Altair \<and> ssz_BodyAltair_root S = Ok (st_BodyRoot d))"
proof -
  let ?vs = "map (genesis_validator C) (in_InitialValidator inp)"
  let ?bs = "replicate (length (in_InitialValidator inp)) minValidatorBalance"
  from assms obtain root body where time: "\<not> in_GenesisTime inp < blk_Timestamp (in_Eth1Block inp)"
    and root: "HashTreeRoot S ?vs = Ok root"
    and st: "st = BeaconStatePhase0 (genesis_fields inp root body ?vs ?bs) \<and> in_Fork inp = Fork_Phase0
        \<and> ssz_BodyPhase0_root S = Ok body
      \<or> st = BeaconStateAltair (genesis_fields inp root body ?vs ?bs) \<and> in_Fork inp = Fork_Altair
        \<and> ssz_BodyAltair_root S = Ok body"
    by (auto simp: GenerateGenesis_def add_validators_eq bind_out_Ok_iff split: if_splits)
  then have "state_data st = genesis_fields inp root body ?vs ?bs" by auto
  with st time root show ?thesis
    by (auto simp: genesis_fields_def genesis_validator_def slashings_def minValidatorBalance_def
        emptyDepositRoot_ok not_less)
qed

theorem GenerateGenesis_state_witness:
  "\<exists>st. GenerateGenesis sample_crypto sample_ssz sample_input = Ok (Some st)
     \<and> st_Balances (state_data st) = [32000000000, 32000000000] \<and> st_GenesisTime (state_data st) = 9"
proof -
  have "HashTreeRoot sample_ssz (map (genesis_validator sample_crypto) (in_InitialValidator sample_input)) = Ok ''2''"
    by code_simp
  moreover have "ssz_BodyAltair_root sample_ssz = Ok ''alt''" "in_Fork sample_input = Fork_Altair"
    "Fork_Altair \<noteq> Fork_Phase0" "\<not> in_GenesisTime sample_input < blk_Timestamp (in_Eth1Block sample_input)"
    by (simp_all add: sample_ssz_def sample_input_def enum_defs word_less_def)
  ultimately obtain st where "GenerateGenesis sample_crypto sample_ssz sample_input = Ok (Some st)"
    by (simp add: GenerateGenesis_def add_validators_eq)
  note run = this
  have "st_Balances (state_data st) = replicate (length (in_InitialValidator sample_input)) 32000000000"
    and "st_GenesisTime (state_data st) = in_GenesisTime sample_input"
    using GenerateGenesis_state [OF run] by blast+
  moreover have "length (in_InitialValidator sample_input) = Suc (Suc 0)"
    and "in_GenesisTime sample_input = 9"
    by (simp_all add: sample_input_def)
  ultimately show ?thesis
    by (intro exI [of _ st] conjI run) simp_all
qed

theorem GenerateGenesis_negative_time:
  assumes "sint (in_GenesisTime inp) < 0" and "uint (blk_Timestamp (in_Eth1Block inp)) < 2 ^ 63"
    and "HashTreeRoot S (map (genesis_validator C) (in_InitialValidator inp)) = Ok root"
    and "in_Fork inp = Fork_Phase0" and "ssz_BodyPhase0_root S = Ok body"
  shows "\<exists>d. GenerateGenesis C S inp = Ok (Some (BeaconStatePhase0 d))
    \<and> uint (st_GenesisTime d) = 2 ^ 64 + sint (in_GenesisTime inp)"
proof -
  have t: "uint (in_GenesisTime inp) = 2 ^ 64 + sint (in_GenesisTime inp)"
    and big: "2 ^ 63 \<le> uint (in_GenesisTime inp)"
    using assms(1) unfolding sint_uint64 by (auto split: if_splits)
  with assms(2) have "\<not> in_GenesisTime inp < blk_Timestamp (in_Eth1Block inp)"
    by (simp add: word_less_def)
  with assms(3-5) t show ?thesis
    by (simp add: GenerateGenesis_def add_validators_eq genesis_fields_def)
qed

theorem GenerateGenesis_negative_time_witness:
  "\<exists>d. GenerateGenesis sample_crypto sample_ssz (sample_input\<lparr>in_GenesisTime := - 1, in_Fork := Fork_Phase0\<rparr>)
      = Ok (Some (BeaconStatePhase0 d)) \<and> uint (st_GenesisTime d) = 2 ^ 64 - 1"
proof -
  let ?i = "sample_input\<lparr>in_GenesisTime := - 1, in_Fork := Fork_Phase0\<rparr>"
  have "HashTreeRoot sample_ssz (map (genesis_validator sample_crypto) (in_InitialValidator ?i)) = Ok ''2''"
    by code_simp
  moreover have "ssz_BodyPhase0_root sample_ssz = Ok ''p0''" by (simp add: sample_ssz_def)
  moreover have "uint (blk_Timestamp (in_Eth1Block ?i)) < 2 ^ 63" by (simp add: sample_input_def)
  ultimately show ?thesis
    using GenerateGenesis_negative_time [of ?i sample_ssz sample_crypto "''2''" "''p0''"] by simp
qed

theorem HashTreeRoot_limit:
  assumes "HashTreeRoot S vs = r" and "length vs < 2 ^ 64"
  shows "(2 ^ 40 < length vs \<longrightarrow> r = Fail ErrIncorrectListSize)
    \<and> (length vs \<le> 2 ^ 40 \<longrightarrow> (\<forall>v h. fst (ssz_HashTreeRootWith S v h) = Ok ()) \<longrightarrow>
        r = ssz_HashRoot S (ssz_Merkleize S (ssz_Index S (ssz_NewHasher S))
             (ssz_MerkleizeWithMixin S (ssz_Index S (ssz_NewHasher S)) (of_nat (length vs)) set_limit
               (fold (\<lambda>v h. snd (ssz_HashTreeRootWith S v h)) vs (ssz_NewHasher S)))))"
proof -
  have num: "(of_nat (length vs) :: uint64) > set_limit \<longleftrightarrow> 2 ^ 40 < length vs"
    using assms(2) by (simp add: set_limit_def word_less_nat_alt unat_of_nat take_bit_nat_eq_self)
  have feed: "\<exists>us. for_each xs (ssz_HashTreeRootWith S) h
      = (Ok us, fold (\<lambda>v h. snd (ssz_HashTreeRootWith S v h)) xs h)"
    if ok: "\<forall>v h. fst (ssz_HashTreeRootWith S v h) = Ok ()" for xs h
  proof (induction xs arbitrary: h)
    case (Cons x xs)
    obtain t where "ssz_HashTreeRootWith S x h = (Ok (), t)"
      using ok by (metis prod.collapse)
    with Cons [of t] show ?case by (auto simp: bind_go_def)
  qed simp
  show ?thesis
  proof (intro conjI impI)
    assume "2 ^ 40 < length vs"
    with num assms(1) show "r = Fail ErrIncorrectListSize"
      by (auto simp: HashTreeRoot_def hash_validator_set_def bind_go_def)
  next
    assume "length vs \<le> 2 ^ 40" and ok: "\<forall>v h. fst (ssz_HashTreeRootWith S v h) = Ok ()"
    with num have "\<not> (of_nat (length vs) :: uint64) > set_limit" by simp
    moreover obtain us where "for_each vs (ssz_HashTreeRootWith S) (ssz_NewHasher S)
        = (Ok us, fold (\<lambda>v h. snd (ssz_HashTreeRootWith S v h)) vs (ssz_NewHasher S))"
      using feed [OF ok] by blast
    ultimately show "r = ssz_HashRoot S (ssz_Merkleize S (ssz_Index S (ssz_NewHasher S))
             (ssz_MerkleizeWithMixin S (ssz_Index S (ssz_NewHasher S)) (of_nat (length vs)) set_limit
               (fold (\<lambda>v h. snd (ssz_HashTreeRootWith S v h)) vs (ssz_NewHasher S))))"
      using assms(1) by (simp add: HashTreeRoot_def hash_validator_set_def bind_go_def Let_def)
  qed
qed

theorem HashTreeRoot_limit_witness:
  "HashTreeRoot sample_ssz [genesis_validator sample_crypto \<lparr>Bls = BlsKey 0, Ecdsa = WalletKey 1\<rparr>] = Ok ''1''"
proof -
  have "itoa 1 = ''1''" by code_simp
  then show ?thesis
    using HashTreeRoot_limit [of sample_ssz "[genesis_validator sample_crypto \<lparr>Bls = BlsKey 0, Ecdsa = WalletKey 1\<rparr>]",
        OF refl]
    by (simp add: sample_ssz_def del: itoa.simps)
qed

end
