(* ===== verification/DepositHandler.thy ===== *)
theory DepositHandler
  imports Genesis
begin

text \<open>
  internal/server/deposit_handler.go: the account that pays for deposits.  It sends transactions with
  a nonce it counts itself, waits for their receipts and makes the validators' deposits, one goroutine
  for each account.

  The JSON-RPC client, the signer and the deposit contract's bindings are the parameter \<open>eth_api\<close>; a
  client is identified by its address.  A goroutine of \<open>MakeDeposits\<close> is a thread whose program counter
  \<open>dep_pc\<close> names the next access to state it shares with others: the nonce, the network, the channel.
  \<open>pc_step\<close> is one such access.  The scheduler is part of the outside world: it may pick any thread, or
  let the caller receive.  The goroutines that a call leaves running when it returns early stay in
  \<open>dh_threads\<close>, and go on running during later calls.
\<close>

section \<open>Data\<close>

record transaction =
  tx_To :: "bytes option"
  tx_Value :: nat
  tx_GasPrice :: uint64
  tx_Gas :: uint64
  tx_Nonce :: uint64
  tx_Input :: bytes

definition empty_txn :: transaction where
  "empty_txn = \<lparr>tx_To = None, tx_Value = 0, tx_GasPrice = 0, tx_Gas = 0, tx_Nonce = 0, tx_Input = []\<rparr>"

record receipt =
  rc_ContractAddress :: bytes
  rc_Logs :: "bytes list"

record deposit_data =
  dd_Pubkey :: bytes
  dd_WithdrawalCredentials :: bytes
  dd_Signature :: bytes
  dd_Root :: bytes

text \<open>\<open>GetTransactionReceipt\<close> returns a receipt (or nil) and an error (or nil).\<close>

record 'w eth_api =
  eth_NewClient :: "string \<Rightarrow> ('w, unit) go"
  eth_SignTx :: "nat \<Rightarrow> transaction \<Rightarrow> wallet_key \<Rightarrow> bytes outcome"
  eth_MarshalRLP :: "bytes \<Rightarrow> bytes outcome"
  eth_SendRawTransaction :: "string \<Rightarrow> bytes \<Rightarrow> ('w, bytes) go"
  eth_GetTransactionReceipt :: "string \<Rightarrow> bytes \<Rightarrow> 'w \<Rightarrow> (receipt option \<times> string option) \<times> 'w"
  eth_GetBlockByNumber :: "string \<Rightarrow> ('w, eth1_block option) go"
  eth_Ether :: "uint64 \<Rightarrow> nat"
  eth_Gwei :: "uint64 \<Rightarrow> nat"
  dep_MinGweiAmount :: uint64
  dep_Bin :: bytes
  dep_Input :: "bls_key \<Rightarrow> uint64 \<Rightarrow> deposit_data outcome"
  dep_Deposit :: "bytes \<Rightarrow> wallet_key \<Rightarrow> string \<Rightarrow> deposit_data \<Rightarrow> ('w, nat) go"
  dep_Do :: "nat \<Rightarrow> uint64 \<Rightarrow> nat \<Rightarrow> ('w, unit) go"
  dep_Wait :: "nat \<Rightarrow> ('w, receipt) go"
  dep_ParseLog :: "bytes \<Rightarrow> unit outcome"
  dep_GetDepositCount :: "bytes \<Rightarrow> string \<Rightarrow> ('w, bytes) go"
  eth_sched :: "nat \<Rightarrow> 'w \<Rightarrow> nat option \<times> 'w"

datatype dep_pc =
    DoFund
  | DoSend bytes
  | DoPoll bytes nat
  | DoDeposit
  | DoTxn nat
  | DoWait nat
  | DoDeliver "string option"

record thread =
  th_chan :: nat
  th_acct :: account
  th_pc :: dep_pc

record depositHandler =
  dh_deposit :: bytes
  dh_client :: string
  dh_key :: wallet_key
  dh_nonce :: "64 word"
  dh_threads :: "thread list"
  dh_chans :: nat

type_synonym 'w dstate = "'w world \<times> depositHandler"

definition on_world :: "('w world, 'a) go \<Rightarrow> ('w dstate, 'a) go" where
  "on_world m = on_part fst (\<lambda>w s. (w, snd s)) m"

section \<open>Sending a transaction\<close>

definition defaultGasPrice :: uint64 where "defaultGasPrice = 1879048192"
definition defaultGasLimit :: uint64 where "defaultGasLimit = 5242880"

text \<open>\<open>atomic.AddInt64\<close> returns the value it stored.\<close>

definition getNextNonce :: "('w dstate, uint64) go" where
  "getNextNonce = (\<lambda>(w, e). (Ok (dh_nonce e + 1), (w, e\<lparr>dh_nonce := dh_nonce e + 1\<rparr>)))"

definition with_gas :: "transaction \<Rightarrow> transaction" where
  "with_gas txn =
     (let txn = (if tx_GasPrice txn = 0 then txn\<lparr>tx_GasPrice := defaultGasPrice\<rparr> else txn)
      in if tx_Gas txn = 0 then txn\<lparr>tx_Gas := defaultGasLimit\<rparr> else txn)"

text \<open>The first half of \<open>sendTransaction\<close>: up to the encoded signed transaction.\<close>

definition prepareTransaction :: "'w eth_api \<Rightarrow> transaction \<Rightarrow> ('w dstate, bytes) go" where
  "prepareTransaction E txn =
     (let txn = with_gas txn in
      bind_go (if tx_Nonce txn = 0
               then bind_go getNextNonce (\<lambda>n. ret (txn\<lparr>tx_Nonce := n\<rparr>)) else ret txn) (\<lambda>txn.
      bind_go (gets (dh_key \<circ> snd)) (\<lambda>key.
      bind_go (lift_out (eth_SignTx E 1337 txn key)) (\<lambda>signedTxn.
      lift_out (eth_MarshalRLP E signedTxn)))))"

definition sendRaw :: "'w eth_api \<Rightarrow> bytes \<Rightarrow> ('w dstate, bytes) go" where
  "sendRaw E txnRaw =
     bind_go (gets (dh_client \<circ> snd)) (\<lambda>client.
     on_world (ext_call (SendRawTransaction txnRaw) (eth_SendRawTransaction E client txnRaw)))"

text \<open>One round of the loop of \<open>waitForReceipt\<close>: an error other than "not found" is returned.\<close>

definition pollReceipt :: "'w eth_api \<Rightarrow> bytes \<Rightarrow> ('w dstate, receipt option) go" where
  "pollReceipt E hash =
     bind_go (gets (dh_client \<circ> snd)) (\<lambda>client.
     bind_go (on_world (ext_call (GetTransactionReceipt hash)
        (\<lambda>x. case eth_GetTransactionReceipt E client hash x of (re, y) \<Rightarrow> (Ok re, y)))) (\<lambda>(receipt, err).
     case err of
       Some e \<Rightarrow> if e \<noteq> ''not found'' then fail e else ret receipt
     | None \<Rightarrow> ret receipt))"

function waitForReceipt_from :: "'w eth_api \<Rightarrow> bytes \<Rightarrow> nat \<Rightarrow> 'w dstate \<Rightarrow> receipt outcome \<times> 'w dstate" where
  "waitForReceipt_from E hash cnt s =
     (case pollReceipt E hash s of
        (Ok (Some receipt), t) \<Rightarrow> (Ok receipt, t)
      | (Ok None, t) \<Rightarrow>
          if cnt > 120 then (Fail ''timeout'', t) else waitForReceipt_from E hash (Suc cnt) t
      | (Fail e, t) \<Rightarrow> (Fail e, t)
      | (Panic p, t) \<Rightarrow> (Panic p, t))"
  by pat_completeness auto
termination
  by (relation "measure (\<lambda>(E, hash, cnt, s). 122 - cnt)") auto

declare waitForReceipt_from.simps [simp del]

definition waitForReceipt :: "'w eth_api \<Rightarrow> bytes \<Rightarrow> ('w dstate, receipt) go" where
  "waitForReceipt E hash = waitForReceipt_from E hash 0"

definition sendTransaction :: "'w eth_api \<Rightarrow> transaction \<Rightarrow> ('w dstate, receipt) go" where
  "sendTransaction E txn =
     bind_go (prepareTransaction E txn) (\<lambda>txnRaw.
     bind_go (sendRaw E txnRaw) (waitForReceipt E))"

definition fund_txn :: "'w eth_api \<Rightarrow> bytes \<Rightarrow> transaction" where
  "fund_txn E addr = empty_txn\<lparr>tx_To := Some addr, tx_Value := eth_Ether E (dep_MinGweiAmount E + 1)\<rparr>"

definition fund :: "'w eth_api \<Rightarrow> bytes \<Rightarrow> ('w dstate, unit) go" where
  "fund E addr = bind_go (sendTransaction E (fund_txn E addr)) (\<lambda>_. ret ())"

definition deployDeposit :: "'w eth_api \<Rightarrow> ('w dstate, unit) go" where
  "deployDeposit E =
     bind_go (sendTransaction E (empty_txn\<lparr>tx_Input := dep_Bin E\<rparr>)) (\<lambda>receipt.
     modify (\<lambda>(w, e). (w, e\<lparr>dh_deposit := rc_ContractAddress receipt\<rparr>)))"

text \<open>The handler is built locally and returned; \<open>ethgo.Address\<close> is 20 zero bytes until it is set.\<close>

definition newDepositHandler ::
    "'w eth_api \<Rightarrow> string \<Rightarrow> wallet_key \<Rightarrow> ('w world, depositHandler) go" where
  "newDepositHandler E eth1Addr key =
     bind_go (ext_call (NewClient eth1Addr) (eth_NewClient E eth1Addr)) (\<lambda>_ w.
     case deployDeposit E (w, \<lparr>dh_deposit = replicate 20 (CHR 0x00), dh_client = eth1Addr, dh_key = key,
         dh_nonce = - 1, dh_threads = [], dh_chans = 0\<rparr>) of
       (Ok _, (v, e)) \<Rightarrow> (Ok e, v)
     | (Fail err, (v, e)) \<Rightarrow> (Fail err, v)
     | (Panic p, (v, e)) \<Rightarrow> (Panic p, v))"

text \<open>\<open>binary.LittleEndian.Uint32\<close> panics when there are fewer than four bytes.\<close>

definition le_uint32 :: "bytes \<Rightarrow> 32 word outcome" where
  "le_uint32 b =
     (if length b < 4 then Panic ''runtime error: index out of range''
      else Ok (word_rcat (rev (map of_char (take 4 b) :: 8 word list))))"

definition GetDepositCount :: "'w eth_api \<Rightarrow> ('w dstate, 32 word) go" where
  "GetDepositCount E =
     bind_go (gets snd) (\<lambda>e.
     bind_go (on_world (ext_call (CallGetDepositCount (dh_deposit e))
        (dep_GetDepositCount E (dh_deposit e) (dh_client e)))) (\<lambda>cnt.
     lift_out (le_uint32 cnt)))"

section \<open>A deposit\<close>

definition buildDeposit :: "'w eth_api \<Rightarrow> account \<Rightarrow> ('w dstate, nat) go" where
  "buildDeposit E acct =
     bind_go (lift_out (dep_Input E (Bls acct) (of_nat (eth_Gwei E (dep_MinGweiAmount E))))) (\<lambda>data.
     bind_go (gets snd) (\<lambda>e.
     on_world (ext_call (DepositCall (dd_Pubkey data))
       (dep_Deposit E (dh_deposit e) (Ecdsa acct) (dh_client e) data))))"

definition doDeposit :: "'w eth_api \<Rightarrow> nat \<Rightarrow> ('w dstate, unit) go" where
  "doDeposit E txn = on_world (ext_call (TxnDo txn)
     (dep_Do E txn defaultGasLimit (eth_Ether E (dep_MinGweiAmount E))))"

definition finishDeposit :: "'w eth_api \<Rightarrow> nat \<Rightarrow> ('w dstate, unit) go" where
  "finishDeposit E txn =
     bind_go (on_world (ext_call (TxnWait txn) (dep_Wait E txn))) (\<lambda>receipt.
     if length (rc_Logs receipt) \<noteq> 1 then fail ''log not found''
     else lift_out (dep_ParseLog E (rc_Logs receipt ! 0)))"

definition MakeDeposit :: "'w eth_api \<Rightarrow> 'w crypto_api \<Rightarrow> account \<Rightarrow> ('w dstate, unit) go" where
  "MakeDeposit E C account =
     bind_go (fund E (wallet_Address C (Ecdsa account))) (\<lambda>_.
     bind_go (buildDeposit E account) (\<lambda>txn.
     bind_go (doDeposit E txn) (\<lambda>_.
     finishDeposit E txn)))"

section \<open>The goroutines of MakeDeposits\<close>

text \<open>An error of a step is what the goroutine will send on its channel.\<close>

definition or_deliver :: "('w dstate, dep_pc) go \<Rightarrow> ('w dstate, dep_pc) go" where
  "or_deliver m = bind_go (attempt m) (\<lambda>r. case r of
     Inl e \<Rightarrow> ret (DoDeliver (Some e))
   | Inr pc \<Rightarrow> ret pc)"

fun pc_step :: "'w eth_api \<Rightarrow> 'w crypto_api \<Rightarrow> account \<Rightarrow> dep_pc \<Rightarrow> ('w dstate, dep_pc) go" where
  "pc_step E C acct DoFund = or_deliver
     (bind_go (prepareTransaction E (fund_txn E (wallet_Address C (Ecdsa acct)))) (\<lambda>raw. ret (DoSend raw)))"
| "pc_step E C acct (DoSend raw) = or_deliver
     (bind_go (sendRaw E raw) (\<lambda>hash. ret (DoPoll hash 0)))"
| "pc_step E C acct (DoPoll hash cnt) = or_deliver
     (bind_go (pollReceipt E hash) (\<lambda>r. case r of
        Some receipt \<Rightarrow> ret DoDeposit
      | None \<Rightarrow> if cnt > 120 then fail ''timeout'' else ret (DoPoll hash (Suc cnt))))"
| "pc_step E C acct DoDeposit = or_deliver
     (bind_go (buildDeposit E acct) (\<lambda>txn. ret (DoTxn txn)))"
| "pc_step E C acct (DoTxn txn) = or_deliver
     (bind_go (doDeposit E txn) (\<lambda>_. ret (DoWait txn)))"
| "pc_step E C acct (DoWait txn) = or_deliver
     (bind_go (finishDeposit E txn) (\<lambda>_. ret (DoDeliver None)))"
| "pc_step E C acct (DoDeliver r) = ret (DoDeliver r)"

text \<open>A bound on the steps a goroutine has left before it sends its result.\<close>

fun pc_left :: "dep_pc \<Rightarrow> nat" where
  "pc_left DoFund = 130"
| "pc_left (DoSend raw) = 129"
| "pc_left (DoPoll hash cnt) = 4 + (122 - cnt)"
| "pc_left DoDeposit = 3"
| "pc_left (DoTxn txn) = 2"
| "pc_left (DoWait txn) = 1"
| "pc_left (DoDeliver r) = 0"

fun delivering :: "dep_pc \<Rightarrow> bool" where
  "delivering (DoDeliver r) = True"
| "delivering _ = False"

lemma or_deliver_OkD:
  "or_deliver m s = (Ok pc, t) \<Longrightarrow> m s = (Ok pc, t) \<or> (\<exists>e. m s = (Fail e, t) \<and> pc = DoDeliver (Some e))"
  by (auto simp: or_deliver_def dest!: attempt_OkD split: sum.splits)

lemma or_deliver_not_Fail: "or_deliver m s \<noteq> (Fail e, t)"
  by (auto simp: or_deliver_def attempt_def bind_go_def split: outcome.splits prod.splits sum.splits)

lemma pc_step_left:
  assumes "pc_step E C acct pc s = (Ok pc', t)" and "\<not> delivering pc"
  shows "pc_left pc' < pc_left pc"
  using assms
  by (cases pc) (auto dest!: or_deliver_OkD split: option.splits if_splits)

section \<open>Sequential runs\<close>

text \<open>One goroutine on its own.\<close>

function run_pc :: "'w eth_api \<Rightarrow> 'w crypto_api \<Rightarrow> account \<Rightarrow> dep_pc \<Rightarrow> 'w dstate \<Rightarrow> unit outcome \<times> 'w dstate" where
  "run_pc E C acct pc s =
     (if delivering pc
      then (case pc of DoDeliver (Some e) \<Rightarrow> (Fail e, s) | _ \<Rightarrow> (Ok (), s))
      else case pc_step E C acct pc s of
        (Ok pc', t) \<Rightarrow> run_pc E C acct pc' t
      | (Fail e, t) \<Rightarrow> (Fail e, t)
      | (Panic p, t) \<Rightarrow> (Panic p, t))"
  by pat_completeness auto
termination
  by (relation "measure (\<lambda>(E, C, acct, pc, s). pc_left pc)") (auto dest!: pc_step_left [OF sym])

declare run_pc.simps [simp del]

lemma run_pc_deliver [simp]:
  "run_pc E C acct (DoDeliver None) = ret ()"
  "run_pc E C acct (DoDeliver (Some e)) = fail e"
  by (auto simp: run_pc.simps fun_eq_iff)

lemma run_pc_step:
  "\<not> delivering pc \<Longrightarrow> run_pc E C acct pc = bind_go (pc_step E C acct pc) (run_pc E C acct)"
  by (auto simp: run_pc.simps bind_go_def fun_eq_iff split: outcome.split prod.split)

text \<open>Once a step is turned into its result, the goroutine's run is the monadic code.\<close>

lemma bind_or_deliver:
  "bind_go (or_deliver m) (run_pc E C acct) = bind_go m (run_pc E C acct)"
  by (auto simp: or_deliver_def attempt_def bind_go_def fun_eq_iff split: outcome.split prod.split)

lemma bind_go_cong_right: "(\<And>x. k x = k' x) \<Longrightarrow> bind_go m k = bind_go m k'"
  by (subgoal_tac "k = k'") auto

lemma bind_go_unit [simp]: "bind_go m (\<lambda>_. Pair (Ok ())) = m"
  by (auto simp: bind_go_def fun_eq_iff split: outcome.split prod.split)

lemma waitForReceipt_unfold:
  "waitForReceipt_from E hash cnt = bind_go (pollReceipt E hash) (\<lambda>r. case r of
     Some receipt \<Rightarrow> ret receipt
   | None \<Rightarrow> if cnt > 120 then fail ''timeout'' else waitForReceipt_from E hash (Suc cnt))"
  by (auto simp: bind_go_def fun_eq_iff waitForReceipt_from.simps [of E hash cnt]
      split: outcome.split prod.split option.split)

lemma run_pc_poll:
  "run_pc E C acct (DoPoll hash cnt) =
     bind_go (waitForReceipt_from E hash cnt) (\<lambda>_. run_pc E C acct DoDeposit)"
proof (induction "122 - cnt" arbitrary: cnt)
  case 0
  then show ?case
    unfolding waitForReceipt_unfold [of E hash cnt]
    by (simp add: run_pc_step [of "DoPoll hash cnt"] bind_or_deliver bind_go_assoc)
       (auto intro!: bind_go_cong_right split: option.split)
next
  case (Suc n)
  then have "n = 122 - Suc cnt" by simp
  note IH = Suc.hyps(1) [OF this]
  show ?case
    unfolding waitForReceipt_unfold [of E hash cnt]
    by (simp add: run_pc_step [of "DoPoll hash cnt"] bind_or_deliver bind_go_assoc)
       (auto intro!: bind_go_cong_right simp: IH split: option.split)
qed

lemma run_pc_MakeDeposit: "run_pc E C acct DoFund = MakeDeposit E C acct"
  by (simp add: run_pc_step bind_or_deliver bind_go_assoc MakeDeposit_def fund_def sendTransaction_def
      run_pc_poll waitForReceipt_def)

section \<open>MakeDeposits\<close>

text \<open>
  One step of the goroutine at index \<open>i\<close>.  A goroutine that has its result sends it and ends; the channel
  is made with room for one result per account of its call, so the send does not block (lemma
  \<open>send_has_room\<close> of theory \<open>DepositRuns\<close>: no reachable state has a full channel and a result to send).  \<open>c\<close> is the channel the caller reads
  and \<open>buf\<close> what it holds; what is sent to the channel of an earlier call is never read.
\<close>

definition remove_nth :: "nat \<Rightarrow> 'a list \<Rightarrow> 'a list" where
  "remove_nth i xs = take i xs @ drop (Suc i) xs"

definition set_threads :: "thread list \<Rightarrow> 'w dstate \<Rightarrow> 'w dstate" where
  "set_threads ts s = (fst s, (snd s)\<lparr>dh_threads := ts\<rparr>)"

definition thread_step ::
    "'w eth_api \<Rightarrow> 'w crypto_api \<Rightarrow> nat \<Rightarrow> nat \<Rightarrow> string option list \<Rightarrow> ('w dstate, string option list) go" where
  "thread_step E C c i buf = (\<lambda>s.
     let th = dh_threads (snd s) ! i in
     case th_pc th of
       DoDeliver r \<Rightarrow>
         (Ok (if th_chan th = c then buf @ [r] else buf), set_threads (remove_nth i (dh_threads (snd s))) s)
     | pc \<Rightarrow>
         bind_go (pc_step E C (th_acct th) pc) (\<lambda>pc'.
         bind_go (modify (\<lambda>t. set_threads ((dh_threads (snd t))[i := th\<lparr>th_pc := pc'\<rparr>]) t)) (\<lambda>_.
         ret buf)) s)"

definition threads_left :: "thread list \<Rightarrow> nat" where
  "threads_left ts = sum_list (map (\<lambda>th. Suc (pc_left (th_pc th))) ts)"

definition other_parts :: "'w dstate \<Rightarrow> 'w dstate \<Rightarrow> bool" where
  "other_parts s t \<longleftrightarrow> dh_threads (snd t) = dh_threads (snd s) \<and> dh_chans (snd t) = dh_chans (snd s)
     \<and> dh_client (snd t) = dh_client (snd s) \<and> dh_key (snd t) = dh_key (snd s)
     \<and> dh_deposit (snd t) = dh_deposit (snd s)"

interpretation other_parts: trans_rel other_parts
  by unfold_locales (auto simp: other_parts_def)

lemma other_parts_nonce: "within other_parts getNextNonce"
  by (auto simp: within_def other_parts_def getNextNonce_def)

lemma other_parts_world: "within other_parts (on_world m)"
  by (auto simp: within_def other_parts_def on_world_def on_part_def split: prod.split)

lemmas other_parts_rules = other_parts.within_all other_parts_nonce other_parts_world

lemma other_parts_steps:
  "within other_parts (prepareTransaction E txn)" "within other_parts (sendRaw E raw)"
  "within other_parts (pollReceipt E hash)" "within other_parts (buildDeposit E acct)"
  "within other_parts (doDeposit E n)" "within other_parts (finishDeposit E n)"
  unfolding prepareTransaction_def sendRaw_def pollReceipt_def buildDeposit_def doDeposit_def
    finishDeposit_def Let_def
  by (intro other_parts_rules)+

lemma other_parts_or_deliver: "within other_parts m \<Longrightarrow> within other_parts (or_deliver m)"
  unfolding or_deliver_def by (intro other_parts_rules)

lemma pc_step_other_parts: "within other_parts (pc_step E C acct pc)"
proof (cases pc)
  case (DoPoll hash cnt)
  have "within other_parts (case r of
        Some receipt \<Rightarrow> ret DoDeposit
      | None \<Rightarrow> if cnt > 120 then fail ''timeout'' else ret (DoPoll hash (Suc cnt)))"
    for r :: "receipt option"
    by (cases r) (simp_all add: other_parts.within_pure)
  with DoPoll show ?thesis
    by (auto intro!: other_parts_or_deliver other_parts.within_bind other_parts_steps)
qed (auto intro!: other_parts_or_deliver other_parts.within_bind other_parts_steps
  simp: other_parts.within_pure)

lemma set_threads_simps [simp]:
  "fst (set_threads ts s) = fst s" "dh_threads (snd (set_threads ts s)) = ts"
  "dh_nonce (snd (set_threads ts s)) = dh_nonce (snd s)" "dh_chans (snd (set_threads ts s)) = dh_chans (snd s)"
  by (simp_all add: set_threads_def)

text \<open>What a step of a goroutine does to the list of goroutines and to the channel.\<close>

lemma thread_step_Ok:
  assumes "thread_step E C c i buf s = (Ok buf', t)"
  defines "th \<equiv> dh_threads (snd s) ! i"
  shows "(\<exists>r. th_pc th = DoDeliver r \<and> buf' = (if th_chan th = c then buf @ [r] else buf)
      \<and> t = set_threads (remove_nth i (dh_threads (snd s))) s)
    \<or> (\<exists>pc' u. \<not> delivering (th_pc th) \<and> pc_step E C (th_acct th) (th_pc th) s = (Ok pc', u)
      \<and> buf' = buf \<and> dh_threads (snd u) = dh_threads (snd s) \<and> dh_chans (snd u) = dh_chans (snd s)
      \<and> t = set_threads ((dh_threads (snd s))[i := th\<lparr>th_pc := pc'\<rparr>]) u)"
proof (cases "\<exists>r. th_pc th = DoDeliver r")
  case True
  then obtain r where r: "th_pc (dh_threads (snd s) ! i) = DoDeliver r" unfolding th_def by blast
  have "buf' = (if th_chan th = c then buf @ [r] else buf)"
    and "t = set_threads (remove_nth i (dh_threads (snd s))) s"
    using assms(1) unfolding thread_step_def Let_def r th_def by simp_all
  with r show ?thesis unfolding th_def by blast
next
  case False
  then have nd: "\<not> delivering (th_pc th)" by (cases "th_pc th") auto
  have "thread_step E C c i buf s =
      bind_go (pc_step E C (th_acct th) (th_pc th)) (\<lambda>pc'.
      bind_go (modify (\<lambda>t. set_threads ((dh_threads (snd t))[i := th\<lparr>th_pc := pc'\<rparr>]) t)) (\<lambda>_. ret buf)) s"
    using False unfolding thread_step_def Let_def th_def [symmetric]
    by (cases "th_pc th") simp_all
  note run = trans [OF this [symmetric] assms(1)]
  from run obtain pc' u where step: "pc_step E C (th_acct th) (th_pc th) s = (Ok pc', u)"
    and rest: "buf' = buf" "t = set_threads ((dh_threads (snd u))[i := th\<lparr>th_pc := pc'\<rparr>]) u"
    by (rule bind_go_OkE) auto
  have "other_parts s u" using pc_step_other_parts step by (rule withinD)
  with nd step rest show ?thesis by (auto simp: other_parts_def)
qed

lemma threads_left_update:
  "i < length ts \<Longrightarrow> pc_left (th_pc th) < pc_left (th_pc (ts ! i)) \<Longrightarrow>
     threads_left (ts[i := th]) < threads_left ts"
proof (induction ts arbitrary: i)
  case (Cons a ts)
  then show ?case by (cases i) (auto simp: threads_left_def)
qed simp

lemma threads_left_remove: "i < length ts \<Longrightarrow> threads_left (remove_nth i ts) < threads_left ts"
proof (induction ts arbitrary: i)
  case (Cons a ts)
  then show ?case by (cases i) (auto simp: threads_left_def remove_nth_def)
qed simp

lemma thread_step_left:
  assumes "thread_step E C c i buf s = (Ok buf', t)" and "i < length (dh_threads (snd s))"
  shows "threads_left (dh_threads (snd t)) < threads_left (dh_threads (snd s))"
  using thread_step_Ok [OF assms(1)] assms(2)
  by (auto intro!: threads_left_update threads_left_remove dest!: pc_step_left)

text \<open>
  The caller: \<open>left\<close> results are still to be received.  The scheduler picks a goroutine, or the caller when
  a result is there.  With nothing to run and nothing to receive Go reports a deadlock.
\<close>

definition pick :: "nat option \<Rightarrow> nat \<Rightarrow> nat" where
  "pick choice n = (case choice of None \<Rightarrow> 0 | Some i \<Rightarrow> i mod n)"

lemma pick_less: "ts \<noteq> [] \<Longrightarrow> pick choice (length ts) < length ts"
  by (auto simp: pick_def split: option.split)

function deposits_loop ::
    "'w eth_api \<Rightarrow> 'w crypto_api \<Rightarrow> nat \<Rightarrow> nat \<Rightarrow> string option list \<Rightarrow> 'w dstate \<Rightarrow> unit outcome \<times> 'w dstate" where
  "deposits_loop E C c left buf s =
     (if left = 0 then (Ok (), s)
      else case eth_sched E (length (dh_threads (snd s))) (ext (fst s)) of (choice, x) \<Rightarrow>
        let t = ((fst s)\<lparr>ext := x\<rparr>, snd s); ts = dh_threads (snd s) in
        if buf \<noteq> [] \<and> (choice = None \<or> ts = [])
        then (case hd buf of
                Some err \<Rightarrow> (Fail err, t)
              | None \<Rightarrow> deposits_loop E C c (left - 1) (tl buf) t)
        else if ts = [] then (Panic ''all goroutines are asleep - deadlock!'', t)
        else (case thread_step E C c (pick choice (length ts)) buf t of
                (Ok buf', u) \<Rightarrow> deposits_loop E C c left buf' u
              | (Fail e, u) \<Rightarrow> (Fail e, u)
              | (Panic p, u) \<Rightarrow> (Panic p, u)))"
  by pat_completeness auto
termination
proof (relation "measure (\<lambda>(E, C, c, left, buf, s). left + threads_left (dh_threads (snd s)))", goal_cases)
  case 1
  then show ?case by simp
next
  case 2
  then show ?case by auto
next
  case 3
  then show ?case
    by (auto dest!: thread_step_left [OF sym] simp: pick_less)
qed

declare deposits_loop.simps [simp del]

definition new_threads :: "nat \<Rightarrow> account list \<Rightarrow> thread list" where
  "new_threads c accounts = map (\<lambda>a. \<lparr>th_chan = c, th_acct = a, th_pc = DoFund\<rparr>) accounts"

definition start_deposits :: "account list \<Rightarrow> 'w dstate \<Rightarrow> 'w dstate" where
  "start_deposits accounts s = (fst s, (snd s)\<lparr>
     dh_threads := dh_threads (snd s) @ new_threads (dh_chans (snd s)) accounts,
     dh_chans := Suc (dh_chans (snd s))\<rparr>)"

definition MakeDeposits :: "'w eth_api \<Rightarrow> 'w crypto_api \<Rightarrow> account list \<Rightarrow> ('w dstate, unit) go" where
  "MakeDeposits E C accounts = (\<lambda>s.
     deposits_loop E C (dh_chans (snd s)) (length accounts) [] (start_deposits accounts s))"

section \<open>A concrete endpoint\<close>

text \<open>
  Every request succeeds; a transaction is encoded as its nonce in decimal; goroutines and the caller
  take turns.  \<open>silent_eth\<close> never has a receipt; \<open>broke_eth\<close> refuses the second transaction.
\<close>

definition sample_eth :: "nat eth_api" where
  "sample_eth = \<lparr>
     eth_NewClient = (\<lambda>a n. (Ok (), n)),
     eth_SignTx = (\<lambda>chain txn key. Ok (itoa (unat (tx_Nonce txn)))),
     eth_MarshalRLP = Ok,
     eth_SendRawTransaction = (\<lambda>a raw n. (Ok raw, n)),
     eth_GetTransactionReceipt = (\<lambda>a h n. ((Some \<lparr>rc_ContractAddress = ''contract'', rc_Logs = []\<rparr>, None), n)),
     eth_GetBlockByNumber = (\<lambda>a n. (Ok (Some \<lparr>blk_Timestamp = 5, blk_Hash = ''h''\<rparr>), n)),
     eth_Ether = (\<lambda>x. unat x),
     eth_Gwei = (\<lambda>x. unat x),
     dep_MinGweiAmount = 32,
     dep_Bin = ''bin'',
     dep_Input = (\<lambda>k amt. case k of BlsKey i \<Rightarrow> Ok \<lparr>dd_Pubkey = itoa i, dd_WithdrawalCredentials = [],
        dd_Signature = [], dd_Root = []\<rparr>),
     dep_Deposit = (\<lambda>a k c d n. (Ok n, Suc n)),
     dep_Do = (\<lambda>i gas v n. (Ok (), n)),
     dep_Wait = (\<lambda>i n. (Ok \<lparr>rc_ContractAddress = [], rc_Logs = [''log'']\<rparr>, n)),
     dep_ParseLog = (\<lambda>l. Ok ()),
     dep_GetDepositCount = (\<lambda>a c n. (Ok [CHR 0x03, CHR 0x01, CHR 0x00, CHR 0x00], n)),
     eth_sched = (\<lambda>k n. (None, n))\<rparr>"

definition silent_eth :: "nat eth_api" where
  "silent_eth = sample_eth\<lparr>eth_GetTransactionReceipt := (\<lambda>a h n. ((None, Some ''not found''), n))\<rparr>"

definition broke_eth :: "nat eth_api" where
  "broke_eth = sample_eth\<lparr>
     eth_SendRawTransaction := (\<lambda>a raw n. (if raw = ''1'' then (Fail ''insufficient funds'', n) else (Ok raw, n))),
     eth_sched := (\<lambda>k n. (if even n then Some n else None, Suc n))\<rparr>"

definition sample_handler :: depositHandler where
  "sample_handler = \<lparr>dh_deposit = ''contract'', dh_client = ''http://172.17.0.2:8545'', dh_key = WalletKey 0,
     dh_nonce = 0, dh_threads = [], dh_chans = 0\<rparr>"

definition sample_dstate :: "nat dstate" where
  "sample_dstate = (sample_world, sample_handler)"

definition sample_accounts :: "account list" where
  "sample_accounts = [\<lparr>Bls = BlsKey 7, Ecdsa = WalletKey 1\<rparr>, \<lparr>Bls = BlsKey 8, Ecdsa = WalletKey 2\<rparr>]"

end
