(* ===== verification/DepositRuns.thy ===== *)
theory DepositRuns
  imports DepositHandler "HOL-Library.Multiset"
begin

text \<open>
  What \<open>MakeDeposits\<close> guarantees under every schedule of its goroutines: the interleavings as a step
  relation, its invariants by rule induction, and the properties of the deposit handler.
\<close>

section \<open>The interleavings as a step relation\<close>

text \<open>
  \<open>deposits_step E C c\<close> relates the states of the call whose channel is \<open>c\<close>: results still to receive, the
  channel's content, the world and the handler.  Any goroutine may move, the caller may receive, and the
  scheduler may change its own state.
\<close>

inductive deposits_step :: "'w eth_api \<Rightarrow> 'w crypto_api \<Rightarrow> nat \<Rightarrow>
    nat \<times> string option list \<times> 'w dstate \<Rightarrow> nat \<times> string option list \<times> 'w dstate \<Rightarrow> bool"
  for E :: "'w eth_api" and C :: "'w crypto_api" and c :: nat where
  goroutine: "i < length (dh_threads (snd s)) \<Longrightarrow> thread_step E C c i buf s = (Ok buf', t) \<Longrightarrow>
     deposits_step E C c (n, buf, s) (n, buf', t)"
| receive: "deposits_step E C c (Suc n, None # buf, s) (n, buf, s)"
| schedule: "deposits_step E C c (n, buf, (w, h)) (n, buf, (w\<lparr>ext := x\<rparr>, h))"

inductive_cases deposits_stepE: "deposits_step E C c (n, buf, s) (n', buf', t)"

text \<open>The scheduler's turn.\<close>

definition scheduled :: "'w eth_api \<Rightarrow> 'w dstate \<Rightarrow> nat option \<times> 'w dstate" where
  "scheduled E s = (case eth_sched E (length (dh_threads (snd s))) (ext (fst s)) of
     (choice, x) \<Rightarrow> (choice, ((fst s)\<lparr>ext := x\<rparr>, snd s)))"

lemma scheduled_threads: "scheduled E s = (choice, u) \<Longrightarrow> snd u = snd s"
  by (auto simp: scheduled_def split: prod.splits)

lemma scheduled_step: "scheduled E s = (choice, u) \<Longrightarrow> deposits_step E C c (n, buf, s) (n, buf, u)"
  by (cases s) (auto simp: scheduled_def intro: deposits_step.schedule split: prod.splits)

lemma deposits_loop_cases:
  assumes "scheduled E s = (choice, u)"
  shows "deposits_loop E C c 0 buf s = (Ok (), s)"
    and "choice = None \<or> dh_threads (snd s) = [] \<Longrightarrow>
      deposits_loop E C c (Suc m) (Some e # bs) s = (Fail e, u)"
    and "choice = None \<or> dh_threads (snd s) = [] \<Longrightarrow>
      deposits_loop E C c (Suc m) (None # bs) s = deposits_loop E C c m bs u"
    and "dh_threads (snd s) = [] \<Longrightarrow>
      deposits_loop E C c (Suc m) [] s = (Panic ''all goroutines are asleep - deadlock!'', u)"
    and "dh_threads (snd s) \<noteq> [] \<Longrightarrow> choice \<noteq> None \<or> buf = [] \<Longrightarrow>
      deposits_loop E C c (Suc m) buf s =
        bind_go (thread_step E C c (pick choice (length (dh_threads (snd s)))) buf)
          (deposits_loop E C c (Suc m)) u"
  using assms
  by (auto simp: scheduled_def deposits_loop.simps [of E C c] bind_go_def split: prod.splits)

lemma thread_step_not_Fail: "thread_step E C c i buf s \<noteq> (Fail e, t)"
proof -
  show ?thesis
    by (auto simp: thread_step_def Let_def bind_go_Fail_iff or_deliver_not_Fail split: dep_pc.split)
qed

text \<open>Every run of the loop is a path of the relation; where it ends tells its result.\<close>

definition loop_path ::
    "'w eth_api \<Rightarrow> 'w crypto_api \<Rightarrow> nat \<Rightarrow> nat \<times> string option list \<times> 'w dstate \<Rightarrow> unit outcome \<Rightarrow> 'w dstate \<Rightarrow> bool" where
  "loop_path E C c from r t \<longleftrightarrow> (case r of
     Ok _ \<Rightarrow> \<exists>buf. (deposits_step E C c)\<^sup>*\<^sup>* from (0, buf, t)
   | Fail e \<Rightarrow> \<exists>n buf. (deposits_step E C c)\<^sup>*\<^sup>* from (Suc n, Some e # buf, t)
   | Panic p \<Rightarrow> (\<exists>n u. (deposits_step E C c)\<^sup>*\<^sup>* from (Suc n, [], u) \<and> dh_threads (snd u) = [])
       \<or> (\<exists>i b u. fst (thread_step E C c i b u) = Panic p))"

lemma loop_path_prepend:
  assumes "deposits_step E C c a b" and "loop_path E C c b r t"
  shows "loop_path E C c a r t"
proof -
  have trans: "(deposits_step E C c)\<^sup>*\<^sup>* a z" if "(deposits_step E C c)\<^sup>*\<^sup>* b z" for z
    using assms(1) that by (rule converse_rtranclp_into_rtranclp)
  from assms(2) show ?thesis
    unfolding loop_path_def by (cases r) (simp_all, (blast intro: trans)+)
qed

lemma deposits_loop_path:
  "deposits_loop E C c n buf s = (r, t) \<Longrightarrow> loop_path E C c (n, buf, s) r t"
proof (induction "n + threads_left (dh_threads (snd s))" arbitrary: n buf s rule: less_induct)
  case less
  obtain choice u where sch: "scheduled E s = (choice, u)" by (cases "scheduled E s")
  note eqs = deposits_loop_cases [OF sch, where C = C and c = c]
  note start = scheduled_step [OF sch, where C = C and c = c and n = n and buf = buf]
  have u: "dh_threads (snd u) = dh_threads (snd s)" using scheduled_threads [OF sch] by simp
  consider (finished) "n = 0"
    | (recv) m b bs where "n = Suc m" "buf = b # bs" "choice = None \<or> dh_threads (snd s) = []"
    | (dead) m where "n = Suc m" "buf = []" "dh_threads (snd s) = []"
    | (run) m where "n = Suc m" "dh_threads (snd s) \<noteq> []" "choice \<noteq> None \<or> buf = []"
    by (cases n; cases buf; cases "dh_threads (snd s)"; cases choice) auto
  then show ?case
  proof cases
    case finished
    with eqs(1) less.prems show ?thesis by (auto simp: loop_path_def)
  next
    case recv
    show ?thesis
    proof (cases b)
      case (Some e)
      with recv eqs(2) less.prems have "r = Fail e" "t = u" by auto
      then have "loop_path E C c (n, buf, u) r t" using recv Some by (auto simp: loop_path_def)
      with start show ?thesis by (rule loop_path_prepend)
    next
      case None
      then have "deposits_step E C c (n, buf, u) (m, bs, u)"
        using recv by (simp add: deposits_step.receive)
      moreover have "loop_path E C c (m, bs, u) r t"
        using less recv None eqs(3) u by simp
      ultimately show ?thesis using start by (blast intro: loop_path_prepend)
    qed
  next
    case dead
    with eqs(4) less.prems have "r = Panic ''all goroutines are asleep - deadlock!''" by auto
    moreover have "(deposits_step E C c)\<^sup>*\<^sup>* (n, buf, u) (Suc m, [], u) \<and> dh_threads (snd u) = []"
      using dead u by simp
    ultimately have "loop_path E C c (n, buf, u) r t"
      by (simp only: loop_path_def outcome.case) blast
    with start show ?thesis by (rule loop_path_prepend)
  next
    case run
    let ?i = "pick choice (length (dh_threads (snd s)))"
    have i: "?i < length (dh_threads (snd u))" using run u by (simp add: pick_less)
    have prems: "bind_go (thread_step E C c ?i buf) (deposits_loop E C c n) u = (r, t)"
      using less.prems run eqs(5) by auto
    obtain q v where step: "thread_step E C c ?i buf u = (q, v)" by (cases "thread_step E C c ?i buf u")
    show ?thesis
    proof (cases q)
      case (Ok buf')
      have "deposits_step E C c (n, buf, u) (n, buf', v)"
        using i step Ok by (auto intro: deposits_step.goroutine)
      moreover have "loop_path E C c (n, buf', v) r t"
        using prems step Ok thread_step_left [OF step [unfolded Ok] i] u less.hyps by (simp add: bind_go_def)
      ultimately show ?thesis using start by (blast intro: loop_path_prepend)
    next
      case (Fail e)
      with step thread_step_not_Fail show ?thesis by blast
    next
      case (Panic p)
      with step prems have "r = Panic p" by (simp add: bind_go_def)
      moreover have "fst (thread_step E C c ?i buf u) = Panic p" using step Panic by simp
      ultimately show ?thesis by (simp only: loop_path_def outcome.case) blast
    qed
  qed
qed

section \<open>Invariants of the interleavings\<close>

lemma list_at:
  assumes "i < length xs"
  shows "\<exists>pre post. xs = pre @ xs ! i # post \<and> (\<forall>x. xs[i := x] = pre @ x # post)
    \<and> remove_nth i xs = pre @ post"
proof (intro exI conjI allI)
  show "xs = take i xs @ xs ! i # drop (Suc i) xs" using assms by (rule id_take_nth_drop)
  show "xs[i := x] = take i xs @ x # drop (Suc i) xs" for x
    using assms by (rule upd_conv_take_nth_drop)
  show "remove_nth i xs = take i xs @ drop (Suc i) xs" by (simp add: remove_nth_def)
qed

text \<open>The step of one goroutine, with the goroutines before and after it in the list.\<close>

lemma thread_step_cases:
  assumes "thread_step E C c i buf s = (Ok buf', t)" and "i < length (dh_threads (snd s))"
  obtains (deliver) pre th post r where "dh_threads (snd s) = pre @ th # post" and "th_pc th = DoDeliver r"
      and "buf' = (if th_chan th = c then buf @ [r] else buf)" and "t = set_threads (pre @ post) s"
    | (move) pre th post pc' u where "dh_threads (snd s) = pre @ th # post" and "\<not> delivering (th_pc th)"
      and "pc_step E C (th_acct th) (th_pc th) s = (Ok pc', u)" and "buf' = buf"
      and "dh_chans (snd u) = dh_chans (snd s)" and "t = set_threads (pre @ th\<lparr>th_pc := pc'\<rparr> # post) u"
proof -
  obtain pre post where at: "dh_threads (snd s) = pre @ dh_threads (snd s) ! i # post"
    and upd: "\<forall>x. (dh_threads (snd s))[i := x] = pre @ x # post"
    and rem: "remove_nth i (dh_threads (snd s)) = pre @ post"
    using list_at [OF assms(2)] by blast
  show thesis
    using thread_step_Ok [OF assms(1)] unfolding upd [rule_format] rem
    using at deliver move by blast
qed

text \<open>Results to come and results in the channel make up what the caller still has to receive.\<close>

definition chan_inv :: "nat \<Rightarrow> nat \<times> string option list \<times> 'w dstate \<Rightarrow> bool" where
  "chan_inv c st \<longleftrightarrow> (case st of (n, buf, s) \<Rightarrow>
     length (filter (\<lambda>th. th_chan th = c) (dh_threads (snd s))) + length buf = n)"

interpretation chan: invariant_system "deposits_step E C c" "chan_inv c" for E C c
proof unfold_locales
  fix x y :: "nat \<times> string option list \<times> 'a dstate"
  assume "deposits_step E C c x y" and "chan_inv c x"
  then show "chan_inv c y"
  proof (induction rule: deposits_step.induct)
    case (goroutine i s buf buf' t n)
    from goroutine(2,1) goroutine(3) show ?case
      by (cases rule: thread_step_cases) (auto simp: chan_inv_def)
  qed (auto simp: chan_inv_def)
qed

text \<open>What a step of a goroutine requests, and what it does to the nonce.\<close>

definition sends :: "call list \<Rightarrow> bytes list" where
  "sends cs = concat (map (\<lambda>c. case c of SendRawTransaction raw \<Rightarrow> [raw] | _ \<Rightarrow> []) cs)"

lemma sends_append [simp]: "sends (xs @ ys) = sends xs @ sends ys"
  by (simp add: sends_def)

lemma sends_one [simp]:
  "sends [] = []" "sends [SendRawTransaction raw] = [raw]" "sends [GetTransactionReceipt h] = []"
  "sends [DepositCall pk] = []" "sends [TxnDo i] = []" "sends [TxnWait i] = []"
  by (simp_all add: sends_def)

lemma on_world_call:
  assumes "on_world (ext_call cl f) s = (r, u)"
  shows "trace (fst u) = trace (fst s) @ [cl]" and "snd u = snd s"
  using assms by (auto simp: on_world_def on_part_Ok_iff dest: ext_call_trace)

lemma prepare_effect:
  assumes "prepareTransaction E txn s = (r, u)" and "tx_Nonce txn = 0"
  shows "fst u = fst s" and "dh_nonce (snd u) = dh_nonce (snd s) + 1"
    and "\<And>raw. r = Ok raw \<Longrightarrow> \<exists>txn' key signed. tx_Nonce txn' = dh_nonce (snd s) + 1
        \<and> eth_SignTx E 1337 txn' key = Ok signed \<and> eth_MarshalRLP E signed = Ok raw"
proof -
  let ?n = "dh_nonce (snd s) + 1"
  let ?txn = "(with_gas txn)\<lparr>tx_Nonce := ?n\<rparr>"
  have "tx_Nonce (with_gas txn) = 0" using assms(2) by (simp add: with_gas_def Let_def)
  then have run: "(r, u) = (bind_out (eth_SignTx E 1337 ?txn (dh_key (snd s))) (eth_MarshalRLP E),
      (fst s, (snd s)\<lparr>dh_nonce := ?n\<rparr>))"
    using assms(1)
    by (cases "eth_SignTx E 1337 ?txn (dh_key (snd s))")
       (auto simp: prepareTransaction_def Let_def getNextNonce_def bind_go_def split: prod.splits)
  then show "fst u = fst s" and "dh_nonce (snd u) = ?n" by simp_all
  show "\<exists>txn' key signed. tx_Nonce txn' = ?n
      \<and> eth_SignTx E 1337 txn' key = Ok signed \<and> eth_MarshalRLP E signed = Ok raw"
    if "r = Ok raw" for raw
  proof -
    have "bind_out (eth_SignTx E 1337 ?txn (dh_key (snd s))) (eth_MarshalRLP E) = Ok raw"
      using run that by simp
    then show ?thesis
      by (intro exI [of _ ?txn] exI [of _ "dh_key (snd s)"]) (simp add: bind_out_Ok_iff)
  qed
qed

lemma fund_txn_nonce: "tx_Nonce (fund_txn E a) = 0"
  by (simp add: fund_txn_def empty_txn_def)

fun in_flight :: "dep_pc \<Rightarrow> bytes list" where
  "in_flight (DoSend raw) = [raw]"
| "in_flight _ = []"

lemma pc_step_fund:
  assumes "pc_step E C a DoFund s = (Ok pc', u)"
  shows "fst u = fst s" and "dh_nonce (snd u) = dh_nonce (snd s) + 1" and "pc' \<noteq> DoFund"
    and "\<And>raw. raw \<in> set (in_flight pc') \<Longrightarrow> \<exists>txn' key signed. tx_Nonce txn' = dh_nonce (snd s) + 1
        \<and> eth_SignTx E 1337 txn' key = Ok signed \<and> eth_MarshalRLP E signed = Ok raw"
proof -
  let ?txn = "fund_txn E (wallet_Address C (Ecdsa a))"
  obtain r where prep: "prepareTransaction E ?txn s = (r, u)"
    and res: "(\<exists>raw. r = Ok raw \<and> pc' = DoSend raw) \<or> (\<exists>e. r = Fail e \<and> pc' = DoDeliver (Some e))"
    using assms by (auto dest!: or_deliver_OkD simp: bind_go_Fail_iff)
  note eff = prepare_effect [OF prep fund_txn_nonce]
  show "fst u = fst s" and "dh_nonce (snd u) = dh_nonce (snd s) + 1" by (rule eff)+
  show "pc' \<noteq> DoFund" using res by auto
  show "\<exists>txn' key signed. tx_Nonce txn' = dh_nonce (snd s) + 1
      \<and> eth_SignTx E 1337 txn' key = Ok signed \<and> eth_MarshalRLP E signed = Ok raw"
    if "raw \<in> set (in_flight pc')" for raw
    using res that eff(3) [of raw] by auto
qed

text \<open>The other steps each make one request.\<close>

lemma sendRaw_effect:
  "sendRaw E raw s = (r, u) \<Longrightarrow>
     trace (fst u) = trace (fst s) @ [SendRawTransaction raw] \<and> snd u = snd s"
  by (auto simp: sendRaw_def dest: on_world_call)

lemma pollReceipt_effect:
  assumes "pollReceipt E h s = (r, u)"
  shows "trace (fst u) = trace (fst s) @ [GetTransactionReceipt h] \<and> snd u = snd s"
proof -
  let ?call = "on_world (ext_call (GetTransactionReceipt h) (\<lambda>x.
     case eth_GetTransactionReceipt E (dh_client (snd s)) h x of (re, y) \<Rightarrow> (Ok re, y)))"
  obtain q v where call: "?call s = (q, v)" by (cases "?call s")
  with assms have "u = v"
    by (auto simp: pollReceipt_def bind_go_def split: outcome.splits option.splits if_splits prod.splits)
  with on_world_call [OF call] show ?thesis by simp
qed

lemma buildDeposit_effect:
  assumes "buildDeposit E a s = (r, u)"
  shows "(\<exists>data. dep_Input E (Bls a) (of_nat (eth_Gwei E (dep_MinGweiAmount E))) = Ok data
        \<and> trace (fst u) = trace (fst s) @ [DepositCall (dd_Pubkey data)] \<and> snd u = snd s)
    \<or> (\<forall>n. r \<noteq> Ok n) \<and> u = s"
  using assms
  by (auto simp: buildDeposit_def bind_go_def dest: on_world_call split: outcome.splits)

lemma doDeposit_effect:
  "doDeposit E n s = (r, u) \<Longrightarrow> trace (fst u) = trace (fst s) @ [TxnDo n] \<and> snd u = snd s"
  by (auto simp: doDeposit_def dest: on_world_call)

lemma finishDeposit_effect:
  assumes "finishDeposit E n s = (r, u)"
  shows "trace (fst u) = trace (fst s) @ [TxnWait n] \<and> snd u = snd s"
proof -
  let ?call = "on_world (ext_call (TxnWait n) (dep_Wait E n))"
  obtain q v where call: "?call s = (q, v)" by (cases "?call s")
  with assms have "u = v"
    by (auto simp: finishDeposit_def bind_go_def split: outcome.splits if_splits prod.splits)
  with on_world_call [OF call] show ?thesis by simp
qed

lemmas step_effects = sendRaw_effect pollReceipt_effect buildDeposit_effect doDeposit_effect
  finishDeposit_effect

lemma pc_step_other:
  assumes "pc_step E C a pc s = (Ok pc', u)" and "pc \<noteq> DoFund" and "\<not> delivering pc"
  shows "snd u = snd s" and "pc' \<noteq> DoFund" and "in_flight pc' = []"
    and "\<exists>cs. trace (fst u) = trace (fst s) @ cs \<and> sends cs = in_flight pc"
proof -
  have "snd u = snd s \<and> pc' \<noteq> DoFund \<and> in_flight pc' = []
      \<and> (\<exists>cs. trace (fst u) = trace (fst s) @ cs \<and> sends cs = in_flight pc)"
  proof (cases pc)
    case (DoSend raw)
    with assms(1) obtain r where "sendRaw E raw s = (r, u)"
      and "(\<exists>h. pc' = DoPoll h 0) \<or> (\<exists>e. pc' = DoDeliver (Some e))"
      by (auto dest!: or_deliver_OkD simp: bind_go_Fail_iff)
    with DoSend show ?thesis by (auto dest!: sendRaw_effect)
  next
    case (DoPoll h n)
    with assms(1) obtain r where "pollReceipt E h s = (r, u)"
      and "pc' = DoDeposit \<or> (\<exists>m. pc' = DoPoll h m) \<or> (\<exists>e. pc' = DoDeliver (Some e))"
      by (auto dest!: or_deliver_OkD simp: bind_go_Fail_iff split: option.splits if_splits)
    with DoPoll show ?thesis by (auto dest!: pollReceipt_effect)
  next
    case DoDeposit
    with assms(1) obtain r where "buildDeposit E a s = (r, u)"
      and "(\<exists>n. pc' = DoTxn n) \<or> (\<exists>e. pc' = DoDeliver (Some e))"
      by (auto dest!: or_deliver_OkD simp: bind_go_Fail_iff)
    with DoDeposit show ?thesis
      by (auto dest!: buildDeposit_effect)
  next
    case (DoTxn n)
    with assms(1) obtain r where "doDeposit E n s = (r, u)"
      and "(\<exists>n. pc' = DoWait n) \<or> (\<exists>e. pc' = DoDeliver e)"
      by (auto dest!: or_deliver_OkD simp: bind_go_Fail_iff)
    with DoTxn show ?thesis by (auto dest!: doDeposit_effect)
  next
    case (DoWait n)
    with assms(1) obtain r where "finishDeposit E n s = (r, u)" and "\<exists>e. pc' = DoDeliver e"
      by (auto dest!: or_deliver_OkD simp: bind_go_Fail_iff)
    with DoWait show ?thesis by (auto dest!: finishDeposit_effect)
  qed (use assms in auto)
  then show "snd u = snd s" and "pc' \<noteq> DoFund" and "in_flight pc' = []"
    and "\<exists>cs. trace (fst u) = trace (fst s) @ cs \<and> sends cs = in_flight pc" by blast+
qed

text \<open>
  The nonces of the transactions sent or about to be sent are distinct and below the next one.  The
  counter starts at -1, so the next nonce is one more than the counter; it does not wrap as long as
  the goroutines that have yet to draw one leave room.
\<close>

definition next_nonce :: "'w dstate \<Rightarrow> nat" where
  "next_nonce s = unat (dh_nonce (snd s) + 1)"

definition issued :: "'w dstate \<Rightarrow> bytes list" where
  "issued s = sends (trace (fst s)) @ concat (map (in_flight \<circ> th_pc) (dh_threads (snd s)))"

definition funding :: "'w dstate \<Rightarrow> nat" where
  "funding s = length (filter (\<lambda>th. th_pc th = DoFund) (dh_threads (snd s)))"

definition nonces_ok :: "(bytes \<Rightarrow> uint64) \<Rightarrow> 'w dstate \<Rightarrow> bool" where
  "nonces_ok nonce_of s \<longleftrightarrow> distinct (map nonce_of (issued s))
     \<and> (\<forall>raw \<in> set (issued s). unat (nonce_of raw) < next_nonce s)
     \<and> next_nonce s + funding s < 2 ^ 64"

text \<open>What \<open>nonce_of\<close> must satisfy: it reads the nonce from an encoded signed transaction.\<close>

definition reads_nonce :: "'w eth_api \<Rightarrow> (bytes \<Rightarrow> uint64) \<Rightarrow> bool" where
  "reads_nonce E nonce_of \<longleftrightarrow> (\<forall>txn key signed raw. eth_SignTx E 1337 txn key = Ok signed \<longrightarrow>
     eth_MarshalRLP E signed = Ok raw \<longrightarrow> nonce_of raw = tx_Nonce txn)"

lemma next_nonce_Suc:
  assumes "dh_nonce (snd u) = dh_nonce (snd s) + 1" and "next_nonce s + 1 < 2 ^ 64"
  shows "next_nonce u = Suc (next_nonce s)"
proof -
  have "unat (x + 1) = Suc (unat x)" if "unat x + 1 < 2 ^ 64" for x :: "64 word"
    using that by (simp add: unat_word_ariths)
  from this [of "dh_nonce (snd s) + 1"] assms show ?thesis by (simp add: next_nonce_def)
qed

lemma nonces_ok_transfer:
  assumes ok: "nonces_ok nonce_of s" and issued: "mset (issued t) = mset (issued s @ new)"
    and new: "distinct (map nonce_of new)"
      "\<forall>raw \<in> set new. next_nonce s \<le> unat (nonce_of raw) \<and> unat (nonce_of raw) < next_nonce t"
    and bound: "next_nonce s \<le> next_nonce t" "next_nonce t + funding t < 2 ^ 64"
  shows "nonces_ok nonce_of t"
proof -
  have "nonce_of raw \<notin> nonce_of ` set new" if "raw \<in> set (issued s)" for raw
  proof
    assume "nonce_of raw \<in> nonce_of ` set new"
    then have "next_nonce s \<le> unat (nonce_of raw)" using new(2) by auto
    moreover have "unat (nonce_of raw) < next_nonce s" using ok that by (auto simp: nonces_ok_def)
    ultimately show False by simp
  qed
  then have "distinct (map nonce_of (issued s @ new))"
    using ok new(1) by (auto simp: nonces_ok_def)
  moreover have "mset (map nonce_of (issued t)) = mset (map nonce_of (issued s @ new))"
    using issued by (simp add: image_mset_union)
  ultimately have "distinct (map nonce_of (issued t))" by (metis mset_eq_imp_distinct_iff)
  moreover have "set (issued t) = set (issued s) \<union> set new"
    using issued by (metis set_append set_mset_mset)
  ultimately show ?thesis using ok new(2) bound by (fastforce simp: nonces_ok_def)
qed

lemma issued_at:
  "dh_threads (snd s) = pre @ th # post \<Longrightarrow>
     mset (issued s) = mset (sends (trace (fst s))) + mset (concat (map (in_flight \<circ> th_pc) (pre @ post)))
       + mset (in_flight (th_pc th))"
  "issued (set_threads ts s) = sends (trace (fst s)) @ concat (map (in_flight \<circ> th_pc) ts)"
  by (simp_all add: issued_def)

lemma nonces_ok_step:
  assumes codec: "reads_nonce E nonce_of" and step: "thread_step E C c i buf s = (Ok buf', t)"
    and i: "i < length (dh_threads (snd s))" and ok: "nonces_ok nonce_of s"
  shows "nonces_ok nonce_of t"
  using step i
proof (cases rule: thread_step_cases)
  case (deliver pre th post r)
  with ok show ?thesis
    by (simp add: nonces_ok_def issued_def next_nonce_def funding_def)
next
  case (move pre th post pc' u)
  show ?thesis
  proof (cases "th_pc th = DoFund")
    case True
    note eff = pc_step_fund [OF move(3) [unfolded True]]
    have room: "next_nonce s + 1 < 2 ^ 64"
      using ok True move(1) by (simp add: nonces_ok_def funding_def)
    with eff(2) have nx: "next_nonce t = Suc (next_nonce s)"
      using next_nonce_Suc [of u s] move(6) by (simp add: next_nonce_def)
    have new: "unat (nonce_of raw) = next_nonce s" if "raw \<in> set (in_flight pc')" for raw
      using eff(4) [OF that] codec by (auto simp: reads_nonce_def next_nonce_def)
    have "distinct (map nonce_of (in_flight pc'))" by (cases pc') auto
    moreover have "mset (issued t) = mset (issued s @ in_flight pc')"
      using True move(6) eff(1) issued_at(1) [OF move(1)] by (simp add: issued_at(2))
    moreover have "next_nonce t + funding t < 2 ^ 64"
      using ok True move(1,6) eff(3) nx by (simp add: nonces_ok_def funding_def)
    ultimately show ?thesis
      using ok nx new by (intro nonces_ok_transfer [of nonce_of s t "in_flight pc'"]) simp_all
  next
    case False
    note eff = pc_step_other [OF move(3) False move(2)]
    from eff(4) obtain cs where cs: "trace (fst u) = trace (fst s) @ cs" "sends cs = in_flight (th_pc th)"
      by blast
    then have "mset (issued t) = mset (issued s @ [])"
      using eff(3) move(6) issued_at(1) [OF move(1)] by (simp add: issued_at(2))
    moreover have "next_nonce t = next_nonce s" using eff(1) move(6) by (simp add: next_nonce_def)
    moreover have "funding t = funding s" using eff(2) move(1,6) False by (simp add: funding_def)
    moreover have "next_nonce s + funding s < 2 ^ 64" using ok by (simp add: nonces_ok_def)
    ultimately show ?thesis
      using ok by (intro nonces_ok_transfer [of nonce_of s t "[]"]) simp_all
  qed
qed

definition nonces_inv :: "'w eth_api \<Rightarrow> (bytes \<Rightarrow> uint64) \<Rightarrow> nat \<times> string option list \<times> 'w dstate \<Rightarrow> bool" where
  "nonces_inv E nonce_of st \<longleftrightarrow> reads_nonce E nonce_of \<and> nonces_ok nonce_of (snd (snd st))"

interpretation nonces: invariant_system "deposits_step E C c" "nonces_inv E nonce_of" for E C c nonce_of
proof unfold_locales
  fix x y :: "nat \<times> string option list \<times> 'a dstate"
  assume "deposits_step E C c x y" and "nonces_inv E nonce_of x"
  then show "nonces_inv E nonce_of y"
  proof (induction rule: deposits_step.induct)
    case (goroutine i s buf buf' t n)
    then show ?case by (auto simp: nonces_inv_def intro: nonces_ok_step)
  next
    case (schedule n buf w h x)
    then show ?case
      by (simp add: nonces_inv_def nonces_ok_def issued_def next_nonce_def funding_def)
  qed (simp add: nonces_inv_def)
qed

text \<open>
  What a goroutine has done when it is at a point of its code, and what one that reports success has
  done: built the deposit of its account, sent the transaction and waited for it.
\<close>

definition deposit_built :: "'w eth_api \<Rightarrow> account \<Rightarrow> call list \<Rightarrow> bool" where
  "deposit_built E a cs \<longleftrightarrow> (\<exists>data. dep_Input E (Bls a) (of_nat (eth_Gwei E (dep_MinGweiAmount E))) = Ok data
     \<and> DepositCall (dd_Pubkey data) \<in> set cs)"

definition deposited :: "'w eth_api \<Rightarrow> account \<Rightarrow> call list \<Rightarrow> bool" where
  "deposited E a cs \<longleftrightarrow> deposit_built E a cs \<and> (\<exists>n. TxnDo n \<in> set cs \<and> TxnWait n \<in> set cs)"

fun progress :: "'w eth_api \<Rightarrow> account \<Rightarrow> call list \<Rightarrow> dep_pc \<Rightarrow> bool" where
  "progress E a cs (DoTxn n) = deposit_built E a cs"
| "progress E a cs (DoWait n) = (deposit_built E a cs \<and> TxnDo n \<in> set cs)"
| "progress E a cs (DoDeliver None) = deposited E a cs"
| "progress E a cs _ = True"

lemma deposited_mono: "deposited E a cs \<Longrightarrow> deposited E a (cs @ ds)"
  by (auto simp: deposited_def deposit_built_def)

lemma progress_mono: "progress E a cs pc \<Longrightarrow> progress E a (cs @ ds) pc"
  by (cases "(E, a, cs, pc)" rule: progress.cases) (auto simp: deposited_def deposit_built_def)

lemma pc_step_progress:
  assumes "pc_step E C a pc s = (Ok pc', u)" and "\<not> delivering pc" and "progress E a (trace (fst s)) pc"
  shows "progress E a (trace (fst u)) pc'" and "\<exists>cs. trace (fst u) = trace (fst s) @ cs"
proof -
  show "progress E a (trace (fst u)) pc'"
  proof (cases pc)
    case DoFund
    with assms(1) show ?thesis by (auto dest!: or_deliver_OkD)
  next
    case (DoSend raw)
    with assms(1) show ?thesis by (auto dest!: or_deliver_OkD)
  next
    case (DoPoll h n)
    with assms(1) show ?thesis by (auto dest!: or_deliver_OkD split: option.splits if_splits)
  next
    case DoDeposit
    with assms(1) show ?thesis
      by (auto dest!: or_deliver_OkD buildDeposit_effect simp: deposit_built_def)
  next
    case (DoTxn n)
    with assms(1,3) show ?thesis
      by (auto dest!: or_deliver_OkD doDeposit_effect simp: deposit_built_def)
  next
    case (DoWait n)
    with assms(1,3) show ?thesis
      by (auto dest!: or_deliver_OkD finishDeposit_effect simp: deposit_built_def deposited_def) blast
  qed (use assms(2) in auto)
  show "\<exists>cs. trace (fst u) = trace (fst s) @ cs"
    using pc_step_fund(1) [of E C a s pc' u] pc_step_other(4) [OF assms(1) _ assms(2)] assms(1)
    by (cases "pc = DoFund") auto
qed

text \<open>
  The state of a handler between calls: the goroutines left over belong to earlier calls.
\<close>

definition handler_ok :: "'w eth_api \<Rightarrow> 'w dstate \<Rightarrow> bool" where
  "handler_ok E s \<longleftrightarrow> (\<forall>th \<in> set (dh_threads (snd s)).
     th_chan th < dh_chans (snd s) \<and> progress E (th_acct th) (trace (fst s)) (th_pc th))"

definition accounts_inv ::
    "'w eth_api \<Rightarrow> account set \<Rightarrow> nat \<Rightarrow> nat \<times> string option list \<times> 'w dstate \<Rightarrow> bool" where
  "accounts_inv E A c st \<longleftrightarrow> (case st of (n, buf, s) \<Rightarrow> handler_ok E s \<and>
     (\<forall>a \<in> A. (\<exists>th \<in> set (dh_threads (snd s)). th_chan th = c \<and> th_acct th = a)
        \<or> (\<exists>e. Some e \<in> set buf) \<or> deposited E a (trace (fst s))))"

lemma accounts_inv_step:
  assumes inv: "accounts_inv E A c (n, buf, s)" and step: "thread_step E C c i buf s = (Ok buf', t)"
    and i: "i < length (dh_threads (snd s))"
  shows "accounts_inv E A c (n, buf', t)"
  using step i
proof (cases rule: thread_step_cases)
  case (deliver pre th post r)
  from inv deliver have th: "progress E (th_acct th) (trace (fst s)) (DoDeliver r)"
    by (auto simp: accounts_inv_def handler_ok_def)
  have "handler_ok E t" using inv deliver by (auto simp: accounts_inv_def handler_ok_def)
  moreover have "(\<exists>th \<in> set (dh_threads (snd t)). th_chan th = c \<and> th_acct th = a)
        \<or> (\<exists>e. Some e \<in> set buf') \<or> deposited E a (trace (fst t))" if "a \<in> A" for a
  proof (cases "th_chan th = c \<and> th_acct th = a")
    case True
    with th deliver show ?thesis by (cases r) auto
  next
    case False
    from inv that consider th' where "th' \<in> set (dh_threads (snd s))" "th_chan th' = c" "th_acct th' = a"
      | e where "Some e \<in> set buf" | "deposited E a (trace (fst s))"
      by (auto simp: accounts_inv_def)
    then show ?thesis
    proof cases
      case 1
      with False have "th' \<noteq> th" by blast
      with 1 deliver show ?thesis by auto
    qed (use deliver in auto)
  qed
  ultimately show ?thesis by (simp add: accounts_inv_def)
next
  case (move pre th post pc' u)
  from inv move(1) have th: "progress E (th_acct th) (trace (fst s)) (th_pc th)"
    by (auto simp: accounts_inv_def handler_ok_def)
  note step = pc_step_progress [OF move(3,2) th]
  from step(2) obtain cs where cs: "trace (fst u) = trace (fst s) @ cs" by blast
  have "handler_ok E t"
    using inv move step(1) cs by (auto simp: accounts_inv_def handler_ok_def intro: progress_mono)
  moreover have "(\<exists>th \<in> set (dh_threads (snd t)). th_chan th = c \<and> th_acct th = a)
        \<or> (\<exists>e. Some e \<in> set buf') \<or> deposited E a (trace (fst t))" if "a \<in> A" for a
  proof -
    from inv that consider th' where "th' \<in> set (dh_threads (snd s))" "th_chan th' = c" "th_acct th' = a"
      | e where "Some e \<in> set buf" | "deposited E a (trace (fst s))"
      by (auto simp: accounts_inv_def)
    then show ?thesis
    proof cases
      case 1
      then show ?thesis using move(1,6) by (cases "th' = th") auto
    qed (use move(4,6) cs in \<open>auto intro: deposited_mono\<close>)
  qed
  ultimately show ?thesis by (simp add: accounts_inv_def)
qed

interpretation accounts: invariant_system "deposits_step E C c" "accounts_inv E A c" for E C c A
proof unfold_locales
  fix x y :: "nat \<times> string option list \<times> 'a dstate"
  assume "deposits_step E C c x y" and "accounts_inv E A c x"
  then show "accounts_inv E A c y"
  proof (induction rule: deposits_step.induct)
    case (goroutine i s buf buf' t n)
    show ?case by (rule accounts_inv_step [OF goroutine(3,2,1)])
  qed (simp_all add: accounts_inv_def handler_ok_def)
qed

text \<open>An error is always one that a step of a goroutine of the call has produced.\<close>

definition step_fails :: "'w eth_api \<Rightarrow> 'w crypto_api \<Rightarrow> account \<Rightarrow> string \<Rightarrow> bool" where
  "step_fails E C a e \<longleftrightarrow> (\<exists>pc u v. \<not> delivering pc \<and> pc_step E C a pc u = (Ok (DoDeliver (Some e)), v))"

definition errors_inv ::
    "'w eth_api \<Rightarrow> 'w crypto_api \<Rightarrow> account set \<Rightarrow> nat \<Rightarrow> nat \<times> string option list \<times> 'w dstate \<Rightarrow> bool" where
  "errors_inv E C A c st \<longleftrightarrow> (case st of (n, buf, s) \<Rightarrow>
     (\<forall>e. Some e \<in> set buf \<longrightarrow> (\<exists>a \<in> A. step_fails E C a e))
   \<and> (\<forall>th \<in> set (dh_threads (snd s)). th_chan th = c \<longrightarrow> th_acct th \<in> A
        \<and> (\<forall>e. th_pc th = DoDeliver (Some e) \<longrightarrow> (\<exists>a \<in> A. step_fails E C a e))))"

interpretation errors: invariant_system "deposits_step E C c" "errors_inv E C A c" for E C c A
proof unfold_locales
  fix x y :: "nat \<times> string option list \<times> 'a dstate"
  assume "deposits_step E C c x y" and "errors_inv E C A c x"
  then show "errors_inv E C A c y"
  proof (induction rule: deposits_step.induct)
    case (goroutine i s buf buf' t n)
    from goroutine(2,1) show ?case
    proof (cases rule: thread_step_cases)
      case (deliver pre th post r)
      with goroutine(3) show ?thesis by (auto simp: errors_inv_def)
    next
      case (move pre th post pc' u)
      have "step_fails E C (th_acct th) e" if "pc' = DoDeliver (Some e)" for e
        using move(2,3) that unfolding step_fails_def by blast
      with move goroutine(3) show ?thesis by (auto simp: errors_inv_def)
    qed
  qed (auto simp: errors_inv_def)
qed

section \<open>One account\<close>

text \<open>
  \<open>indifferent f m\<close>: the operation \<open>m\<close> does not look at what the change \<open>f\<close> of the state touches.
\<close>

definition indifferent :: "('s \<Rightarrow> 's) \<Rightarrow> ('s, 'a) go \<Rightarrow> bool" where
  "indifferent f m \<longleftrightarrow> (\<forall>s. m (f s) = (fst (m s), f (snd (m s))))"

lemma indifferent_pure:
  "indifferent f (ret x)" "indifferent f (fail e)" "indifferent f (lift_out r)" "indifferent f (Pair r)"
  "(\<And>s. g (f s) = g s) \<Longrightarrow> indifferent f (gets g)"
  by (simp_all add: indifferent_def)

lemma indifferent_bind:
  "indifferent f m \<Longrightarrow> (\<And>x. indifferent f (k x)) \<Longrightarrow> indifferent f (bind_go m k)"
  by (auto simp: indifferent_def bind_go_def split: outcome.split prod.split)

lemma indifferent_attempt: "indifferent f m \<Longrightarrow> indifferent f (attempt m)"
  by (auto simp: indifferent_def attempt_def split: outcome.split prod.split)

lemma indifferent_case:
  "(\<And>e. indifferent f (g e)) \<Longrightarrow> (\<And>x. indifferent f (h x)) \<Longrightarrow>
     indifferent f (case r of Inl e \<Rightarrow> g e | Inr x \<Rightarrow> h x)"
  "indifferent f m \<Longrightarrow> (\<And>x. indifferent f (k x)) \<Longrightarrow>
     indifferent f (case q of None \<Rightarrow> m | Some x \<Rightarrow> k x)"
  "(\<And>a b. indifferent f (l a b)) \<Longrightarrow> indifferent f (case p of (a, b) \<Rightarrow> l a b)"
  "indifferent f m \<Longrightarrow> indifferent f n \<Longrightarrow> indifferent f (if c then m else n)"
  by (simp_all split: sum.split option.split prod.split)

definition regroup :: "thread list \<Rightarrow> nat \<Rightarrow> 'w dstate \<Rightarrow> 'w dstate" where
  "regroup ts k s = (fst s, (snd s)\<lparr>dh_threads := ts, dh_chans := k\<rparr>)"

lemma regroup_simps [simp]:
  "fst (regroup ts k s) = fst s" "dh_threads (snd (regroup ts k s)) = ts"
  "dh_chans (snd (regroup ts k s)) = k" "regroup ts k (regroup us l s) = regroup ts k s"
  "set_threads us (regroup ts k s) = regroup us k s"
  by (simp_all add: regroup_def set_threads_def)

lemma indifferent_world: "indifferent (regroup ts k) (on_world m)"
  by (simp add: indifferent_def on_world_def on_part_def regroup_def split: prod.split)

lemma indifferent_nonce: "indifferent (regroup ts k) getNextNonce"
  by (simp add: indifferent_def getNextNonce_def regroup_def split: prod.split)

lemmas indifferent_rules = indifferent_pure indifferent_bind indifferent_attempt indifferent_case
  indifferent_world indifferent_nonce

lemma indifferent_steps:
  "indifferent (regroup ts k) (prepareTransaction E txn)" "indifferent (regroup ts k) (sendRaw E raw)"
  "indifferent (regroup ts k) (pollReceipt E hash)" "indifferent (regroup ts k) (buildDeposit E a)"
  "indifferent (regroup ts k) (doDeposit E n)" "indifferent (regroup ts k) (finishDeposit E n)"
proof -
  show "indifferent (regroup ts k) (buildDeposit E a)"
    by (auto simp: indifferent_def buildDeposit_def bind_go_def on_world_def on_part_def regroup_def
        split: outcome.split prod.split)
qed (unfold prepareTransaction_def sendRaw_def pollReceipt_def doDeposit_def finishDeposit_def Let_def,
  (intro indifferent_rules; simp add: regroup_def)+)

lemma indifferent_or_deliver: "indifferent f m \<Longrightarrow> indifferent f (or_deliver m)"
  unfolding or_deliver_def by (intro indifferent_rules)

lemma indifferent_pc_step: "indifferent (regroup ts k) (pc_step E C a pc)"
  by (cases pc; simp only: pc_step.simps;
      intro indifferent_or_deliver indifferent_rules indifferent_steps)

lemma run_pc_other_parts: "within other_parts (run_pc E C a pc)"
proof (induction "pc_left pc" arbitrary: pc rule: less_induct)
  case less
  show ?case
  proof (rule withinI)
    fix s
    obtain q u where step: "pc_step E C a pc s = (q, u)" by (cases "pc_step E C a pc s")
    then have su: "other_parts s u" by (rule withinD [OF pc_step_other_parts])
    have "other_parts u (snd (run_pc E C a pc' u))" if "q = Ok pc'" "\<not> delivering pc" for pc'
      using less.hyps [OF pc_step_left [OF step [unfolded that(1)] that(2)]] unfolding within_def by blast
    with su step show "other_parts s (snd (run_pc E C a pc s))"
      by (cases q) (auto simp: run_pc.simps [of E C a pc] intro: other_parts.rel_refl other_parts.rel_trans
          split: dep_pc.split option.split)
  qed
qed

lemma single_loop:
  assumes idle: "\<And>n x. snd (eth_sched E n x) = x"
    and run: "run_pc E C a pc s = (r, t)" and np: "\<And>p. r \<noteq> Panic p"
  shows "deposits_loop E C c (Suc 0) [] (regroup [\<lparr>th_chan = c, th_acct = a, th_pc = pc\<rparr>] k s)
    = (r, regroup [] k t)"
  using run
proof (induction "pc_left pc" arbitrary: pc s rule: less_induct)
  case less
  let ?th = "\<lparr>th_chan = c, th_acct = a, th_pc = pc\<rparr>"
  have sched: "\<exists>choice. scheduled E v = (choice, v)" for v
    using idle [of "length (dh_threads (snd v))" "ext (fst v)"]
    by (auto simp: scheduled_def split: prod.split)
  obtain ch where ch: "scheduled E (regroup [?th] k s) = (ch, regroup [?th] k s)"
    using sched by blast
  have "pick ch 1 = 0" by (simp add: pick_def split: option.split)
  then have loop: "deposits_loop E C c (Suc 0) [] (regroup [?th] k s) =
      bind_go (thread_step E C c 0 []) (deposits_loop E C c (Suc 0)) (regroup [?th] k s)"
    using deposits_loop_cases(5) [OF ch, of "[]" C c 0] by simp
  show ?case
  proof (cases "delivering pc")
    case True
    then obtain res where pc: "pc = DoDeliver res" by (cases pc) auto
    obtain ch' where ch': "scheduled E (regroup [] k s) = (ch', regroup [] k s)" using sched by blast
    have "thread_step E C c 0 [] (regroup [?th] k s) = (Ok [res], regroup [] k s)"
      by (simp add: thread_step_def pc remove_nth_def)
    then have "deposits_loop E C c (Suc 0) [] (regroup [?th] k s)
        = deposits_loop E C c (Suc 0) [res] (regroup [] k s)"
      unfolding loop by (simp add: bind_go_def)
    with less.prems pc show ?thesis
      using deposits_loop_cases(1,2,3) [OF ch', where C = C and c = c]
      by (cases res) auto
  next
    case False
    obtain q u where step: "pc_step E C a pc s = (q, u)" by (cases "pc_step E C a pc s")
    have "thread_step E C c 0 [] (regroup [?th] k s) =
        bind_go (pc_step E C a pc) (\<lambda>pc'.
        bind_go (modify (\<lambda>t. set_threads ((dh_threads (snd t))[0 := ?th\<lparr>th_pc := pc'\<rparr>]) t)) (\<lambda>_.
        ret [])) (regroup [?th] k s)"
      using False by (cases pc) (simp_all add: thread_step_def del: pc_step.simps)
    moreover have "pc_step E C a pc (regroup [?th] k s) = (q, regroup [?th] k u)"
      using indifferent_pc_step [of "[?th]" k E C a pc] step
      unfolding indifferent_def by (metis fst_conv snd_conv)
    ultimately have th: "thread_step E C c 0 [] (regroup [?th] k s) =
        (case q of Ok pc' \<Rightarrow> (Ok [], regroup [?th\<lparr>th_pc := pc'\<rparr>] k u)
         | Fail e \<Rightarrow> (Fail e, regroup [?th] k u) | Panic p \<Rightarrow> (Panic p, regroup [?th] k u))"
      by (simp add: bind_go_def split: outcome.split)
    have prem: "(r, t) = bind_go (pc_step E C a pc) (run_pc E C a) s"
      using less.prems False by (simp add: run_pc_step)
    show ?thesis
    proof (cases q)
      case (Ok pc')
      have "pc_left pc' < pc_left pc" using step False unfolding Ok by (rule pc_step_left)
      moreover have "run_pc E C a pc' u = (r, t)" using prem step Ok by (simp add: bind_go_def)
      ultimately show ?thesis
        unfolding loop using less.hyps th Ok by (simp add: bind_go_def)
    next
      case (Fail e)
      have "pc_step E C a pc s \<noteq> (Fail e, u)" by (cases pc) (simp_all add: or_deliver_not_Fail)
      with step Fail show ?thesis by simp
    next
      case (Panic p)
      with prem step np show ?thesis by (simp add: bind_go_def)
    qed
  qed
qed

section \<open>Properties\<close>

text \<open>A new call: its goroutines are all its own, and none has done anything.\<close>

lemma start_chan_inv:
  assumes "handler_ok E s"
  shows "chan_inv (dh_chans (snd s)) (length accounts, [], start_deposits accounts s)"
proof -
  have "filter (\<lambda>th. th_chan th = dh_chans (snd s)) (dh_threads (snd s)) = []"
    using assms by (auto simp: handler_ok_def filter_empty_conv)
  then show ?thesis by (simp add: chan_inv_def start_deposits_def new_threads_def o_def)
qed

lemma start_accounts_inv:
  "handler_ok E s \<Longrightarrow>
     accounts_inv E (set accounts) (dh_chans (snd s)) (n, [], start_deposits accounts s)"
  by (force simp: accounts_inv_def handler_ok_def start_deposits_def new_threads_def)

lemma start_errors_inv:
  "handler_ok E s \<Longrightarrow>
     errors_inv E C (set accounts) (dh_chans (snd s)) (n, [], start_deposits accounts s)"
  by (force simp: errors_inv_def handler_ok_def start_deposits_def new_threads_def)

lemma concat_map_Nil: "concat (map (\<lambda>_. []) xs) = []"
  by (induction xs) auto

lemma start_nonces_inv:
  assumes "reads_nonce E nonce_of" and "nonces_ok nonce_of s"
    and "next_nonce s + funding s + length accounts < 2 ^ 64"
  shows "nonces_inv E nonce_of (n, [], start_deposits accounts s)"
  using assms
  by (simp add: nonces_inv_def nonces_ok_def issued_def next_nonce_def funding_def start_deposits_def
      new_threads_def o_def concat_map_Nil)

lemma left_decreases:
  "(deposits_step E C c)\<^sup>*\<^sup>* (n, buf, s) (n', buf', t) \<Longrightarrow> n' \<le> n"
proof (induction "(n', buf', t)" arbitrary: n' buf' t rule: rtranclp_induct)
  case (step y)
  obtain m b u where y: "y = (m, b, u)" by (cases y)
  with step have "m \<le> n" by simp
  moreover from step(2) y have "n' \<le> m" by (auto elim: deposits_stepE)
  ultimately show ?case by simp
qed simp

text \<open>
  A send never blocks: the channel of a call has room for one result per account
  (\<open>make(chan error, len(accounts))\<close>), and as long as a goroutine of the call still has a result to
  send, the channel holds fewer than that.
\<close>

lemma send_has_room:
  assumes "handler_ok E s"
    and "(deposits_step E C (dh_chans (snd s)))\<^sup>*\<^sup>* (length accounts, [], start_deposits accounts s) (n, buf, t)"
    and "th \<in> set (dh_threads (snd t))" and "th_chan th = dh_chans (snd s)"
  shows "length buf < length accounts"
proof -
  have "chan_inv (dh_chans (snd s)) (n, buf, t)"
    using assms(2) start_chan_inv [OF assms(1)] by (rule chan.reach_inv)
  moreover have "filter (\<lambda>th. th_chan th = dh_chans (snd s)) (dh_threads (snd t)) \<noteq> []"
    using assms(3,4) by (auto simp: filter_empty_conv)
  ultimately have "length buf < n" by (auto simp: chan_inv_def)
  also have "n \<le> length accounts" using assms(2) by (rule left_decreases)
  finally show ?thesis .
qed

lemma sample_handler_ok: "handler_ok sample_eth sample_dstate"
  by (simp add: handler_ok_def sample_dstate_def sample_handler_def)

lemma MakeDeposits_path:
  "MakeDeposits E C accounts s = (r, t) \<Longrightarrow>
     loop_path E C (dh_chans (snd s)) (length accounts, [], start_deposits accounts s) r t"
  unfolding MakeDeposits_def by (rule deposits_loop_path)

text \<open>
  C4. If MakeDeposits returns nil, then under every schedule of its goroutines each account has
  had its deposit built for its own BLS key and a deposit transaction sent and waited for, and
  no goroutine of the call is still running.
\<close>

theorem MakeDeposits_all_deposited:
  assumes "handler_ok E s" and "MakeDeposits E C accounts s = (Ok (), t)"
  shows "(\<forall>a \<in> set accounts. deposited E a (trace (fst t)))
    \<and> (\<forall>th \<in> set (dh_threads (snd t)). th_chan th \<noteq> dh_chans (snd s)) \<and> handler_ok E t"
proof -
  let ?c = "dh_chans (snd s)"
  from MakeDeposits_path [OF assms(2)] obtain buf where
    path: "(deposits_step E C ?c)\<^sup>*\<^sup>* (length accounts, [], start_deposits accounts s) (0, buf, t)"
    by (auto simp: loop_path_def)
  have "chan_inv ?c (0, buf, t)"
    using path start_chan_inv [OF assms(1)] by (rule chan.reach_inv)
  then have empty: "buf = []" "\<forall>th \<in> set (dh_threads (snd t)). th_chan th \<noteq> ?c"
    by (auto simp: chan_inv_def filter_empty_conv)
  have "accounts_inv E (set accounts) ?c (0, buf, t)"
    using path start_accounts_inv [OF assms(1)] by (rule accounts.reach_inv)
  with empty show ?thesis by (auto simp: accounts_inv_def)
qed

theorem MakeDeposits_all_deposited_witness:
  "\<exists>t. MakeDeposits sample_eth sample_crypto sample_accounts sample_dstate = (Ok (), t)
     \<and> (\<forall>a \<in> set sample_accounts. deposited sample_eth a (trace (fst t)))"
proof -
  obtain r t where run: "MakeDeposits sample_eth sample_crypto sample_accounts sample_dstate = (r, t)"
    by (cases "MakeDeposits sample_eth sample_crypto sample_accounts sample_dstate")
  have "case fst (MakeDeposits sample_eth sample_crypto sample_accounts sample_dstate) of Ok u \<Rightarrow> True | _ \<Rightarrow> False"
    by code_simp
  then have "r = Ok ()" using run by (auto split: outcome.splits)
  with MakeDeposits_all_deposited [OF sample_handler_ok run [unfolded this]] run show ?thesis by blast
qed

text \<open>
  C5. Under every interleaving of the goroutines of MakeDeposits, those of this call and those
  earlier calls left behind, no two transactions the handler sends carry the same nonce, as long
  as the 64-bit counter does not run out.
\<close>

theorem MakeDeposits_distinct_nonces:
  assumes "reads_nonce E nonce_of" and "nonces_ok nonce_of s"
    and "next_nonce s + funding s + length accounts < 2 ^ 64"
    and "MakeDeposits E C accounts s = (r, t)" and "\<And>p. r \<noteq> Panic p"
  shows "nonces_ok nonce_of t \<and> distinct (map nonce_of (sends (trace (fst t))))"
proof -
  note start = start_nonces_inv [OF assms(1-3)]
  from MakeDeposits_path [OF assms(4)] assms(5) obtain n buf where
    "(deposits_step E C (dh_chans (snd s)))\<^sup>*\<^sup>* (length accounts, [], start_deposits accounts s) (n, buf, t)"
    by (cases r) (auto simp: loop_path_def)
  then have "nonces_inv E nonce_of (n, buf, t)" using start by (rule nonces.reach_inv)
  then show ?thesis by (simp add: nonces_inv_def nonces_ok_def issued_def)
qed

theorem MakeDeposits_distinct_nonces_witness:
  "distinct (map (\<lambda>raw. of_nat (atoi raw) :: uint64)
     (sends (trace (fst (snd (MakeDeposits broke_eth sample_crypto sample_accounts sample_dstate))))))"
proof -
  obtain r t where run: "MakeDeposits broke_eth sample_crypto sample_accounts sample_dstate = (r, t)"
    by (cases "MakeDeposits broke_eth sample_crypto sample_accounts sample_dstate")
  have "case fst (MakeDeposits broke_eth sample_crypto sample_accounts sample_dstate) of
      Panic p \<Rightarrow> False | _ \<Rightarrow> True"
    by code_simp
  then have np: "r \<noteq> Panic p" for p using run by (auto split: outcome.splits)
  have codec: "reads_nonce broke_eth (\<lambda>raw. of_nat (atoi raw))"
    by (auto simp: reads_nonce_def broke_eth_def sample_eth_def)
  have start: "nonces_ok (\<lambda>raw. of_nat (atoi raw)) sample_dstate"
      "next_nonce sample_dstate + funding sample_dstate + length sample_accounts < 2 ^ 64"
    by (simp_all add: nonces_ok_def issued_def next_nonce_def funding_def sample_dstate_def
        sample_world_def sample_handler_def sample_accounts_def)
  from MakeDeposits_distinct_nonces [OF codec start run np] run show ?thesis by simp
qed

text \<open>
  C6. MakeDeposits always returns: with libraries that do not panic it ends with nil or with an
  error that a step of one of its own goroutines has produced, never in a deadlock on its
  channel, because every goroutine delivers one result and the channel has room for all; so with
  an execution node that serves every request it returns nil.
\<close>

theorem MakeDeposits_returns:
  assumes "handler_ok E s" and "\<And>a pc u p. fst (pc_step E C a pc u) \<noteq> Panic p"
    and "MakeDeposits E C accounts s = (r, t)"
  shows "r = Ok () \<or> (\<exists>e. r = Fail e \<and> (\<exists>a \<in> set accounts. step_fails E C a e))"
proof (cases r)
  case (Fail e)
  let ?c = "dh_chans (snd s)"
  from MakeDeposits_path [OF assms(3)] Fail obtain n buf where
    path: "(deposits_step E C ?c)\<^sup>*\<^sup>* (length accounts, [], start_deposits accounts s) (Suc n, Some e # buf, t)"
    by (auto simp: loop_path_def)
  have "errors_inv E C (set accounts) ?c (Suc n, Some e # buf, t)"
    using path start_errors_inv [OF assms(1)] by (rule errors.reach_inv)
  with Fail show ?thesis by (simp add: errors_inv_def)
next
  case (Panic p)
  let ?c = "dh_chans (snd s)"
  have "fst (thread_step E C ?c i b u) \<noteq> Panic p" for i b u
  proof
    assume "fst (thread_step E C ?c i b u) = Panic p"
    then obtain v where "thread_step E C ?c i b u = (Panic p, v)" by (metis prod.collapse)
    then show False
      using assms(2) [of "th_acct (dh_threads (snd u) ! i)" "th_pc (dh_threads (snd u) ! i)" u p]
      by (cases "th_pc (dh_threads (snd u) ! i)")
         (auto simp: thread_step_def Let_def bind_go_Panic_iff simp del: pc_step.simps)
  qed
  then obtain n u where
    path: "(deposits_step E C ?c)\<^sup>*\<^sup>* (length accounts, [], start_deposits accounts s) (Suc n, [], u)"
    and none: "dh_threads (snd u) = []"
    using MakeDeposits_path [OF assms(3)] Panic by (auto simp: loop_path_def)
  have "chan_inv ?c (Suc n, [], u)"
    using path start_chan_inv [OF assms(1)] by (rule chan.reach_inv)
  with none show ?thesis by (simp add: chan_inv_def)
qed auto

theorem MakeDeposits_returns_witness:
  "\<exists>t. MakeDeposits sample_eth sample_crypto sample_accounts sample_dstate = (Ok (), t)"
proof -
  obtain r t where run: "MakeDeposits sample_eth sample_crypto sample_accounts sample_dstate = (r, t)"
    by (cases "MakeDeposits sample_eth sample_crypto sample_accounts sample_dstate")
  have "\<exists>q v. pc_step sample_eth sample_crypto a pc u = (Ok q, v) \<and> (delivering pc \<or> (\<forall>e. q \<noteq> DoDeliver (Some e)))"
    for a pc u
    by (cases pc; cases u)
       (auto simp: or_deliver_def attempt_def bind_go_def prepareTransaction_def getNextNonce_def sendRaw_def
         pollReceipt_def buildDeposit_def doDeposit_def finishDeposit_def on_world_def on_part_def
         ext_call_def sample_eth_def Let_def split: bls_key.splits if_splits)
  note steps = this
  have "fst (pc_step sample_eth sample_crypto a pc u) \<noteq> Panic p" for a pc u p
    using steps [of a pc u] by auto
  moreover have "\<not> step_fails sample_eth sample_crypto a e" for a e
    using steps unfolding step_fails_def by (metis Pair_inject outcome.inject(1))
  ultimately show ?thesis
    using MakeDeposits_returns [OF sample_handler_ok _ run] run by blast
qed

text \<open>
  C23. When MakeDeposits returns an error it may leave goroutines of the call running, fewer
  than there are accounts, and the handler stays well formed for the next call.
\<close>

theorem MakeDeposits_error:
  assumes "handler_ok E s" and "MakeDeposits E C accounts s = (Fail e, t)"
  shows "handler_ok E t
    \<and> length (filter (\<lambda>th. th_chan th = dh_chans (snd s)) (dh_threads (snd t))) < length accounts"
proof -
  let ?c = "dh_chans (snd s)"
  from MakeDeposits_path [OF assms(2)] obtain n buf where
    path: "(deposits_step E C ?c)\<^sup>*\<^sup>* (length accounts, [], start_deposits accounts s) (Suc n, Some e # buf, t)"
    by (auto simp: loop_path_def)
  have "chan_inv ?c (Suc n, Some e # buf, t)"
    using path start_chan_inv [OF assms(1)] by (rule chan.reach_inv)
  moreover have "Suc n \<le> length accounts"
    using path by (rule left_decreases)
  moreover have "accounts_inv E (set accounts) ?c (Suc n, Some e # buf, t)"
    using path start_accounts_inv [OF assms(1)] by (rule accounts.reach_inv)
  ultimately show ?thesis by (auto simp: chan_inv_def accounts_inv_def)
qed

theorem MakeDeposits_error_witness:
  "\<exists>t. MakeDeposits broke_eth sample_crypto sample_accounts sample_dstate = (Fail ''insufficient funds'', t)
     \<and> length (filter (\<lambda>th. th_chan th = 0) (dh_threads (snd t))) = 1
     \<and> length (filter (\<lambda>th. th_chan th = 0) (dh_threads (snd t))) < length sample_accounts"
proof -
  obtain r t where run: "MakeDeposits broke_eth sample_crypto sample_accounts sample_dstate = (r, t)"
    by (cases "MakeDeposits broke_eth sample_crypto sample_accounts sample_dstate")
  have "fst (MakeDeposits broke_eth sample_crypto sample_accounts sample_dstate) = Fail ''insufficient funds''"
    by code_simp
  then have r: "r = Fail ''insufficient funds''" using run by simp
  have "length (filter (\<lambda>th. th_chan th = 0)
      (dh_threads (snd (snd (MakeDeposits broke_eth sample_crypto sample_accounts sample_dstate))))) = 1"
    by code_simp
  moreover have "handler_ok broke_eth sample_dstate" "dh_chans (snd sample_dstate) = 0"
    by (simp_all add: handler_ok_def sample_dstate_def sample_handler_def)
  ultimately show ?thesis
    using MakeDeposits_error [OF _ run [unfolded r]] run r by auto
qed

text \<open>
  C22. For one account, when no goroutine of an earlier call is left over, the scheduler itself
  changes nothing outside and the call of MakeDeposit does not panic, MakeDeposits has the
  result and the effects of that plain call of MakeDeposit and uses up one channel.
\<close>

theorem MakeDeposits_single:
  assumes "\<And>n x. snd (eth_sched E n x) = x" and "dh_threads (snd s) = []"
    and "MakeDeposit E C a s = (r, t)" and "\<And>p. r \<noteq> Panic p"
  shows "MakeDeposits E C [a] s = (r, (fst t, (snd t)\<lparr>dh_chans := Suc (dh_chans (snd s))\<rparr>))"
proof -
  have run: "run_pc E C a DoFund s = (r, t)" using assms(3) by (simp only: run_pc_MakeDeposit)
  have start: "start_deposits [a] s = regroup [\<lparr>th_chan = dh_chans (snd s), th_acct = a, th_pc = DoFund\<rparr>]
      (Suc (dh_chans (snd s))) s"
    using assms(2) by (simp add: start_deposits_def regroup_def new_threads_def)
  have "dh_threads (snd t) = []"
    using withinD [OF run_pc_other_parts run] assms(2) by (simp add: other_parts_def)
  then show ?thesis
    using single_loop [OF assms(1) run assms(4)]
    by (simp add: MakeDeposits_def start regroup_def)
qed

theorem MakeDeposits_single_witness:
  "\<exists>r t. MakeDeposit sample_eth sample_crypto (hd sample_accounts) sample_dstate = (r, t) \<and> r = Ok ()
     \<and> MakeDeposits sample_eth sample_crypto [hd sample_accounts] sample_dstate
         = (r, (fst t, (snd t)\<lparr>dh_chans := 1\<rparr>))"
proof -
  obtain r t where run: "MakeDeposit sample_eth sample_crypto (hd sample_accounts) sample_dstate = (r, t)"
    by (cases "MakeDeposit sample_eth sample_crypto (hd sample_accounts) sample_dstate")
  have "case fst (MakeDeposit sample_eth sample_crypto (hd sample_accounts) sample_dstate) of Ok u \<Rightarrow> True | _ \<Rightarrow> False"
    by code_simp
  then have r: "r = Ok ()" using run by (auto split: outcome.splits)
  have "snd (eth_sched sample_eth n x) = x" for n x by (simp add: sample_eth_def)
  moreover have "dh_threads (snd sample_dstate) = []" "dh_chans (snd sample_dstate) = 0"
    by (simp_all add: sample_dstate_def sample_handler_def)
  ultimately show ?thesis
    using MakeDeposits_single [OF _ _ run] run r by simp
qed

lemma polls:
  "waitForReceipt_from E hash k s = (r, t) \<Longrightarrow> \<exists>n. 1 \<le> n \<and> n \<le> 122 - k + (if k > 121 then 1 else 0)
     \<and> trace (fst t) = trace (fst s) @ replicate n (GetTransactionReceipt hash) \<and> snd t = snd s"
proof (induction "122 - k" arbitrary: k s r t rule: less_induct)
  case less
  obtain q u where poll: "pollReceipt E hash s = (q, u)" by (cases "pollReceipt E hash s")
  note eff = pollReceipt_effect [OF poll]
  show ?case
  proof (cases "q = Ok None \<and> k \<le> 120")
    case True
    then have "waitForReceipt_from E hash (Suc k) u = (r, t)"
      using less.prems poll by (simp add: waitForReceipt_from.simps [of E hash k])
    moreover have "122 - Suc k < 122 - k" using True by (intro diff_less_mono2) auto
    ultimately obtain n where "1 \<le> n" "n \<le> 121 - k"
      "trace (fst t) = trace (fst u) @ replicate n (GetTransactionReceipt hash)" "snd t = snd u"
      using less.hyps [of "Suc k" u r t] True by auto
    with eff True show ?thesis by (intro exI [of _ "Suc n"]) (auto split: if_splits)
  next
    case False
    with less.prems poll have "t = u"
      by (auto simp: waitForReceipt_from.simps [of E hash k] split: outcome.splits option.splits if_splits)
    with eff show ?thesis by (intro exI [of _ 1]) auto
  qed
qed

lemma polls_silent:
  assumes silent: "\<And>c h x. fst (eth_GetTransactionReceipt E c h x) \<in> {(None, None), (None, Some ''not found'')}"
  shows "waitForReceipt_from E hash k s = (r, t) \<Longrightarrow> k \<le> 121 \<Longrightarrow> r = Fail ''timeout''
     \<and> length (trace (fst t)) = length (trace (fst s)) + (122 - k)"
proof (induction "122 - k" arbitrary: k s r t rule: less_induct)
  case less
  obtain q u where poll: "pollReceipt E hash s = (q, u)" by (cases "pollReceipt E hash s")
  have q: "q = Ok None"
    using poll silent [of "dh_client (snd s)" hash "ext (fst s)"]
    by (auto simp: pollReceipt_def on_world_def on_part_def ext_call_def bind_go_def split: prod.splits)
  show ?case
  proof (cases "k > 120")
    case True
    with less.prems poll q pollReceipt_effect [OF poll] show ?thesis
      by (auto simp: waitForReceipt_from.simps [of E hash k])
  next
    case False
    with less.prems poll q have "waitForReceipt_from E hash (Suc k) u = (r, t)"
      by (simp add: waitForReceipt_from.simps [of E hash k])
    with less.hyps [of "Suc k" u r t] False pollReceipt_effect [OF poll] show ?thesis by simp
  qed
qed

text \<open>
  C24. waitForReceipt ends, having asked for the receipt at least once and at most 122 times and
  changes nothing else; if the node never has one it asks exactly 122 times and returns the
  timeout error.
\<close>

theorem waitForReceipt_polls:
  assumes "waitForReceipt E hash s = (r, t)"
  shows "(\<exists>n. 1 \<le> n \<and> n \<le> 122 \<and> trace (fst t) = trace (fst s) @ replicate n (GetTransactionReceipt hash)
      \<and> snd t = snd s)
    \<and> ((\<forall>c h x. fst (eth_GetTransactionReceipt E c h x) \<in> {(None, None), (None, Some ''not found'')}) \<longrightarrow>
        r = Fail ''timeout'' \<and> length (trace (fst t)) = length (trace (fst s)) + 122)"
  using polls [of E hash 0 s r t] polls_silent [of E hash 0 s r t] assms
  by (simp add: waitForReceipt_def)

theorem waitForReceipt_polls_witness:
  "fst (waitForReceipt silent_eth ''h'' sample_dstate) = Fail ''timeout''
   \<and> length (trace (fst (snd (waitForReceipt silent_eth ''h'' sample_dstate)))) = 122"
proof -
  obtain r t where run: "waitForReceipt silent_eth ''h'' sample_dstate = (r, t)"
    by (cases "waitForReceipt silent_eth ''h'' sample_dstate")
  have "trace (fst sample_dstate) = []" by (simp add: sample_dstate_def sample_world_def)
  with waitForReceipt_polls [OF run] run show ?thesis by (simp add: silent_eth_def)
qed

text \<open>The transaction that creates the deposit contract, as it is signed, sent and confirmed.\<close>

definition deploys_contract :: "'w eth_api \<Rightarrow> string \<Rightarrow> wallet_key \<Rightarrow> bytes \<Rightarrow> bytes \<Rightarrow> receipt \<Rightarrow> bool" where
  "deploys_contract E addr key raw hash rc \<longleftrightarrow> (\<exists>signed x y x' err y'.
     eth_SignTx E 1337 (empty_txn\<lparr>tx_Input := dep_Bin E, tx_GasPrice := defaultGasPrice, tx_Gas := defaultGasLimit\<rparr>) key
       = Ok signed
   \<and> eth_MarshalRLP E signed = Ok raw \<and> eth_SendRawTransaction E addr raw x = (Ok hash, y)
   \<and> eth_GetTransactionReceipt E addr hash x' = ((Some rc, err), y'))"

lemma prepare_deployment:
  assumes "prepareTransaction E (empty_txn\<lparr>tx_Input := dep_Bin E\<rparr>) (w, h) = (Ok raw, s)" and "dh_nonce h = - 1"
  shows "\<exists>signed. eth_SignTx E 1337 (empty_txn\<lparr>tx_Input := dep_Bin E, tx_GasPrice := defaultGasPrice,
      tx_Gas := defaultGasLimit\<rparr>) (dh_key h) = Ok signed \<and> eth_MarshalRLP E signed = Ok raw"
proof -
  have "with_gas (empty_txn\<lparr>tx_Input := dep_Bin E\<rparr>) = empty_txn\<lparr>tx_Input := dep_Bin E,
      tx_GasPrice := defaultGasPrice, tx_Gas := defaultGasLimit\<rparr>"
    by (simp add: with_gas_def empty_txn_def)
  with assms show ?thesis
    by (auto simp: prepareTransaction_def getNextNonce_def bind_go_def empty_txn_def split: prod.splits outcome.splits)
qed

lemma sendRaw_Ok:
  assumes "sendRaw E raw s = (Ok hash, t)"
  shows "\<exists>x y. eth_SendRawTransaction E (dh_client (snd s)) raw x = (Ok hash, y)"
  using assms by (auto simp: sendRaw_def on_world_def on_part_def ext_call_def bind_go_def split: prod.splits)

lemma waitForReceipt_Ok:
  "waitForReceipt_from E hash k s = (Ok rc, t) \<Longrightarrow>
     \<exists>x err y. eth_GetTransactionReceipt E (dh_client (snd s)) hash x = ((Some rc, err), y)"
proof (induction E hash k s rule: waitForReceipt_from.induct)
  case (1 E hash cnt s)
  obtain q u where poll: "pollReceipt E hash s = (q, u)" by (cases "pollReceipt E hash s")
  show ?case
  proof (cases "q = Ok None")
    case True
    then have "cnt \<le> 120" "waitForReceipt_from E hash (Suc cnt) u = (Ok rc, t)"
      using "1.prems" poll by (auto simp: waitForReceipt_from.simps [of E hash cnt] split: if_splits)
    then show ?thesis
      using "1.IH" [OF poll [symmetric]] True pollReceipt_effect [OF poll] by auto
  next
    case False
    then have "q = Ok (Some rc)"
      using "1.prems" poll
      by (auto simp: waitForReceipt_from.simps [of E hash cnt] split: outcome.splits option.splits)
    then have "\<exists>err y. eth_GetTransactionReceipt E (dh_client (snd s)) hash (ext (fst s)) = ((Some rc, err), y)"
      using poll
      by (auto simp: pollReceipt_def on_world_def on_part_def ext_call_def bind_go_def
          split: prod.splits option.splits if_splits)
    then show ?thesis by blast
  qed
qed

text \<open>
  C25. If the process has sent no transaction before and a raw transaction determines the nonce
  it carries, a new deposit handler has connected to the given address and sent exactly one
  transaction: the deposit contract bytecode as input of an otherwise empty transaction with
  nonce 0, signed with the given key; it has polled for the receipt of that transaction and
  keeps the contract address of the receipt, the address of the endpoint and the key; it has no
  goroutine running, its next nonce is 1, and it satisfies the invariants the other operations
  rely on.
\<close>

theorem newDepositHandler_ready:
  assumes "newDepositHandler E addr key w = (Ok h, v)" and "reads_nonce E nonce_of" and "sends (trace w) = []"
  shows "handler_ok E (v, h) \<and> nonces_ok nonce_of (v, h) \<and> next_nonce (v, h) = 1 \<and> dh_threads h = []
    \<and> dh_client h = addr \<and> dh_key h = key
    \<and> (\<exists>raw hash rc n. deploys_contract E addr key raw hash rc \<and> nonce_of raw = 0 \<and> 0 < n
      \<and> trace v = trace w @ NewClient addr # SendRawTransaction raw # replicate n (GetTransactionReceipt hash)
      \<and> dh_deposit h = rc_ContractAddress rc)"
proof -
  let ?h = "\<lparr>dh_deposit = replicate 20 (CHR 0x00), dh_client = addr, dh_key = key, dh_nonce = - 1,
    dh_threads = [], dh_chans = 0\<rparr>"
  let ?txn = "empty_txn\<lparr>tx_Input := dep_Bin E\<rparr>"
  from assms(1) obtain w1 where client: "ext_call (NewClient addr) (eth_NewClient E addr) w = (Ok (), w1)"
    and "deployDeposit E (w1, ?h) = (Ok (), (v, h))"
    by (auto simp: newDepositHandler_def split: outcome.splits prod.splits)
  then obtain raw hash rc s1 s2 s3 where prep: "prepareTransaction E ?txn (w1, ?h) = (Ok raw, s1)"
    and send: "sendRaw E raw s1 = (Ok hash, s2)"
    and wait: "waitForReceipt E hash s2 = (Ok rc, s3)"
    and fin: "(v, h) = (fst s3, (snd s3)\<lparr>dh_deposit := rc_ContractAddress rc\<rparr>)"
    by (auto simp: deployDeposit_def sendTransaction_def split: prod.splits)
  have "tx_Nonce ?txn = 0" by (simp add: empty_txn_def)
  note eff = prepare_effect [OF prep this]
  have raw: "nonce_of raw = 0"
    using eff(3) [OF refl] assms(2) by (auto simp: reads_nonce_def)
  from polls [of E hash 0 s2 "Ok rc" s3] wait obtain n where n: "0 < n" and
    "trace (fst s3) = trace (fst s2) @ replicate n (GetTransactionReceipt hash)" "snd s3 = snd s2"
    by (auto simp: waitForReceipt_def)
  with sendRaw_effect [OF send] eff(1) ext_call_trace [OF client] fin
  have tr: "trace v = trace w @ NewClient addr # SendRawTransaction raw # replicate n (GetTransactionReceipt hash)"
    and "snd s3 = snd s1" by auto
  moreover have "other_parts (w1, ?h) s1"
    using other_parts_steps(1) prep by (rule withinD)
  ultimately have h: "dh_threads h = []" "dh_nonce h = 0" "dh_client h = addr" "dh_key h = key"
    and client1: "dh_client (snd s1) = addr" and address: "dh_deposit h = rc_ContractAddress rc"
    using fin eff(2) by (simp_all add: other_parts_def)
  have client2: "dh_client (snd s2) = addr" using sendRaw_effect [OF send] client1 by simp
  have "deploys_contract E addr key raw hash rc"
    using prepare_deployment [OF prep] sendRaw_Ok [OF send] waitForReceipt_Ok [OF wait [unfolded waitForReceipt_def]]
    unfolding deploys_contract_def client1 client2 by fastforce
  note made = this address n
  have "sends (trace v) = [raw]"
    using assms(3) unfolding tr by (simp add: sends_def)
  with h raw have "nonces_ok nonce_of (v, h)"
    by (simp add: nonces_ok_def issued_def next_nonce_def funding_def)
  with h tr raw made show ?thesis by (auto simp: handler_ok_def next_nonce_def)
qed

theorem newDepositHandler_ready_witness:
  "\<exists>h v. newDepositHandler sample_eth ''addr'' (WalletKey 0) sample_world = (Ok h, v)
     \<and> handler_ok sample_eth (v, h) \<and> next_nonce (v, h) = 1 \<and> dh_deposit h = ''contract''"
proof -
  obtain r v where run: "newDepositHandler sample_eth ''addr'' (WalletKey 0) sample_world = (r, v)"
    by (cases "newDepositHandler sample_eth ''addr'' (WalletKey 0) sample_world")
  have "case fst (newDepositHandler sample_eth ''addr'' (WalletKey 0) sample_world) of Ok u \<Rightarrow> True | _ \<Rightarrow> False"
    by code_simp
  then obtain h where r: "r = Ok h" using run by (auto split: outcome.splits)
  have "reads_nonce sample_eth (\<lambda>raw. of_nat (atoi raw))"
    by (auto simp: reads_nonce_def sample_eth_def)
  moreover have "sends (trace sample_world) = []" by (simp add: sample_world_def)
  moreover have "rc_ContractAddress rc = ''contract''" if "deploys_contract sample_eth addr key raw hash rc" for addr key raw hash rc
    using that by (auto simp: deploys_contract_def sample_eth_def)
  ultimately show ?thesis
    using newDepositHandler_ready [OF run [unfolded r]] run r by metis
qed

theorem GetDepositCount_little_endian:
  assumes "le_uint32 b = r"
  shows "if length b < 4 then r = Panic ''runtime error: index out of range''
    else \<exists>v. r = Ok v \<and> unat v = of_char (b ! 0) + 2 ^ 8 * of_char (b ! 1) + 2 ^ 16 * of_char (b ! 2)
        + 2 ^ 24 * (of_char (b ! 3) :: nat)"
proof (cases "length b < 4")
  case True
  with assms show ?thesis by (simp add: le_uint32_def)
next
  case False
  define c where "c i = (of_char (b ! i) :: nat)" for i
  have c: "c i < 256" for i unfolding c_def by (rule nat_of_char_less_256)
  have byte: "uint (of_char x :: 8 word) = int (of_char x)" for x
  proof -
    have "(of_char x :: 8 word) = of_nat (of_char x)" by (rule of_nat_of_char [symmetric])
    then show ?thesis using nat_of_char_less_256 [of x] by (simp add: uint_nat unat_of_nat)
  qed
  have "b \<noteq> []" using False by auto
  then have "take 4 b = [b ! 0, b ! 1, b ! 2, b ! 3]"
    using False by (simp add: numeral_eq_Suc take_Suc_conv_app_nth)
  then have "r = Ok (word_of_int (int (c 0) + 256 * (int (c 1) + 256 * (int (c 2) + 256 * int (c 3)))))"
    using assms False by (simp add: le_uint32_def word_rcat_def byte c_def)
  also have "int (c 0) + 256 * (int (c 1) + 256 * (int (c 2) + 256 * int (c 3)))
      = int (c 0 + 2 ^ 8 * c 1 + 2 ^ 16 * c 2 + 2 ^ 24 * c 3)"
    by simp
  finally have "r = Ok (of_nat (c 0 + 2 ^ 8 * c 1 + 2 ^ 16 * c 2 + 2 ^ 24 * c 3))"
    by (simp only: of_int_of_nat_eq)
  moreover have "c 0 + 2 ^ 8 * c 1 + 2 ^ 16 * c 2 + 2 ^ 24 * c 3 < 2 ^ 32"
    using c [of 0] c [of 1] c [of 2] c [of 3] by simp
  moreover have "unat (of_nat n :: 32 word) = n" if "n < 2 ^ 32" for n
    using that by (simp add: unat_of_nat)
  ultimately have "\<exists>v. r = Ok v \<and> unat v = c 0 + 2 ^ 8 * c 1 + 2 ^ 16 * c 2 + 2 ^ 24 * c 3"
    by (intro exI conjI)
  then show ?thesis unfolding c_def by (simp only: False if_False)
qed

theorem GetDepositCount_little_endian_witness:
  "\<exists>v. le_uint32 [CHR 0x03, CHR 0x01, CHR 0x00, CHR 0x00] = Ok v \<and> unat v = 259"
  using GetDepositCount_little_endian [of "[CHR 0x03, CHR 0x01, CHR 0x00, CHR 0x00]", OF refl] by simp

end
