(* ===== verification/NodeSpec.thy ===== *)
theory NodeSpec
  imports Proto
begin

text \<open>
  Package \<open>internal/spec\<close>: the description of a container and its builder.  The builder's methods
  mutate the receiver and return it, so a chain of calls is the composition of state transformers;
  \<open>chain\<close> applies them in the order they are written.  Go maps with string keys are association lists
  with distinct keys (\<open>AList.update\<close> overwrites in place).  The retry closure of a spec is one of three
  closures the program builds; it is represented by its constructor (and the port it captured), and
  its code is modelled in theory Docker.
\<close>

datatype retry =
    RetryBootnodeV5
  | RetryBootnodeV4
  | RetryHttp string

record spec =
  Repository :: string
  Tag :: string
  Cmd :: "string list"
  Retry :: "retry option"
  Name :: string
  Mount :: "string list"
  Files :: "(string \<times> bytes) list"
  Output :: "os_file list"
  Labels :: "(string \<times> string) list"
  User :: string
  Entrypoint :: "string list"

definition empty_spec :: spec where
  "empty_spec = \<lparr>Repository = [], Tag = [], Cmd = [], Retry = None, Name = [], Mount = [],
     Files = [], Output = [], Labels = [], User = [], Entrypoint = []\<rparr>"

text \<open>Reading a Go map of strings: a missing key reads as the empty string.\<close>

definition map_get :: "(string \<times> string) list \<Rightarrow> string \<Rightarrow> string" where
  "map_get m k = (case map_of m k of Some v \<Rightarrow> v | None \<Rightarrow> [])"

definition HasLabel :: "string \<Rightarrow> string \<Rightarrow> spec \<Rightarrow> bool" where
  "HasLabel k v s \<longleftrightarrow> map_get (Labels s) k = v"

definition WithContainer :: "string \<Rightarrow> spec \<Rightarrow> spec" where
  "WithContainer repository s = s\<lparr>Repository := repository\<rparr>"

definition WithTag :: "string \<Rightarrow> spec \<Rightarrow> spec" where
  "WithTag tag s = s\<lparr>Tag := tag\<rparr>"

definition WithCmd :: "string list \<Rightarrow> spec \<Rightarrow> spec" where
  "WithCmd cmd s = s\<lparr>Cmd := Cmd s @ cmd\<rparr>"

definition WithName :: "string \<Rightarrow> spec \<Rightarrow> spec" where
  "WithName name s = s\<lparr>Name := name\<rparr>"

definition WithRetry :: "retry \<Rightarrow> spec \<Rightarrow> spec" where
  "WithRetry r s = s\<lparr>Retry := Some r\<rparr>"

definition WithEntrypoint :: "string list \<Rightarrow> spec \<Rightarrow> spec" where
  "WithEntrypoint e s = s\<lparr>Entrypoint := e\<rparr>"

definition WithMount :: "string \<Rightarrow> spec \<Rightarrow> spec" where
  "WithMount mount s = s\<lparr>Mount := Mount s @ [mount]\<rparr>"

definition WithOutput :: "os_file \<Rightarrow> spec \<Rightarrow> spec" where
  "WithOutput output s = s\<lparr>Output := Output s @ [output]\<rparr>"

definition WithLabel :: "string \<Rightarrow> string \<Rightarrow> spec \<Rightarrow> spec" where
  "WithLabel k v s = s\<lparr>Labels := AList.update k v (Labels s)\<rparr>"

text \<open>The range over the argument map, in whatever order Go enumerates it.\<close>

definition WithLabels :: "(string \<times> string) list \<Rightarrow> spec \<Rightarrow> spec" where
  "WithLabels m s = foldl (\<lambda>t (k, v). WithLabel k v t) s m"

definition WithUser :: "string \<Rightarrow> spec \<Rightarrow> spec" where
  "WithUser user s = s\<lparr>User := user\<rparr>"

text \<open>
  The dynamic type switch of \<open>WithFile\<close>.  A marshaller's result is data or an error; the error case
  panics.
\<close>

datatype file_obj =
    ObjString string
  | ObjBytes bytes
  | ObjText "bytes outcome"
  | ObjJson "bytes outcome"

fun file_data :: "file_obj \<Rightarrow> bytes outcome" where
  "file_data (ObjString s) = Ok s"
| "file_data (ObjBytes b) = Ok b"
| "file_data (ObjText r) = r"
| "file_data (ObjJson r) = r"

definition put_file :: "string \<Rightarrow> bytes \<Rightarrow> spec \<Rightarrow> spec" where
  "put_file path data s = s\<lparr>Files := AList.update path data (Files s)\<rparr>"

definition WithFile :: "string \<Rightarrow> file_obj \<Rightarrow> spec \<Rightarrow> spec outcome" where
  "WithFile path obj s =
     (case file_data obj of
        Ok data \<Rightarrow> Ok (put_file path data s)
      | Fail e \<Rightarrow> Panic e
      | Panic p \<Rightarrow> Panic p)"

definition chain :: "spec \<Rightarrow> (spec \<Rightarrow> spec) list \<Rightarrow> spec" where
  "chain s gs = foldl (\<lambda>t g. g t) s gs"

lemmas with_defs = WithContainer_def WithTag_def WithCmd_def WithName_def WithRetry_def
  WithEntrypoint_def WithMount_def WithOutput_def WithLabel_def WithUser_def put_file_def

text \<open>A string or a byte slice never fails: those calls of \<open>WithFile\<close> are \<open>put_file\<close>.\<close>

lemma WithFile_string [simp]:
  "WithFile p (ObjString d) s = Ok (put_file p d s)"
  "WithFile p (ObjBytes d) s = Ok (put_file p d s)"
  by (simp_all add: WithFile_def)

lemma chain_simps [simp]:
  "chain s [] = s"
  "chain s (g # gs) = chain (g s) gs"
  by (simp_all add: chain_def)

lemma map_get_update [simp]:
  "map_get (AList.update k v m) k' = (if k' = k then v else map_get m k')"
  by (simp add: map_get_def update_conv')

lemma map_get_Nil [simp]: "map_get [] k = []"
  by (simp add: map_get_def)

lemma HasLabel_WithLabel [simp]:
  "HasLabel k v (WithLabel k' v' s) \<longleftrightarrow> (if k = k' then v' = v else HasLabel k v s)"
  by (auto simp: HasLabel_def WithLabel_def)

lemma distinct_labels_with:
  "distinct (map fst (Labels s)) \<Longrightarrow> distinct (map fst (Labels (WithLabel k v s)))"
  by (simp add: WithLabel_def distinct_update)

end
