(* ===== verification/Bootnode.thy ===== *)
theory Bootnode
  imports NodeSpec
begin

text \<open>
  bootnode.go: the two discovery bootnodes.  Each builds a spec whose retry closure reads the node's
  logs until it finds the node's address; the closure's result is what the program stores in
  \<open>Bootnode.Enr\<close> or \<open>BootnodeV4.Enode\<close>.  The argument of a closure is the result of \<open>node.GetLogs()\<close>.
\<close>

definition enr_marker :: string where
  "enr_marker = [dquote] @ ''Running bootnode: enr:''"

text \<open>
  \<open>bootnodeRegexp.FindStringSubmatch\<close>: the leftmost occurrence of the marker that has a closing quote
  later on its line; the group runs to the last such quote, since \<open>.*\<close> is greedy and stops at a line
  break.
\<close>

definition greedy_group :: "string \<Rightarrow> string option" where
  "greedy_group rest =
     (let line = takeWhile (\<lambda>c. c \<noteq> newline) rest
      in if dquote \<in> set line
         then Some (rev (tl (dropWhile (\<lambda>c. c \<noteq> dquote) (rev line))))
         else None)"

fun find_enr :: "string \<Rightarrow> string option" where
  "find_enr [] = None"
| "find_enr (c # cs) =
     (if has_prefix (c # cs) enr_marker
      then (case greedy_group (drop (length enr_marker) (c # cs)) of
              Some g \<Rightarrow> Some g
            | None \<Rightarrow> find_enr cs)
      else find_enr cs)"

definition decodeEnr :: "string outcome \<Rightarrow> string outcome" where
  "decodeEnr logs =
     (case logs of
        Ok l \<Rightarrow> (case find_enr l of
                   None \<Rightarrow> Fail ''not found''
                 | Some enr \<Rightarrow> Ok (''enr:'' @ enr))
      | Fail e \<Rightarrow> Fail e
      | Panic p \<Rightarrow> Panic p)"

definition port_action :: "string \<Rightarrow> string" where
  "port_action p = ''{{ Port '' @ [dquote] @ p @ [dquote] @ '' }}''"

definition bootnode_v5_cmd :: "string list" where
  "bootnode_v5_cmd = [''--debug'', ''--external-ip'', ''127.0.0.1'', ''--discv5-port'',
     port_action NodePortBootnode]"

definition NewBootnodeV5 :: spec where
  "NewBootnodeV5 = chain empty_spec
     [WithName ''v5-bootnode'',
      WithCmd bootnode_v5_cmd,
      WithContainer ''gcr.io/prysmaticlabs/prysm/bootnode'',
      WithRetry RetryBootnodeV5]"

definition bootnode_v4_cmd :: "string list" where
  "bootnode_v4_cmd = [''bootnode'', ''--genkey'', ''boot.key'', [CHR 0x26, CHR 0x26], ''bootnode'',
     ''--nodekey'', ''boot.key'', ''--addr'', '':'' @ port_action NodePortBootnode,
     ''--verbosity'', ''9'']"

definition NewBootnodeV4 :: spec where
  "NewBootnodeV4 = chain empty_spec
     [WithName ''v4-bootnode'',
      WithContainer ''ethereum/client-go'',
      WithTag ''alltools-release-1.10'',
      WithEntrypoint [''/bin/sh'', ''-c''],
      WithCmd [join_strings '' '' bootnode_v4_cmd],
      WithRetry RetryBootnodeV4]"

text \<open>The retry closure of the v4 bootnode: the first line of the logs.\<close>

definition bootnodeV4_retry :: "string outcome \<Rightarrow> string outcome" where
  "bootnodeV4_retry logs =
     (case logs of
        Ok l \<Rightarrow> (case split_on newline l of
                   [] \<Rightarrow> Fail ''not ready''
                 | line # lines \<Rightarrow> Ok line)
      | Fail e \<Rightarrow> Fail e
      | Panic p \<Rightarrow> Panic p)"

lemma greedy_group_Some:
  assumes "greedy_group rest = Some g"
  shows "newline \<notin> set g" and "\<exists>tail. rest = g @ [dquote] @ tail"
proof -
  let ?line = "takeWhile (\<lambda>c. c \<noteq> newline) rest"
  from assms have q: "dquote \<in> set (rev ?line)"
    and g: "g = rev (tl (dropWhile (\<lambda>c. c \<noteq> dquote) (rev ?line)))"
    by (auto simp: greedy_group_def Let_def split: if_splits)
  from q obtain pre post where split: "rev ?line = pre @ dquote # post" "dquote \<notin> set pre"
    by (meson split_list_first)
  then have "dropWhile (\<lambda>c. c \<noteq> dquote) (rev ?line) = dquote # post"
    by (simp, subst dropWhile_append2) auto
  with g have g': "g = rev post" by simp
  from split have line: "?line = rev post @ [dquote] @ rev pre"
    by (metis append.assoc append_Cons append_Nil rev.simps(2) rev_append rev_rev_ident)
  then show "newline \<notin> set g"
    unfolding g' by (metis (mono_tags, lifting) UnCI set_append set_takeWhileD)
  have "rest = ?line @ dropWhile (\<lambda>c. c \<noteq> newline) rest" by simp
  then show "\<exists>tail. rest = g @ [dquote] @ tail"
    unfolding g' using line by (metis append.assoc)
qed

text \<open>What the pattern finds really occurs in the logs, between the marker and a quote.\<close>

lemma find_enr_sound:
  "find_enr l = Some g \<Longrightarrow>
     newline \<notin> set g \<and> (\<exists>pre post. l = pre @ enr_marker @ g @ [dquote] @ post)"
proof (induction l)
  case (Cons c cs)
  show ?case
  proof (cases "has_prefix (c # cs) enr_marker \<and>
      greedy_group (drop (length enr_marker) (c # cs)) = Some g")
    case True
    then obtain tail where "drop (length enr_marker) (c # cs) = g @ [dquote] @ tail"
      using greedy_group_Some(2) by blast
    moreover have "c # cs = enr_marker @ drop (length enr_marker) (c # cs)"
      using True unfolding has_prefix_def by (metis append_take_drop_id)
    ultimately have "c # cs = [] @ enr_marker @ g @ [dquote] @ tail" by simp
    moreover have "newline \<notin> set g" using True greedy_group_Some(1) by blast
    ultimately show ?thesis by blast
  next
    case False
    with Cons.prems have "find_enr cs = Some g"
      by (auto split: if_splits option.splits)
    with Cons.IH obtain pre post where "newline \<notin> set g"
      and "cs = pre @ enr_marker @ g @ [dquote] @ post" by blast
    then have "newline \<notin> set g \<and> c # cs = (c # pre) @ enr_marker @ g @ [dquote] @ post" by simp
    then show ?thesis by blast
  qed
qed simp

lemma greedy_group_None_iff: "greedy_group rest = None \<longleftrightarrow> dquote \<notin> set (takeWhile (\<lambda>c. c \<noteq> newline) rest)"
  by (simp add: greedy_group_def Let_def)

lemma find_enr_complete:
  "newline \<notin> set g \<Longrightarrow> \<exists>h. find_enr (pre @ enr_marker @ g @ [dquote] @ post) = Some h"
proof (induction pre)
  case Nil
  have "newline \<notin> set (g @ [dquote])"
    using Nil by (simp add: newline_def dquote_def)
  then have "dquote \<in> set (takeWhile (\<lambda>c. c \<noteq> newline) ((g @ [dquote]) @ post))"
    by (subst takeWhile_append2) auto
  then have "greedy_group (g @ [dquote] @ post) \<noteq> None"
    unfolding greedy_group_None_iff by simp
  moreover have "find_enr (enr_marker @ r) =
      (case greedy_group r of Some g \<Rightarrow> Some g | None \<Rightarrow> find_enr (tl enr_marker @ r))" for r
  proof -
    have m: "enr_marker @ r = hd enr_marker # tl enr_marker @ r" by (simp add: enr_marker_def)
    have "has_prefix (hd enr_marker # tl enr_marker @ r) enr_marker"
      unfolding m [symmetric] by simp
    then show ?thesis
      by (subst m, subst find_enr.simps) (simp flip: m)
  qed
  ultimately show ?case by auto
next
  case (Cons c pre)
  then show ?case by (auto split: option.split)
qed

text \<open>
  C36. decodeEnr finds an ENR exactly when the logs contain the marker followed by a quote on
  the same line, and what it returns stands in the logs between the two.
\<close>

theorem decodeEnr_exact:
  assumes "decodeEnr (Ok logs) = r"
  shows "case r of
      Ok enr \<Rightarrow> \<exists>pre g post. enr = ''enr:'' @ g \<and> newline \<notin> set g
        \<and> logs = pre @ enr_marker @ g @ [dquote] @ post
    | Fail e \<Rightarrow> e = ''not found''
        \<and> \<not> (\<exists>pre g post. newline \<notin> set g \<and> logs = pre @ enr_marker @ g @ [dquote] @ post)
    | Panic p \<Rightarrow> False"
proof (cases "find_enr logs")
  case None
  with assms have "r = Fail ''not found''" by (simp add: decodeEnr_def)
  moreover have "\<not> (\<exists>pre g post. newline \<notin> set g \<and> logs = pre @ enr_marker @ g @ [dquote] @ post)"
    using find_enr_complete None by (metis option.distinct(1))
  ultimately show ?thesis by simp
next
  case (Some g)
  with assms have "r = Ok (''enr:'' @ g)" by (simp add: decodeEnr_def)
  with find_enr_sound [OF Some] show ?thesis by auto
qed

theorem decodeEnr_exact_witness:
  "decodeEnr (Ok (''boot '' @ enr_marker @ ''-abc'' @ [dquote, newline])) = Ok ''enr:-abc''
   \<and> (\<exists>pre g post. ''enr:-abc'' = ''enr:'' @ g \<and> newline \<notin> set g
        \<and> ''boot '' @ enr_marker @ ''-abc'' @ [dquote, newline] = pre @ enr_marker @ g @ [dquote] @ post)"
proof -
  have r: "decodeEnr (Ok (''boot '' @ enr_marker @ ''-abc'' @ [dquote, newline])) = Ok ''enr:-abc''"
    by code_simp
  show ?thesis using decodeEnr_exact [OF r] r by (simp only: outcome.case)
qed

end
