(* ===== verification/Eth1.thy ===== *)
theory Eth1
  imports Bootnode "HOL-Library.Multiset"
begin

text \<open>
  eth1.go: the execution client.  The genesis file of the clique network is the text of
  fixtures/genesis.json.tmpl with its actions replaced; the text pieces between the actions are the
  constants \<open>genesis_head\<close> to \<open>genesis_tail\<close>.  A template ranges over a map in the order of its sorted
  keys.
\<close>

abbreviation nl :: string where "nl \<equiv> [newline]"
abbreviation tab :: string where "tab \<equiv> [CHR 0x09]"

section \<open>The genesis file\<close>

record eth1_genesis =
  MergeForkBlock :: uint64
  TDD :: uint64
  Period :: uint64
  Allocs :: "(bytes \<times> string) list"
  Validators :: "bytes list"
  Extra :: string

definition genesis_head :: string where
  \<open>genesis_head =
     ''{'' @ nl @
     tab @ ''"config": {'' @ nl @
     tab @ ''  "chainId": 1337,'' @ nl @
     tab @ ''  "homesteadBlock": 0,'' @ nl @
     tab @ ''  "eip150Block": 0,'' @ nl @
     tab @ ''  "eip155Block": 0,'' @ nl @
     tab @ ''  "eip158Block": 0,'' @ nl @
     tab @ ''  "byzantiumBlock": 0,'' @ nl @
     tab @ ''  "constantinopleBlock": 0,'' @ nl @
     tab @ ''  "petersburgBlock": 0,'' @ nl @
     tab @ ''  "istanbulBlock": 0,'' @ nl @
     tab @ ''  "berlinBlock": 0,'' @ nl @
     tab @ ''  "londonBlock": 0,'' @ nl @
     tab @ ''  "mergeForkBlock": ''\<close>

definition genesis_ttd :: string where
  \<open>genesis_ttd =
     '','' @ nl @
     tab @ ''  "terminalTotalDifficulty": ''\<close>

definition genesis_period :: string where
  \<open>genesis_period =
     '','' @ nl @
     tab @ ''  "clique": {'' @ nl @
     tab @ tab @ ''"period": ''\<close>

definition genesis_alloc :: string where
  \<open>genesis_alloc =
     '','' @ nl @
     tab @ tab @ ''"epoch": 30000'' @ nl @
     tab @ ''  }'' @ nl @
     tab @ ''},'' @ nl @
     tab @ ''"alloc": { ''\<close>

definition genesis_extra :: string where
  \<open>genesis_extra =
     nl @
     tab @ ''},'' @ nl @
     tab @ ''"coinbase" : "0x0000000000000000000000000000000000000000",'' @ nl @
     tab @ ''"difficulty": "1",'' @ nl @
     tab @ ''"extradata": "''\<close>

definition genesis_tail :: string where
  \<open>genesis_tail =
     ''",'' @ nl @
     tab @ ''"gasLimit" : "0xffffff",'' @ nl @
     tab @ ''"nonce" : "0x0000000000000042",'' @ nl @
     tab @ ''"mixhash" : "0x0000000000000000000000000000000000000000000000000000000000000000",'' @
     nl @
     tab @ ''"parentHash" : "0x0000000000000000000000000000000000000000000000000000000000000000",'' @
     nl @
     tab @ ''"timestamp" : "0x00"'' @ nl @
     ''}''\<close>

definition alloc_entry :: "'w crypto_api \<Rightarrow> bytes \<times> string \<Rightarrow> string" where
  \<open>alloc_entry C kv = nl @ tab @ tab @ ''"'' @ address_String C (fst kv) @
     ''": {"balance": "'' @ snd kv @ ''"}''\<close>

text \<open>The vanity (32 zero bytes), the sorted signers and the seal (65 zero bytes) of clique.\<close>

definition genesis_extra_bytes :: "bytes list \<Rightarrow> bytes" where
  "genesis_extra_bytes signers =
     replicate 32 (CHR 0x00) @ concat signers @ replicate 65 (CHR 0x00)"

definition genesis_render :: "'w crypto_api \<Rightarrow> eth1_genesis \<Rightarrow> string" where
  "genesis_render C g =
     genesis_head @ itoa (unat (MergeForkBlock g)) @
     genesis_ttd @ itoa (unat (TDD g)) @
     genesis_period @ itoa (unat (Period g)) @
     genesis_alloc @ concat (map (alloc_entry C) (sort_key fst (Allocs g))) @
     genesis_extra @ Extra g @ genesis_tail"

text \<open>\<open>Build\<close> sorts the signers in place and stores the extra data before it renders.\<close>

definition Build :: "'w crypto_api \<Rightarrow> (eth1_genesis, string) go" where
  "Build C = (\<lambda>g.
     if Validators g = [] then (Fail ''no genesis validators'', g)
     else let vs = sort (Validators g);
              g' = g\<lparr>Validators := vs, Extra := ''0x'' @ hex_encode (genesis_extra_bytes vs)\<rparr>
          in (Ok (genesis_render C g'), g'))"

definition NewDevGenesis :: "'w crypto_api \<Rightarrow> ('w world, eth1_genesis \<times> wallet_key) go" where
  "NewDevGenesis C =
     bind_go (on_ext (wallet_GenerateKey C)) (\<lambda>key. ret
       (\<lparr>MergeForkBlock = 100000, TDD = 100000, Period = 2,
         Allocs = [(wallet_Address C key, ''100000000000000000000000000000'')],
         Validators = [wallet_Address C key], Extra = []\<rparr>, key))"

section \<open>The execution node\<close>

record execution_config =
  ec_Bootnode :: string
  ec_Genesis :: string
  ec_Key :: "wallet_key option"

definition defWalletPassword :: string where "defWalletPassword = ''qwerty''"

definition toKeystoreV3 :: "'w crypto_api \<Rightarrow> wallet_key \<Rightarrow> ('w world, bytes) go" where
  "toKeystoreV3 C key =
     bind_go (ext_get (uuid_Generate C)) (\<lambda>id.
     bind_go (lift_out (wallet_MarshallPrivateKey C key)) (\<lambda>privKey.
     bind_go (on_ext (keystore_EncryptV3 C privKey defWalletPassword)) (\<lambda>keystore.
     bind_go (lift_out (json_Unmarshal_map C keystore)) (\<lambda>dec.
     ret (json_print (json_of_map
       (AList.update ''id'' (JStr id)
        (AList.update ''uuid'' (JStr id)
         (AList.update ''address'' (JStr (address_String C (wallet_Address C key))) dec)))))))))"

definition eth1_base_cmd :: "string list" where
  "eth1_base_cmd =
     [''geth'', ''--datadir'', ''/data'', ''init'', ''/data/genesis.json'',
      [CHR 0x26, CHR 0x26],
      ''geth'', ''--datadir'', ''/data'', ''--networkid'', ''1337'',
      ''--port'', port_action NodePortEth1P2P,
      ''--http'', ''--http.addr'', ''0.0.0.0'', ''--http.api'', ''eth,net,engine,clique'',
      ''--http.port'', port_action NodePortEth1Http,
      ''--authrpc.port'', port_action NodePortEth1AuthRPC,
      ''--discovery.dns'', [dquote, dquote]]"

definition eth1_miner_cmd :: "string \<Rightarrow> string list" where
  "eth1_miner_cmd addr =
     [''--mine'', ''--miner.threads'', ''1'', ''--miner.etherbase'', addr,
      ''--miner.extradata'', addr, ''--miner.gasprice'', ''16000000000'',
      ''--unlock'', addr, ''--allow-insecure-unlock'', ''--txpool.locals'', addr,
      ''--password'', ''/data/keystore-password.txt'']"

definition eth1_cmd :: "'w crypto_api \<Rightarrow> execution_config \<Rightarrow> string list" where
  "eth1_cmd C config =
     eth1_base_cmd @
     (if ec_Bootnode config \<noteq> [] then [''--bootnodes'', ec_Bootnode config] else []) @
     (case ec_Key config of
        None \<Rightarrow> []
      | Some key \<Rightarrow> eth1_miner_cmd (address_String C (wallet_Address C key)))"

definition NewEth1Server :: "'w crypto_api \<Rightarrow> execution_config \<Rightarrow> ('w world, spec) go" where
  "NewEth1Server C config =
     (let ss = chain empty_spec
        [WithName ''eth1'',
         WithContainer ''ethereum/client-go'',
         WithTag ''v1.10.20'',
         WithMount ''/data'',
         put_file ''/data/genesis.json'' (ec_Genesis config),
         WithEntrypoint [''/bin/sh'', ''-c''],
         WithCmd [join_strings '' '' (eth1_cmd C config)],
         WithRetry (RetryHttp NodePortEth1Http)]
      in case ec_Key config of
        None \<Rightarrow> ret ss
      | Some key \<Rightarrow>
          bind_go (attempt (toKeystoreV3 C key)) (\<lambda>r. case r of
            Inl err \<Rightarrow> panic err
          | Inr keystore \<Rightarrow> ret (chain ss
              [put_file ''/data/keystore/account.json'' keystore,
               put_file ''/data/keystore-password.txt'' defWalletPassword,
               WithLabel ''clique-validator'' ''true''])))"

text \<open>\<open>testHTTPEndpoint\<close>: any response counts, whatever its status.\<close>

definition testHTTPEndpoint :: "(string \<Rightarrow> ('w, unit) go) \<Rightarrow> string \<Rightarrow> ('w world, unit) go" where
  "testHTTPEndpoint post endpoint = ext_call (HttpPost endpoint) (post endpoint)"

section \<open>Properties of the genesis file\<close>

lemma genesis_extra_length:
  "list_all (\<lambda>a. length a = 20) signers \<Longrightarrow>
     length (genesis_extra_bytes signers) = 97 + 20 * length signers"
  by (induction signers) (auto simp: genesis_extra_bytes_def)

text \<open>
  C35. Build sorts the clique signers, stores the extra data 0x, 32 zero bytes, the sorted
  20-byte addresses, 65 zero bytes, and renders it into the genesis file.
\<close>

theorem Build_extra:
  assumes "Validators g \<noteq> []" and "list_all (\<lambda>a. length a = 20) (Validators g)"
  shows "\<exists>out g'. Build C g = (Ok out, g')
    \<and> mset (Validators g') = mset (Validators g) \<and> sorted (Validators g')
    \<and> Extra g' = ''0x'' @ hex_encode (replicate 32 (CHR 0x00) @ concat (Validators g')
                                       @ replicate 65 (CHR 0x00))
    \<and> length (Extra g') = 2 + 2 * (97 + 20 * length (Validators g))
    \<and> (\<exists>pre. out = pre @ genesis_extra @ Extra g' @ genesis_tail)"
proof -
  let ?vs = "sort (Validators g)"
  let ?g = "g\<lparr>Validators := ?vs, Extra := ''0x'' @ hex_encode (genesis_extra_bytes ?vs)\<rparr>"
  have "Build C g = (Ok (genesis_render C ?g), ?g)"
    using assms(1) by (simp add: Build_def Let_def)
  moreover have "length (genesis_extra_bytes ?vs) = 97 + 20 * length (Validators g)"
    using assms(2) by (subst genesis_extra_length) (auto simp: list_all_iff)
  moreover have "\<exists>pre. genesis_render C ?g = pre @ genesis_extra @ Extra ?g @ genesis_tail"
    unfolding genesis_render_def by (metis append.assoc)
  ultimately show ?thesis
    by (intro exI [of _ "genesis_render C ?g"] exI [of _ ?g])
       (simp add: genesis_extra_bytes_def)
qed

theorem Build_extra_witness:
  "\<exists>out g'. Build sample_crypto
      \<lparr>MergeForkBlock = 1, TDD = 2, Period = 2, Allocs = [],
        Validators = [replicate 20 (CHR ''b''), replicate 20 (CHR ''a'')], Extra = []\<rparr> = (Ok out, g')
    \<and> sorted (Validators g') \<and> length (Extra g') = 276"
  using Build_extra [of "\<lparr>MergeForkBlock = 1, TDD = 2, Period = 2, Allocs = [],
        Validators = [replicate 20 (CHR ''b''), replicate 20 (CHR ''a'')], Extra = []\<rparr>" sample_crypto]
  by auto

end
