(* ===== verification/Eth2Clients.thy ===== *)
theory Eth2Clients
  imports Eth1
begin

text \<open>
  The six factories of eth2_prysm.go, eth2_lighthouse.go and eth2_teku.go.  A factory turns a
  configuration into the spec of a container.  The types \<open>CreateBeacon2\<close> and \<open>CreateValidator2\<close> of
  proto/utils.go are its interface; the locale \<open>node_factory\<close> states what the server relies on:
  the labels that identify the node, a single mount under which every file lies, and no retry closure.

  The beacon node a validator connects to is an interface value in Go; a validator configuration holds
  its \<open>GetAddr\<close> method, which panics for a port it does not know.
\<close>

record beacon_config =
  bc_Spec :: bytes
  bc_Eth1 :: string
  bc_Bootnode :: string
  bc_GenesisSSZ :: bytes

record validator_config =
  vc_Spec :: bytes
  vc_Accounts :: "account list"
  vc_Beacon_GetAddr :: "string \<Rightarrow> string outcome"

section \<open>Lighthouse\<close>

definition lighthouse_beacon_cmd :: "beacon_config \<Rightarrow> string list" where
  "lighthouse_beacon_cmd config =
     [''lighthouse'', ''beacon_node'',
      ''--http'', ''--http-address'', ''0.0.0.0'',
      ''--http-port'', port_action NodePortHttp,
      ''--eth1-endpoints'', bc_Eth1 config,
      ''--target-peers'', ''1'',
      ''--testnet-dir'', ''/data'',
      ''--http-allow-sync-stalled'',
      ''--debug-level'', ''trace'',
      ''--subscribe-all-subnets'',
      ''--staking'',
      ''--port'', port_action NodePortP2P,
      ''--enr-address'', ''127.0.0.1'',
      ''--enr-udp-port'', port_action NodePortP2P,
      ''--enr-tcp-port'', port_action NodePortP2P,
      ''--disable-packet-filter'',
      ''--enable-private-discovery'']"

definition NewLighthouseBeacon :: "'w crypto_api \<Rightarrow> beacon_config \<Rightarrow> ('w world, spec) go" where
  "NewLighthouseBeacon C config =
     (let spec = chain empty_spec
        [WithLabel NodeClientLabel (NodeClient_String (enum_unknown C) NodeClient_Lighthouse),
         WithLabel NodeTypeLabel (NodeType_String (enum_unknown C) NodeType_Beacon),
         WithContainer ''sigp/lighthouse'',
         WithTag ''v2.2.1'',
         WithCmd (lighthouse_beacon_cmd config),
         WithMount ''/data'',
         put_file ''/data/config.yaml'' (bc_Spec config),
         put_file ''/data/genesis.ssz'' (bc_GenesisSSZ config),
         put_file ''/data/deploy_block.txt'' ''0'']
      in if bc_Bootnode config \<noteq> []
         then ret (put_file ''/data/boot_enr.yaml'' (''- '' @ bc_Bootnode config @ nl) spec)
         else ret spec)"

definition lighthouse_validator_cmd :: "string \<Rightarrow> string list" where
  "lighthouse_validator_cmd addr =
     [''lighthouse'', ''vc'',
      ''--debug-level'', ''debug'',
      ''--datadir'', ''/data/node'',
      ''--beacon-nodes'', addr,
      ''--testnet-dir'', ''/data'',
      ''--init-slashing-protection'']"

definition lighthouse_add_key :: "'w crypto_api \<Rightarrow> account \<Rightarrow> spec \<Rightarrow> ('w world, spec) go" where
  "lighthouse_add_key C acct spec =
     (let pubStr = ''0x'' @ hex_encode (bls_PubKey C (Bls acct)) in
      bind_go (on_ext (bls_ToKeystore C (Bls acct) defWalletPassword)) (\<lambda>keystore.
      ret (chain spec
        [put_file (''/data/node/validators/'' @ pubStr @ ''/voting-keystore.json'') keystore,
         put_file (''/data/node/secrets/'' @ pubStr) defWalletPassword])))"

definition NewLighthouseValidator ::
    "'w crypto_api \<Rightarrow> validator_config \<Rightarrow> ('w world, spec) go" where
  "NewLighthouseValidator C config =
     bind_go (lift_out (vc_Beacon_GetAddr config NodePortHttp)) (\<lambda>addr.
     fold_go (lighthouse_add_key C) (vc_Accounts config) (chain empty_spec
       [WithLabel NodeClientLabel (NodeClient_String (enum_unknown C) NodeClient_Lighthouse),
        WithLabel NodeTypeLabel (NodeType_String (enum_unknown C) NodeType_Validator),
        WithContainer ''sigp/lighthouse'',
        WithTag ''v2.2.1'',
        WithCmd (lighthouse_validator_cmd addr),
        WithMount ''/data'',
        put_file ''/data/config.yaml'' (vc_Spec config),
        put_file ''/data/deploy_block.txt'' ''0'']))"

section \<open>Prysm\<close>

definition prysm_beacon_cmd :: "beacon_config \<Rightarrow> string list" where
  "prysm_beacon_cmd config =
     [''--verbosity'', ''debug'',
      ''--http-web3provider'', bc_Eth1 config,
      ''--contract-deployment-block'', ''0'',
      ''--min-sync-peers'', ''1'',
      ''--rpc-host'', ''0.0.0.0'',
      ''--rpc-port'', port_action NodePortPrysmGrpc,
      ''--grpc-gateway-host'', ''0.0.0.0'',
      ''--grpc-gateway-port'', port_action NodePortHttp,
      ''--chain-config-file'', ''/data/config.yaml'',
      ''--genesis-state'', ''/data/genesis.ssz'',
      ''--accept-terms-of-use'',
      ''--datadir'', ''/data/eth2'',
      ''--force-clear-db'',
      ''--minimum-peers-per-subnet'', ''0'',
      ''--p2p-tcp-port'', port_action NodePortP2P,
      ''--p2p-udp-port'', port_action NodePortP2P] @
     (if bc_Bootnode config \<noteq> [] then [''--bootstrap-node'', bc_Bootnode config] else [])"

definition NewPrysmBeacon :: "'w crypto_api \<Rightarrow> beacon_config \<Rightarrow> ('w world, spec) go" where
  "NewPrysmBeacon C config = ret (chain empty_spec
     [WithLabel NodeClientLabel (NodeClient_String (enum_unknown C) NodeClient_Prysm),
      WithLabel NodeTypeLabel (NodeType_String (enum_unknown C) NodeType_Beacon),
      WithContainer ''gcr.io/prysmaticlabs/prysm/beacon-chain'',
      WithTag ''v2.0.6'',
      WithCmd (prysm_beacon_cmd config),
      WithMount ''/data'',
      put_file ''/data/config.yaml'' (bc_Spec config),
      put_file ''/data/genesis.ssz'' (bc_GenesisSSZ config)])"

text \<open>\<open>accountStore\<close>: a nil slice is \<open>None\<close> and marshals to \<open>null\<close>.\<close>

record account_store =
  PrivateKeys :: "bytes list option"
  PublicKeys :: "bytes list option"

definition slice_of :: "'a list option \<Rightarrow> 'a list" where
  "slice_of sl = (case sl of None \<Rightarrow> [] | Some xs \<Rightarrow> xs)"

text \<open>The slices are initialised before the key is marshalled; an error leaves them without it.\<close>

definition AddKey :: "'w crypto_api \<Rightarrow> bls_key \<Rightarrow> (account_store, unit) go" where
  "AddKey C k = (\<lambda>a.
     let a1 = a\<lparr>PrivateKeys := Some (slice_of (PrivateKeys a)),
                PublicKeys := Some (slice_of (PublicKeys a))\<rparr>
     in case bls_Prv_Marshal C k of
          Fail e \<Rightarrow> (Fail e, a1)
        | Panic p \<Rightarrow> (Panic p, a1)
        | Ok priv \<Rightarrow>
            (Ok (), a1\<lparr>PrivateKeys := Some (slice_of (PrivateKeys a) @ [priv]),
                       PublicKeys := Some (slice_of (PublicKeys a) @ [bls_Pub_Serialize C k])\<rparr>))"

definition json_of_slices :: "bytes list option \<Rightarrow> json" where
  "json_of_slices sl = (case sl of None \<Rightarrow> JNull | Some bs \<Rightarrow> JArr (map (JStr \<circ> b64_encode) bs))"

definition ToKeystore :: "'w crypto_api \<Rightarrow> account_store \<Rightarrow> string \<Rightarrow> ('w world, bytes) go" where
  "ToKeystore C a password =
     on_ext (keystore_EncryptV4 C
       (json_print (JObj [(''private_keys'', json_of_slices (PrivateKeys a)),
                          (''public_keys'', json_of_slices (PublicKeys a))])) password)"

text \<open>
  \<open>NewPrysmValidator\<close> calls \<open>store.AddKey(acct.Bls)\<close> and drops the error it returns.
\<close>

definition prysm_add_keys :: "'w crypto_api \<Rightarrow> account list \<Rightarrow> (account_store, unit) go" where
  "prysm_add_keys C accts =
     bind_go (for_each accts (\<lambda>acct. attempt (AddKey C (Bls acct)))) (\<lambda>_. ret ())"

definition empty_store :: account_store where
  "empty_store = \<lparr>PrivateKeys = None, PublicKeys = None\<rparr>"

definition prysm_validator_cmd :: "string \<Rightarrow> string list" where
  "prysm_validator_cmd addr =
     [''--verbosity'', ''debug'',
      ''--accept-terms-of-use'',
      ''--wallet-dir'', ''/data'',
      ''--wallet-password-file'', ''/data/wallet-password.txt'',
      ''--beacon-rpc-provider'', trim_prefix addr ''http://'',
      ''--chain-config-file'', ''/data/config.yaml'']"

definition NewPrysmValidator ::
    "'w crypto_api \<Rightarrow> validator_config \<Rightarrow> ('w world, spec) go" where
  "NewPrysmValidator C config =
     (case prysm_add_keys C (vc_Accounts config) empty_store of
        (Fail e, _) \<Rightarrow> fail e
      | (Panic p, _) \<Rightarrow> panic p
      | (Ok _, store) \<Rightarrow>
          bind_go (ToKeystore C store defWalletPassword) (\<lambda>keystore.
          bind_go (lift_out (vc_Beacon_GetAddr config NodePortPrysmGrpc)) (\<lambda>addr.
          ret (chain empty_spec
            [WithLabel NodeClientLabel (NodeClient_String (enum_unknown C) NodeClient_Prysm),
             WithLabel NodeTypeLabel (NodeType_String (enum_unknown C) NodeType_Validator),
             WithContainer ''gcr.io/prysmaticlabs/prysm/validator'',
             WithTag ''v2.0.6'',
             WithCmd (prysm_validator_cmd addr),
             WithMount ''/data'',
             put_file ''/data/direct/accounts/all-accounts.keystore.json'' keystore,
             put_file ''/data/wallet-password.txt'' defWalletPassword,
             put_file ''/data/config.yaml'' (vc_Spec config)]))))"

section \<open>Teku\<close>

definition teku_beacon_cmd :: "beacon_config \<Rightarrow> string list" where
  "teku_beacon_cmd config =
     [''--logging'', ''debug'',
      ''--eth1-endpoint'', bc_Eth1 config,
      ''--rest-api-enabled'',
      ''--network'', ''/data/config.yaml'',
      ''--initial-state'', ''/data/genesis.ssz'',
      ''--rest-api-port'', port_action NodePortHttp,
      ''--log-file'', ''/data/logs.txt'',
      ''--p2p-advertised-ip'', ''0.0.0.0'',
      ''--p2p-port'', port_action NodePortP2P] @
     (if bc_Bootnode config \<noteq> []
      then [''--p2p-discovery-bootnodes'', bc_Bootnode config] else [])"

definition NewTekuBeacon :: "'w crypto_api \<Rightarrow> beacon_config \<Rightarrow> ('w world, spec) go" where
  "NewTekuBeacon C config = ret (chain empty_spec
     [WithLabel NodeClientLabel (NodeClient_String (enum_unknown C) NodeClient_Teku),
      WithLabel NodeTypeLabel (NodeType_String (enum_unknown C) NodeType_Beacon),
      WithContainer ''consensys/teku'',
      WithTag ''22.4.0'',
      WithCmd (teku_beacon_cmd config),
      WithMount ''/data'',
      put_file ''/data/config.yaml'' (bc_Spec config),
      put_file ''/data/genesis.ssz'' (bc_GenesisSSZ config),
      WithUser ''0:0''])"

definition teku_validator_cmd :: "string \<Rightarrow> string list" where
  "teku_validator_cmd addr =
     [''vc'',
      ''--beacon-node-api-endpoint'', addr,
      ''--data-path'', ''/data'',
      ''--network'', ''/data/config.yaml'',
      ''--validator-keys'', ''/data/keys:/data/pass'']"

definition teku_add_key :: "'w crypto_api \<Rightarrow> nat \<times> account \<Rightarrow> spec \<Rightarrow> ('w world, spec) go" where
  "teku_add_key C ia spec = (case ia of (indx, acct) \<Rightarrow>
     bind_go (on_ext (bls_ToKeystore C (Bls acct) defWalletPassword)) (\<lambda>keystore.
     ret (let name = ''account_'' @ itoa indx in chain spec
       [put_file (''/data/keys/'' @ name @ ''.json'') keystore,
        put_file (''/data/pass/'' @ name @ ''.txt'') defWalletPassword])))"

definition NewTekuValidator ::
    "'w crypto_api \<Rightarrow> validator_config \<Rightarrow> ('w world, spec) go" where
  "NewTekuValidator C config =
     bind_go (lift_out (vc_Beacon_GetAddr config NodePortHttp)) (\<lambda>addr.
     fold_go (teku_add_key C) (enumerate 0 (vc_Accounts config)) (chain empty_spec
       [WithLabel NodeClientLabel (NodeClient_String (enum_unknown C) NodeClient_Teku),
        WithLabel NodeTypeLabel (NodeType_String (enum_unknown C) NodeType_Validator),
        WithContainer ''consensys/teku'',
        WithTag ''22.4.0'',
        WithCmd (teku_validator_cmd addr),
        WithMount ''/data'',
        put_file ''/data/config.yaml'' (vc_Spec config),
        WithUser ''0:0'']))"

section \<open>The interface of a factory\<close>

definition factory_spec :: "(int32 \<Rightarrow> string) \<Rightarrow> node_type \<Rightarrow> node_client \<Rightarrow> spec \<Rightarrow> bool" where
  "factory_spec unk ntyp clt sp \<longleftrightarrow>
     Labels sp = [(NodeClientLabel, NodeClient_String unk clt), (NodeTypeLabel, NodeType_String unk ntyp)]
     \<and> Mount sp = [''/data''] \<and> list_all (\<lambda>(p, d). has_prefix p ''/data/'') (Files sp)
     \<and> Retry sp = None \<and> Output sp = [] \<and> Repository sp \<noteq> [] \<and> Tag sp \<noteq> []"

locale node_factory =
  fixes unk :: "int32 \<Rightarrow> string"
    and ntyp :: node_type
    and clt :: node_client
    and make :: "'cfg \<Rightarrow> ('w world, spec) go"
  assumes make_spec: "make cfg w = (Ok sp, v) \<Longrightarrow> factory_spec unk ntyp clt sp"
    and make_grows: "within world_grows (make cfg)"
begin

lemma make_label:
  "make cfg w = (Ok sp, v) \<Longrightarrow> HasLabel NodeTypeLabel (NodeType_String unk ntyp) sp"
  "make cfg w = (Ok sp, v) \<Longrightarrow> HasLabel NodeClientLabel (NodeClient_String unk clt) sp"
  by (auto dest!: make_spec simp: factory_spec_def HasLabel_def map_get_def)

text \<open>Docker finds a mount for every file of the spec.\<close>

lemma make_files_mounted:
  assumes "make cfg w = (Ok sp, v)" and "(p, d) \<in> set (Files sp)"
  shows "\<exists>m \<in> set (Mount sp). has_prefix p m"
proof -
  from assms have "Mount sp = [''/data'']" and "has_prefix p ''/data/''"
    by (auto dest!: make_spec simp: factory_spec_def list_all_iff)
  then show ?thesis by (auto simp: has_prefix_iff)
qed

end

lemma list_all_update:
  "list_all P al \<Longrightarrow> P (k, v) \<Longrightarrow> list_all P (AList.update k v al)"
  by (induction al) auto

lemma factory_spec_put_file:
  "factory_spec unk t c sp \<Longrightarrow> has_prefix p ''/data/'' \<Longrightarrow> factory_spec unk t c (put_file p d sp)"
  by (simp add: factory_spec_def put_file_def list_all_update)

lemma data_prefix: "has_prefix (''/data/'' @ r) ''/data/''"
  by (rule has_prefix_append)

lemma lighthouse_add_key_spec:
  assumes "factory_spec unk t c sp" and "lighthouse_add_key C a sp w = (Ok sp', v)"
  shows "factory_spec unk t c sp'"
  using assms data_prefix [of "''node/validators/'' @ _"] data_prefix [of "''node/secrets/'' @ _"]
  by (auto simp: lighthouse_add_key_def Let_def intro!: factory_spec_put_file)

lemma teku_add_key_spec:
  assumes "factory_spec unk t c sp" and "teku_add_key C ia sp w = (Ok sp', v)"
  shows "factory_spec unk t c sp'"
  using assms data_prefix [of "''keys/'' @ _"] data_prefix [of "''pass/'' @ _"]
  by (cases ia) (auto simp: teku_add_key_def Let_def intro!: factory_spec_put_file)

lemmas factory_eval = factory_spec_def with_defs has_prefix_def empty_spec_def

interpretation lighthouse_beacon: node_factory "enum_unknown C" NodeType_Beacon
    NodeClient_Lighthouse "NewLighthouseBeacon C" for C :: "'w crypto_api"
proof unfold_locales
  show "factory_spec (enum_unknown C) NodeType_Beacon NodeClient_Lighthouse sp"
    if "NewLighthouseBeacon C cfg w = (Ok sp, v)" for cfg w sp v
    using that by (auto simp: NewLighthouseBeacon_def Let_def factory_eval split: if_splits)
  show "within world_grows (NewLighthouseBeacon C cfg)" for cfg
    unfolding NewLighthouseBeacon_def Let_def by (intro world_grows.within_all within_rules)
qed

interpretation prysm_beacon: node_factory "enum_unknown C" NodeType_Beacon
    NodeClient_Prysm "NewPrysmBeacon C" for C :: "'w crypto_api"
proof unfold_locales
  show "factory_spec (enum_unknown C) NodeType_Beacon NodeClient_Prysm sp"
    if "NewPrysmBeacon C cfg w = (Ok sp, v)" for cfg w sp v
    using that by (auto simp: NewPrysmBeacon_def factory_eval)
  show "within world_grows (NewPrysmBeacon C cfg)" for cfg
    unfolding NewPrysmBeacon_def by (intro world_grows.within_all within_rules)
qed

interpretation teku_beacon: node_factory "enum_unknown C" NodeType_Beacon
    NodeClient_Teku "NewTekuBeacon C" for C :: "'w crypto_api"
proof unfold_locales
  show "factory_spec (enum_unknown C) NodeType_Beacon NodeClient_Teku sp"
    if "NewTekuBeacon C cfg w = (Ok sp, v)" for cfg w sp v
    using that by (auto simp: NewTekuBeacon_def factory_eval)
  show "within world_grows (NewTekuBeacon C cfg)" for cfg
    unfolding NewTekuBeacon_def by (intro world_grows.within_all within_rules)
qed

interpretation lighthouse_validator: node_factory "enum_unknown C" NodeType_Validator
    NodeClient_Lighthouse "NewLighthouseValidator C" for C :: "'w crypto_api"
proof unfold_locales
  show "factory_spec (enum_unknown C) NodeType_Validator NodeClient_Lighthouse sp"
    if "NewLighthouseValidator C cfg w = (Ok sp, v)" for cfg w sp v
  proof -
    from that obtain addr u where
      "fold_go (lighthouse_add_key C) (vc_Accounts cfg) (chain empty_spec
       [WithLabel NodeClientLabel (NodeClient_String (enum_unknown C) NodeClient_Lighthouse),
        WithLabel NodeTypeLabel (NodeType_String (enum_unknown C) NodeType_Validator),
        WithContainer ''sigp/lighthouse'', WithTag ''v2.2.1'',
        WithCmd (lighthouse_validator_cmd addr), WithMount ''/data'',
        put_file ''/data/config.yaml'' (vc_Spec cfg),
        put_file ''/data/deploy_block.txt'' ''0'']) u = (Ok sp, v)"
      unfolding NewLighthouseValidator_def by blast
    then show ?thesis
      by (rule fold_go_inv) (simp add: factory_eval, erule (1) lighthouse_add_key_spec)
  qed
  show "within world_grows (NewLighthouseValidator C cfg)" for cfg
    unfolding NewLighthouseValidator_def lighthouse_add_key_def Let_def
    by (intro world_grows.within_all within_rules)
qed

interpretation teku_validator: node_factory "enum_unknown C" NodeType_Validator
    NodeClient_Teku "NewTekuValidator C" for C :: "'w crypto_api"
proof unfold_locales
  show "factory_spec (enum_unknown C) NodeType_Validator NodeClient_Teku sp"
    if "NewTekuValidator C cfg w = (Ok sp, v)" for cfg w sp v
  proof -
    from that obtain addr u where
      "fold_go (teku_add_key C) (enumerate 0 (vc_Accounts cfg)) (chain empty_spec
       [WithLabel NodeClientLabel (NodeClient_String (enum_unknown C) NodeClient_Teku),
        WithLabel NodeTypeLabel (NodeType_String (enum_unknown C) NodeType_Validator),
        WithContainer ''consensys/teku'', WithTag ''22.4.0'',
        WithCmd (teku_validator_cmd addr), WithMount ''/data'',
        put_file ''/data/config.yaml'' (vc_Spec cfg), WithUser ''0:0'']) u = (Ok sp, v)"
      unfolding NewTekuValidator_def by blast
    then show ?thesis
      by (rule fold_go_inv) (simp add: factory_eval, erule (1) teku_add_key_spec)
  qed
  show "within world_grows (NewTekuValidator C cfg)" for cfg
    unfolding NewTekuValidator_def teku_add_key_def Let_def
    by (intro world_grows.within_all within_rules)
qed

interpretation prysm_validator: node_factory "enum_unknown C" NodeType_Validator
    NodeClient_Prysm "NewPrysmValidator C" for C :: "'w crypto_api"
proof unfold_locales
  show "factory_spec (enum_unknown C) NodeType_Validator NodeClient_Prysm sp"
    if "NewPrysmValidator C cfg w = (Ok sp, v)" for cfg w sp v
    using that
    by (auto simp: NewPrysmValidator_def factory_eval split: outcome.splits prod.splits)
  show "within world_grows (NewPrysmValidator C cfg)" for cfg
    unfolding NewPrysmValidator_def ToKeystore_def
    by (intro world_grows.within_all within_rules)
qed

end
