(* ===== verification/Docker.thy ===== *)
theory Docker
  imports Eth2Clients
begin

text \<open>
  Package \<open>internal/docker\<close>: starting a container from a spec, expanding the port actions in its
  command line, waiting until it is ready, reading its logs and stopping it.

  The Docker daemon is the parameter \<open>docker_api\<close>; its record also carries what the Go runtime decides:
  the iteration order of a map, random directory names, and which channel of a \<open>select\<close> is ready.
  A goroutine started by \<open>Deploy\<close> (\<open>run\<close>, \<open>trackOutput\<close>) is an operation of its own.
\<close>

section \<open>Nodes\<close>

record node =
  node_id :: string
  opts :: spec
  ip :: string
  mountMap :: "(string \<times> string) list"

definition defPorts :: "(string \<times> nat) list" where
  "defPorts =
     [(''eth.bootnode'', 30303), (''eth1.p2p'', 30303), (''eth1.http'', 8545),
      (''eth1.authrpc'', 8547), (''eth2.p2p'', 20202), (''eth2.http'', 9545),
      (''eth2.prysm.grpc'', 9546)]"

definition GetAddr :: "node \<Rightarrow> string \<Rightarrow> string outcome" where
  "GetAddr n portName =
     (case map_of defPorts portName of
        None \<Rightarrow> Panic (''port '' @ [CHR 0x27] @ portName @ [CHR 0x27] @ '' not found'')
      | Some port \<Rightarrow> Ok (''http://'' @ ip n @ '':'' @ itoa port))"

section \<open>Command line templates\<close>

datatype segment = Text string | Action string

text \<open>The text up to the next closing delimiter, and what follows it.\<close>

fun split_action :: "string \<Rightarrow> (string \<times> string) option" where
  "split_action [] = None"
| "split_action (c # cs) =
     (if has_prefix (c # cs) ''}}'' then Some ([], tl cs)
      else map_option (\<lambda>(body, rest). (c # body, rest)) (split_action cs))"

lemma split_action_length: "split_action s = Some (b, r) \<Longrightarrow> length r < length s"
  by (induction s arbitrary: b r) (auto split: if_splits simp: less_Suc_eq)

function parse_template :: "string \<Rightarrow> segment list option" where
  "parse_template [] = Some []"
| "parse_template (c # cs) =
     (if has_prefix (c # cs) ''{{''
      then (case split_action (tl cs) of
              None \<Rightarrow> None
            | Some (body, rest) \<Rightarrow> map_option (\<lambda>segs. Action body # segs) (parse_template rest))
      else map_option (\<lambda>segs. Text [c] # segs) (parse_template cs))"
  by pat_completeness auto
termination
  by (relation "measure length")
     (auto dest!: split_action_length simp: less_Suc_eq_le)

text \<open>The body of a call \<open>Port "name"\<close>, if it is one.\<close>

definition skip_spaces :: "string \<Rightarrow> string" where
  "skip_spaces = dropWhile (\<lambda>c. c = CHR '' '')"

definition port_call :: "string \<Rightarrow> string option" where
  "port_call body =
     (let s = skip_spaces body in
      if has_prefix s ''Port '' then
        (case skip_spaces (drop 5 s) of
           [] \<Rightarrow> None
         | q # r \<Rightarrow>
             let name = takeWhile (\<lambda>c. c \<noteq> dquote) r;
                 after = dropWhile (\<lambda>c. c \<noteq> dquote) r
             in if q = dquote \<and> after \<noteq> [] \<and> skip_spaces (tl after) = [] \<and> backslash \<notin> set name
                then Some name else None)
      else None)"

text \<open>
  The template function \<open>Port\<close> panics for an unknown port; package template recovers the panic of a
  function it calls and reports it as an execution error (its text carries the position too, which is
  left out here).  Any other action is the template engine's business.
\<close>

definition run_action :: "(string \<Rightarrow> string outcome) \<Rightarrow> string \<Rightarrow> string outcome" where
  "run_action other body =
     (case port_call body of
        None \<Rightarrow> other body
      | Some name \<Rightarrow>
          (case map_of defPorts name of
             None \<Rightarrow> Fail (''error calling Port: port '' @ [CHR 0x27] @ name @ [CHR 0x27] @ '' not found'')
           | Some port \<Rightarrow> Ok (itoa port)))"

fun exec_segments :: "(string \<Rightarrow> string outcome) \<Rightarrow> segment list \<Rightarrow> string outcome" where
  "exec_segments other [] = Ok []"
| "exec_segments other (Text t # segs) =
     (case exec_segments other segs of Ok r \<Rightarrow> Ok (t @ r) | err \<Rightarrow> err)"
| "exec_segments other (Action b # segs) =
     (case run_action other b of
        Ok t \<Rightarrow> (case exec_segments other segs of Ok r \<Rightarrow> Ok (t @ r) | err \<Rightarrow> err)
      | err \<Rightarrow> err)"

definition execCmd :: "(string \<Rightarrow> string outcome) \<Rightarrow> string \<Rightarrow> string outcome" where
  "execCmd other cmd =
     (case parse_template cmd of
        None \<Rightarrow> Fail ''template: node_cmd:1: unclosed action''
      | Some segs \<Rightarrow> exec_segments other segs)"

section \<open>The daemon\<close>

text \<open>Which channel the select of \<open>retryFn\<close> receives from.  \<open>SelAfter d\<close>: the 100 ms tick, after which
  the handler takes \<open>d\<close> ms.\<close>

datatype sel_event = SelAfter nat | SelWaitCh | SelTimer

text \<open>What \<open>ContainerWait\<close> delivers, on its result or its error channel.\<close>

datatype wait_event = WaitResult "string option" | WaitError string

record 'w docker_api =
  dk_NewClient :: "('w, unit) go"
  dk_ImageInspect :: "string \<Rightarrow> ('w, unit) go"
  dk_ImagePull :: "string \<Rightarrow> ('w, bytes) go"
  dk_CopyPull :: "bytes \<Rightarrow> ('w, unit) go"
  dk_ContainerCreate :: "container_config \<Rightarrow> string list \<Rightarrow> ('w, string) go"
  dk_ContainerStart :: "string \<Rightarrow> ('w, unit) go"
  dk_ContainerInspect :: "string \<Rightarrow> ('w, string) go"
  dk_ContainerStop :: "string \<Rightarrow> ('w, unit) go"
  dk_ContainerLogs :: "string \<Rightarrow> ('w, bytes) go"
  dk_ContainerWait :: "string \<Rightarrow> 'w \<Rightarrow> wait_event \<times> 'w"
  dk_StdCopy :: "bytes \<Rightarrow> bytes outcome"
  dk_http_post :: "string \<Rightarrow> ('w, unit) go"
  dk_rand :: "'w \<Rightarrow> nat \<times> 'w"
  dk_select :: "'w \<Rightarrow> sel_event \<times> 'w"
  dk_range :: "(string \<times> string) list \<Rightarrow> 'w \<Rightarrow> (string \<times> string) list \<times> 'w"
  dk_template :: "string \<Rightarrow> string outcome"

definition NewDocker :: "'w docker_api \<Rightarrow> ('w world, unit) go" where
  "NewDocker K = wrap_err ''could not connect to docker: '' (on_ext (dk_NewClient K))"

text \<open>A failed log request yields no logs and no error; a failed copy is an error.\<close>

definition GetLogs :: "'w docker_api \<Rightarrow> node \<Rightarrow> ('w world, string) go" where
  "GetLogs K n =
     bind_go (attempt (ext_call (ContainerLogs (node_id n)) (dk_ContainerLogs K (node_id n)))) (\<lambda>r.
       case r of
         Inl err \<Rightarrow> ret []
       | Inr out \<Rightarrow> lift_out (dk_StdCopy K out))"

definition Stop :: "'w docker_api \<Rightarrow> node \<Rightarrow> ('w world, unit) go" where
  "Stop K n =
     wrap_err ''failed to stop container: ''
       (ext_call (ContainerStop (node_id n)) (dk_ContainerStop K (node_id n)))"

text \<open>The goroutine \<open>run\<close>: the error of the node's exit result.\<close>

definition run :: "'w docker_api \<Rightarrow> node \<Rightarrow> ('w world, string option) go" where
  "run K n =
     bind_go (ext_call (ContainerWait (node_id n))
        (\<lambda>x. case dk_ContainerWait K (node_id n) x of (e, y) \<Rightarrow> (Ok e, y))) (\<lambda>e.
     ret (case e of WaitResult m \<Rightarrow> m | WaitError err \<Rightarrow> Some err))"

text \<open>The goroutine \<open>trackOutput\<close>: the demultiplexed logs are appended to every output of the spec.\<close>

definition append_output :: "bytes \<Rightarrow> os_file \<Rightarrow> fsys \<Rightarrow> fsys" where
  "append_output d h f = f\<lparr>fs_files := (fs_files f)(fpath h \<mapsto>
     (case fs_files f (fpath h) of None \<Rightarrow> [] | Some c \<Rightarrow> c) @ d)\<rparr>"

definition trackOutput :: "'w docker_api \<Rightarrow> node \<Rightarrow> ('w world, unit) go" where
  "trackOutput K n =
     bind_go (ext_call (ContainerLogs (node_id n)) (dk_ContainerLogs K (node_id n))) (\<lambda>out.
     bind_go (lift_out (dk_StdCopy K out)) (\<lambda>d.
     on_fs (modify (\<lambda>f. foldl (\<lambda>g h. append_output d h g) f (Output (opts n))))))"

section \<open>Waiting for readiness\<close>

definition defaultTimeoutDuration :: int where
  "defaultTimeoutDuration = 60000"

text \<open>
  \<open>retryFn\<close>, with the time in milliseconds since the timer was started.  When the select is entered the
  tick is still 100 ms away, so the goroutine parks, and Go's runtime gives a parked select the first
  channel that is sent to.  A tick due after the timer therefore never comes; one due at the same
  moment may come first (\<open>SelAfter\<close>) or not (\<open>SelTimer\<close>).  A delay of 100 ms between the evaluation of
  \<open>time.After\<close> and the parking, after which both channels would be ready, is not modelled.
\<close>

function retryFn :: "('w \<Rightarrow> sel_event \<times> 'w) \<Rightarrow> int \<Rightarrow> ('w world, 'a) go \<Rightarrow> int \<Rightarrow> ('w world, 'a) go" where
  "retryFn sel timeout handler t w =
     (case sel (ext w) of (ev, x) \<Rightarrow>
        case ev of
          SelWaitCh \<Rightarrow> (Fail ''node stopped'', w\<lparr>ext := x\<rparr>)
        | SelTimer \<Rightarrow> (Fail ''timeout'', w\<lparr>ext := x\<rparr>)
        | SelAfter d \<Rightarrow>
            if timeout < t + 100 then (Fail ''timeout'', w\<lparr>ext := x\<rparr>)
            else (case handler (w\<lparr>ext := x\<rparr>) of
                    (Ok a, w2) \<Rightarrow> (Ok a, w2)
                  | (Panic p, w2) \<Rightarrow> (Panic p, w2)
                  | (Fail e, w2) \<Rightarrow> retryFn sel timeout handler (t + 100 + int d) w2))"
  by pat_completeness auto
termination
  by (relation "measure (\<lambda>(sel, timeout, handler, t, w). nat (timeout - t))") auto

declare retryFn.simps [simp del]

text \<open>The closures of the specs the program builds; what they store is their result.\<close>

definition retry_handler :: "'w docker_api \<Rightarrow> node \<Rightarrow> retry \<Rightarrow> ('w world, string) go" where
  "retry_handler K n r =
     (case r of
        RetryBootnodeV5 \<Rightarrow>
          bind_go (attempt (GetLogs K n)) (\<lambda>l. lift_out (decodeEnr (case l of Inl e \<Rightarrow> Fail e | Inr s \<Rightarrow> Ok s)))
      | RetryBootnodeV4 \<Rightarrow>
          bind_go (attempt (GetLogs K n)) (\<lambda>l. lift_out (bootnodeV4_retry (case l of Inl e \<Rightarrow> Fail e | Inr s \<Rightarrow> Ok s)))
      | RetryHttp port \<Rightarrow>
          bind_go (lift_out (GetAddr n port)) (\<lambda>addr.
          bind_go (testHTTPEndpoint (dk_http_post K) addr) (\<lambda>_. ret [])))"

section \<open>Deploy\<close>

definition make_mounts :: "'w docker_api \<Rightarrow> spec \<Rightarrow> ('w world, (string \<times> string) list) go" where
  "make_mounts K spec =
     (let dirPrefix = ''node-'' @ (if Name spec \<noteq> [] then Name spec @ ''-'' else []) in
      fold_go (\<lambda>mount mm. bind_go (temp_dir (dk_rand K) ''/tmp'' dirPrefix) (\<lambda>d.
                 ret (AList.update mount d mm)))
        (Mount spec) [])"

definition place_file ::
    "'w docker_api \<Rightarrow> (string \<times> string) list \<Rightarrow> string \<times> bytes \<Rightarrow> ('w world, unit) go" where
  "place_file K mm pc =
     bind_go (ext_get (dk_range K mm)) (\<lambda>order.
     case find (\<lambda>ml. has_prefix (fst pc) (fst ml)) order of
       None \<Rightarrow> fail (''mount match for '' @ [CHR 0x27] @ fst pc @ [CHR 0x27] @ '' not found'')
     | Some ml \<Rightarrow>
         let localPath = path_join (snd ml) (trim_prefix (fst pc) (fst ml)) in
         bind_go (on_fs (os_mkdir_all (path_dir localPath))) (\<lambda>_.
         on_fs (os_write_file localPath (snd pc))))"

definition place_files :: "'w docker_api \<Rightarrow> (string \<times> string) list \<Rightarrow> spec \<Rightarrow> ('w world, unit) go" where
  "place_files K mm spec =
     bind_go (ext_get (dk_range K (Files spec))) (\<lambda>files.
     bind_go (for_each files (place_file K mm)) (\<lambda>_. ret ()))"

definition image_name :: "spec \<Rightarrow> string" where
  "image_name spec = Repository spec @ '':'' @ Tag spec"

definition ensure_image :: "'w docker_api \<Rightarrow> string \<Rightarrow> ('w world, unit) go" where
  "ensure_image K img =
     bind_go (attempt (ext_call (ImageInspect img) (dk_ImageInspect K img))) (\<lambda>r.
       case r of
         Inr _ \<Rightarrow> ret ()
       | Inl _ \<Rightarrow>
           bind_go (ext_call (ImagePull img) (dk_ImagePull K img)) (\<lambda>reader.
           on_ext (dk_CopyPull K reader)))"

definition bind_mounts :: "(string \<times> string) list \<Rightarrow> string list" where
  "bind_mounts order = map (\<lambda>ml. snd ml @ '':'' @ fst ml) order"

definition start_container ::
    "'w docker_api \<Rightarrow> spec \<Rightarrow> (string \<times> string) list \<Rightarrow> ('w world, node) go" where
  "start_container K spec mm =
     bind_go (for_each (Cmd spec) (\<lambda>c. lift_out (execCmd (dk_template K) c))) (\<lambda>cmdArgs.
     bind_go (ext_get (dk_range K mm)) (\<lambda>order.
     let config = \<lparr>cc_image = image_name spec, cc_cmd = cmdArgs, cc_labels = Labels spec,
                   cc_user = User spec, cc_entrypoint = Entrypoint spec\<rparr> in
     bind_go (wrap_err ''could not create container: ''
        (ext_call (ContainerCreate config (bind_mounts order))
           (dk_ContainerCreate K config (bind_mounts order)))) (\<lambda>i.
     bind_go (wrap_err ''could not start container: ''
        (ext_call (ContainerStart i) (dk_ContainerStart K i))) (\<lambda>_.
     bind_go (ext_call (ContainerInspect i) (dk_ContainerInspect K i)) (\<lambda>addr.
     ret \<lparr>node_id = i, opts = spec, ip = addr, mountMap = mm\<rparr>)))))"

text \<open>
  The result is the node together with what its retry closure stored.  A spec without a tag gets
  \<open>latest\<close>; Go writes that through the spec's pointer, so the node's options carry it.
\<close>

definition with_default_tag :: "spec \<Rightarrow> spec" where
  "with_default_tag s = (if Tag s = [] then WithTag ''latest'' s else s)"

definition await_ready :: "'w docker_api \<Rightarrow> node \<Rightarrow> ('w world, string) go" where
  "await_ready K n =
     (case Retry (opts n) of
        None \<Rightarrow> ret []
      | Some r \<Rightarrow> retryFn (dk_select K) defaultTimeoutDuration (retry_handler K n r) 0)"

definition Deploy :: "'w docker_api \<Rightarrow> spec \<Rightarrow> ('w world, node \<times> string) go" where
  "Deploy K s =
     (let spec = with_default_tag s in
      bind_go (make_mounts K spec) (\<lambda>mm.
      bind_go (place_files K mm spec) (\<lambda>_.
      bind_go (ensure_image K (image_name spec)) (\<lambda>_.
      bind_go (start_container K spec mm) (\<lambda>n.
      bind_go (await_ready K n) (\<lambda>stored.
      ret (n, stored)))))))"

section \<open>Lemmas\<close>

text \<open>Waiting only does what the handler does.\<close>

lemma retryFn_within:
  assumes R: "trans_rel R" and ext: "\<And>w x. R w (w\<lparr>ext := x\<rparr>)" and handler: "within R handler"
  shows "within R (retryFn sel timeout handler t)"
proof (rule withinI)
  fix w
  show "R w (snd (retryFn sel timeout handler t w))"
    using handler
  proof (induction sel timeout handler t w rule: retryFn.induct)
    case (1 sel timeout handler t w)
    obtain ev x where ev: "sel (ext w) = (ev, x)" by (cases "sel (ext w)")
    let ?w1 = "w\<lparr>ext := x\<rparr>"
    obtain r w2 where h: "handler ?w1 = (r, w2)" by (cases "handler ?w1")
    from "1.prems" h have "R ?w1 w2" by (rule withinD)
    with ext have w2: "R w w2" by (blast intro: trans_rel.rel_trans [OF R])
    show ?case
    proof (cases "\<exists>d e. ev = SelAfter d \<and> \<not> timeout < t + 100 \<and> r = Fail e")
      case True
      then obtain d e where d: "ev = SelAfter d" "\<not> timeout < t + 100" "r = Fail e" by blast
      with 1 ev h have "R w2 (snd (retryFn sel timeout handler (t + 100 + int d) w2))" by simp
      with w2 have "R w (snd (retryFn sel timeout handler (t + 100 + int d) w2))"
        by (rule trans_rel.rel_trans [OF R])
      with ev h d show ?thesis by (subst retryFn.simps) simp
    next
      case False
      with ev h ext w2 show ?thesis
        by (subst retryFn.simps) (auto simp: Let_def split: sel_event.split outcome.split)
    qed
  qed
qed

lemma await_ready_within:
  assumes R: "trans_rel R" and ext: "\<And>w x. R w (w\<lparr>ext := x\<rparr>)"
    and logs: "\<And>f :: ('w, bytes) go. within R (ext_call (ContainerLogs (node_id n)) f)"
    and post: "\<And>u (f :: ('w, unit) go). within R (ext_call (HttpPost u) f)"
  shows "within R (await_ready K n)"
proof -
  note all = trans_rel.within_all [OF R]
  have "within R (retry_handler K n r)" for r
    unfolding retry_handler_def GetLogs_def testHTTPEndpoint_def
    by (cases r) (simp_all only: retry.case, (intro all logs post)+)
  then show ?thesis
    unfolding await_ready_def by (intro all retryFn_within [OF R ext])
qed

lemma set_ext_grows: "world_grows w (w\<lparr>ext := x\<rparr>)"
  by (simp add: world_grows_def fs_grows.rel_refl)

lemma set_ext_calls: "calls_in P w (w\<lparr>ext := x\<rparr>)"
  by (intro calls_in_same) simp

lemma await_ready_grows [within_rules]: "within world_grows (await_ready K n)"
  by (intro await_ready_within world_grows.trans_rel_axioms set_ext_grows ext_call_grows)

text \<open>The three phases before the container exists, and the phase that creates it.\<close>

lemma prepare_grows [within_rules]:
  "within world_grows (make_mounts K s)" "within world_grows (place_files K mm s)"
  "within world_grows (ensure_image K img)"
  unfolding make_mounts_def place_files_def ensure_image_def Let_def place_file_def
  by (intro world_grows.within_all within_rules on_fs_grows)+

lemma prepare_calls [calls_rules]:
  "within (calls_in P) (make_mounts K s)" "within (calls_in P) (place_files K mm s)"
  unfolding make_mounts_def place_files_def Let_def place_file_def
  by (intro calls_in.within_all calls_rules)+

lemma ensure_image_calls:
  "within (calls_in (\<lambda>c. c = ImageInspect img \<or> c = ImagePull img)) (ensure_image K img)"
  unfolding ensure_image_def by (intro calls_in.within_all calls_rules) simp_all

lemma start_container_grows [within_rules]: "within world_grows (start_container K s mm)"
  unfolding start_container_def Let_def by (intro world_grows.within_all within_rules)

definition node_config :: "spec \<Rightarrow> string list \<Rightarrow> container_config" where
  "node_config s args = \<lparr>cc_image = image_name s, cc_cmd = args, cc_labels = Labels s,
     cc_user = User s, cc_entrypoint = Entrypoint s\<rparr>"

text \<open>The node is the container the daemon created, at the address the daemon reported.\<close>

definition created :: "'w docker_api \<Rightarrow> container_config \<Rightarrow> string list \<Rightarrow> node \<Rightarrow> bool" where
  "created K config binds n \<longleftrightarrow> (\<exists>x y. dk_ContainerCreate K config binds x = (Ok (node_id n), y))
     \<and> (\<exists>x y. dk_ContainerInspect K (node_id n) x = (Ok (ip n), y))"

lemma start_container_Ok:
  assumes "start_container K s mm w = (Ok n, v)"
  shows "opts n = s \<and> mountMap n = mm \<and> (\<exists>args order x.
    list_all2 (\<lambda>c a. execCmd (dk_template K) c = Ok a) (Cmd s) args \<and> order = fst (dk_range K mm x) \<and>
    created K (node_config s args) (bind_mounts order) n \<and>
    trace v = trace w @ [ContainerCreate (node_config s args) (bind_mounts order),
      ContainerStart (node_id n), ContainerInspect (node_id n)])"
proof -
  from assms obtain args w1 order w2 i w3 u w4 addr where
    args: "for_each (Cmd s) (\<lambda>c. lift_out (execCmd (dk_template K) c)) w = (Ok args, w1)"
    and order: "ext_get (dk_range K mm) w1 = (Ok order, w2)"
    and create: "ext_call (ContainerCreate (node_config s args) (bind_mounts order))
        (dk_ContainerCreate K (node_config s args) (bind_mounts order)) w2 = (Ok i, w3)"
    and start: "ext_call (ContainerStart i) (dk_ContainerStart K i) w3 = (Ok u, w4)"
    and inspect: "ext_call (ContainerInspect i) (dk_ContainerInspect K i) w4 = (Ok addr, v)"
    and n: "n = \<lparr>node_id = i, opts = s, ip = addr, mountMap = mm\<rparr>"
    unfolding start_container_def Let_def node_config_def by fastforce
  have "w1 = w" and args': "list_all2 (\<lambda>c a. execCmd (dk_template K) c = Ok a) (Cmd s) args"
    using args unfolding for_each_lift_out by simp_all
  with order create start inspect have "trace v = trace w @
      [ContainerCreate (node_config s args) (bind_mounts order), ContainerStart i, ContainerInspect i]"
    by (auto dest!: ext_call_trace ext_get_trace)
  moreover have "created K (node_config s args) (bind_mounts order) n"
    using create inspect n by (auto simp: created_def ext_call_def split: prod.splits)
  moreover have "order = fst (dk_range K mm (ext w1))"
    using order by (auto simp: ext_get_def split: prod.splits)
  ultimately show ?thesis using n args' by auto
qed

lemma with_default_tag_same [simp]:
  "Name (with_default_tag s) = Name s" "Labels (with_default_tag s) = Labels s"
  "Retry (with_default_tag s) = Retry s" "Mount (with_default_tag s) = Mount s"
  "Files (with_default_tag s) = Files s" "Cmd (with_default_tag s) = Cmd s"
  "Output (with_default_tag s) = Output s" "Repository (with_default_tag s) = Repository s"
  by (simp_all add: with_default_tag_def WithTag_def)

lemma Deploy_OkE:
  assumes "Deploy K s w = (Ok (n, c), v)"
  obtains mm w1 u w2 u' w3 w4 where
    "make_mounts K (with_default_tag s) w = (Ok mm, w1)"
    "place_files K mm (with_default_tag s) w1 = (Ok u, w2)"
    "ensure_image K (image_name (with_default_tag s)) w2 = (Ok u', w3)"
    "start_container K (with_default_tag s) mm w3 = (Ok n, w4)"
    "await_ready K n w4 = (Ok c, v)"
  using assms unfolding Deploy_def Let_def by fastforce

definition readiness_call :: "node \<Rightarrow> call \<Rightarrow> bool" where
  "readiness_call n c \<longleftrightarrow> c = ContainerLogs (node_id n) \<or> (\<exists>u. c = HttpPost u)"

lemma await_ready_calls: "within (calls_in (readiness_call n)) (await_ready K n)"
  by (intro await_ready_within calls_in.trans_rel_axioms set_ext_calls ext_call_calls)
     (auto simp: readiness_call_def)

text \<open>The image is looked up, and pulled exactly if the lookup fails.\<close>

definition looked_up :: "'w docker_api \<Rightarrow> string \<Rightarrow> call list \<Rightarrow> bool" where
  "looked_up K img calls \<longleftrightarrow>
     calls = [ImageInspect img] \<and> (\<exists>x y. dk_ImageInspect K img x = (Ok (), y))
   \<or> calls = [ImageInspect img, ImagePull img] \<and> (\<exists>x e y. dk_ImageInspect K img x = (Fail e, y))
       \<and> (\<exists>x out y. dk_ImagePull K img x = (Ok out, y))"

lemma ensure_image_Ok:
  assumes "ensure_image K img w = (Ok u, v)"
  shows "\<exists>calls. trace v = trace w @ calls \<and> looked_up K img calls"
proof (cases "dk_ImageInspect K img (ext w)")
  case (Pair r x)
  show ?thesis
  proof (cases r)
    case (Ok a)
    with Pair assms show ?thesis
      by (auto simp: ensure_image_def bind_go_def attempt_def ext_call_def looked_up_def)
  next
    case (Fail e)
    with Pair assms show ?thesis
      by (auto simp: ensure_image_def bind_go_def attempt_def ext_call_def looked_up_def on_ext_def on_part_def
          split: outcome.splits prod.splits) blast+
  next
    case (Panic p)
    with Pair assms show ?thesis by (auto simp: ensure_image_def bind_go_def attempt_def ext_call_def)
  qed
qed

text \<open>Every mount of the spec, and nothing else, is a key of the mount map.\<close>

lemma make_mounts_keys:
  assumes "make_mounts K s w = (Ok mm, v)"
  shows "distinct (map fst mm) \<and> fst ` set mm = set (Mount s)"
proof -
  define f :: "string \<Rightarrow> (string \<times> string) list \<Rightarrow> ('a world, (string \<times> string) list) go"
    where "f = (\<lambda>mount mm. bind_go (temp_dir (dk_rand K) ''/tmp''
      (''node-'' @ (if Name s \<noteq> [] then Name s @ ''-'' else []))) (\<lambda>d. ret (AList.update mount d mm)))"
  have f: "\<exists>d. acc' = AList.update m d acc" if "f m acc u = (Ok acc', u')" for m acc acc' u u'
    using that by (auto simp: f_def)
  have "distinct (map fst res) \<and> fst ` set res = fst ` set acc \<union> set ms"
    if "fold_go f ms acc u = (Ok res, v)" and "distinct (map fst acc)" for ms acc res u
    using that
  proof (induction ms arbitrary: acc u)
    case (Cons m ms)
    from Cons.prems(1) obtain acc' u' where "f m acc u = (Ok acc', u')" and rest: "fold_go f ms acc' u' = (Ok res, v)"
      by auto
    then obtain d where "acc' = AList.update m d acc" using f by blast
    with Cons.IH [OF rest] Cons.prems(2) show ?case
      by (auto simp: distinct_update dom_update)
  qed simp
  from this [of "Mount s" "[]" w mm] show ?thesis
    using assms by (simp add: make_mounts_def Let_def f_def)
qed

text \<open>
  C11. A successful Deploy looks the image up, pulls it exactly if the lookup failed, then
  creates one container with the expanded command, the labels and one bind mount per entry of
  the mount map, starts it and inspects it, in that order, and after that only probes its
  readiness; the returned node has the id the daemon gave the container, the address the daemon
  reported for it, the spec (with tag latest if none was given) and a directory for each mount
  of the spec and for nothing else. The one hypothesis: the enumeration of a Go map visits each
  entry once.
\<close>

theorem Deploy_protocol:
  assumes "Deploy K s w = (Ok (n, stored), v)" and "\<And>m x. mset (fst (dk_range K m x)) = mset m"
  shows "opts n = with_default_tag s
    \<and> distinct (map fst (mountMap n)) \<and> fst ` set (mountMap n) = set (Mount s)
    \<and> (\<exists>pre args order post.
      trace v = trace w @ pre @
        [ContainerCreate (node_config (with_default_tag s) args) (bind_mounts order),
         ContainerStart (node_id n), ContainerInspect (node_id n)] @ post
      \<and> looked_up K (image_name (with_default_tag s)) pre
      \<and> list_all2 (\<lambda>c a. execCmd (dk_template K) c = Ok a) (Cmd s) args
      \<and> mset order = mset (mountMap n)
      \<and> created K (node_config (with_default_tag s) args) (bind_mounts order) n
      \<and> list_all (readiness_call n) post)"
proof -
  let ?s = "with_default_tag s"
  from assms(1) obtain mm w1 u w2 u' w3 w4 where
    mounts: "make_mounts K ?s w = (Ok mm, w1)"
    and files: "place_files K mm ?s w1 = (Ok u, w2)"
    and image: "ensure_image K (image_name ?s) w2 = (Ok u', w3)"
    and start: "start_container K ?s mm w3 = (Ok n, w4)"
    and ready: "await_ready K n w4 = (Ok stored, v)"
    by (rule Deploy_OkE)
  have "trace w2 = trace w"
    using mounts files by (auto dest!: silentD [rotated, OF _ prepare_calls(1)]
        silentD [rotated, OF _ prepare_calls(2)])
  moreover obtain pre where "trace w3 = trace w2 @ pre" and pre: "looked_up K (image_name ?s) pre"
    using ensure_image_Ok [OF image] by blast
  moreover obtain args order x where n: "opts n = ?s" "mountMap n = mm"
    and args: "list_all2 (\<lambda>c a. execCmd (dk_template K) c = Ok a) (Cmd s) args"
    and order: "order = fst (dk_range K mm x)"
    and made: "created K (node_config ?s args) (bind_mounts order) n"
    and "trace w4 = trace w3 @ [ContainerCreate (node_config ?s args) (bind_mounts order),
      ContainerStart (node_id n), ContainerInspect (node_id n)]"
    using start_container_Ok [OF start] by auto
  moreover obtain post where "trace v = trace w4 @ post" and post: "list_all (readiness_call n) post"
    using withinD [OF await_ready_calls ready] unfolding calls_in_def by blast
  moreover have "mset order = mset mm" unfolding order by (rule assms(2))
  ultimately show ?thesis
    using pre args made post make_mounts_keys [OF mounts] by auto
qed

section \<open>The runtime the server deploys with\<close>

definition no_stop :: "call \<Rightarrow> bool" where
  "no_stop c \<longleftrightarrow> (\<forall>i. c \<noteq> ContainerStop i)"

locale deployer =
  fixes deploy :: "spec \<Rightarrow> ('w world, node \<times> string) go"
  assumes deploy_identity:
      "deploy s w = (Ok (n, c), v) \<Longrightarrow> Name (opts n) = Name s \<and> Labels (opts n) = Labels s"
    and deploy_grows: "within world_grows (deploy s)"
    and deploy_no_stop: "within (calls_in no_stop) (deploy s)"

lemma Deploy_grows [within_rules]: "within world_grows (Deploy K s)"
  unfolding Deploy_def Let_def by (intro world_grows.within_all within_rules)

lemma start_container_calls [calls_rules]: "within (calls_in no_stop) (start_container K s mm)"
  unfolding start_container_def Let_def
  by (intro calls_in.within_all calls_rules) (simp_all add: no_stop_def)

lemma prepare_no_stop [calls_rules]:
  "within (calls_in no_stop) (ensure_image K img)" "within (calls_in no_stop) (await_ready K n)"
  by (rule within_calls_mono [OF ensure_image_calls], auto simp: no_stop_def)
     (rule within_calls_mono [OF await_ready_calls], auto simp: no_stop_def readiness_call_def)

lemma Deploy_no_stop: "within (calls_in no_stop) (Deploy K s)"
  unfolding Deploy_def Let_def
  by (intro calls_in.within_all calls_rules)

interpretation docker: deployer "Deploy K" for K :: "'w docker_api"
proof unfold_locales
  show "Name (opts n) = Name s \<and> Labels (opts n) = Labels s"
    if "Deploy K s w = (Ok (n, c), v)" for s w n c v
    using that
    by (auto elim!: Deploy_OkE dest!: start_container_Ok)
qed (rule Deploy_grows Deploy_no_stop)+

section \<open>Bounded waiting\<close>

text \<open>If one attempt sends at most \<open>k\<close> requests, waiting sends at most \<open>k\<close> per 100 ms of its budget.\<close>

lemma retryFn_attempts:
  assumes "\<And>w. length (trace (snd (handler w))) \<le> length (trace w) + k"
  shows "length (trace (snd (retryFn sel timeout handler t w)))
    \<le> length (trace w) + k * nat ((timeout - t) div 100)"
  using assms
proof (induction sel timeout handler t w rule: retryFn.induct)
  case (1 sel timeout handler t w)
  obtain ev x where ev: "sel (ext w) = (ev, x)" by (cases "sel (ext w)")
  let ?w1 = "w\<lparr>ext := x\<rparr>"
  obtain r w2 where h: "handler ?w1 = (r, w2)" by (cases "handler ?w1")
  from "1.prems" [of ?w1] h have w2: "length (trace w2) \<le> length (trace w) + k" by simp
  show ?case
  proof (cases "\<exists>d. ev = SelAfter d \<and> \<not> timeout < t + 100")
    case False
    with ev show ?thesis
      by (subst retryFn.simps) (auto simp: Let_def split: sel_event.split)
  next
    case True
    then obtain d where d: "ev = SelAfter d" "\<not> timeout < t + 100" by blast
    have "(timeout - t) div 100 = (timeout - (t + 100)) div 100 + 1"
      using div_add_self2 [of 100 "timeout - (t + 100)"] by simp
    moreover have "0 \<le> (timeout - (t + 100)) div 100" using d by simp
    ultimately have room: "Suc (nat ((timeout - (t + 100)) div 100)) = nat ((timeout - t) div 100)"
      by (simp only: nat_add_distrib)
    show ?thesis
    proof (cases "\<exists>e. r = Fail e")
      case False
      have "k \<le> k * nat ((timeout - t) div 100)" unfolding room [symmetric] by simp
      with w2 have "length (trace w2) \<le> length (trace w) + k * nat ((timeout - t) div 100)"
        by (rule order_trans [OF _ add_left_mono])
      moreover have "snd (retryFn sel timeout handler t w) = w2"
        using False ev d h by (subst retryFn.simps) (auto simp: Let_def split: outcome.split)
      ultimately show ?thesis by simp
    next
      case True
      then obtain e where e: "r = Fail e" by blast
      let ?rest = "retryFn sel timeout handler (t + 100 + int d) w2"
      from 1 ev d h e have "length (trace (snd ?rest))
          \<le> length (trace w2) + k * nat ((timeout - (t + 100 + int d)) div 100)"
        by simp
      also have "\<dots> \<le> length (trace w2) + k * nat ((timeout - (t + 100)) div 100)"
        by (intro add_left_mono mult_le_mono2 nat_mono zdiv_mono1) simp_all
      also have "\<dots> \<le> length (trace w) + k + k * nat ((timeout - (t + 100)) div 100)"
        using w2 by (rule add_right_mono)
      also have "\<dots> = length (trace w) + k * nat ((timeout - t) div 100)"
        unfolding room [symmetric] mult_Suc_right by (rule add.assoc)
      finally have "length (trace (snd ?rest)) \<le> length (trace w) + k * nat ((timeout - t) div 100)" .
      moreover have "retryFn sel timeout handler t w = ?rest"
        using ev d h e by (subst retryFn.simps) (simp add: Let_def)
      ultimately show ?thesis by simp
    qed
  qed
qed

lemma retryFn_attempts_const:
  "(\<And>w. length (trace (snd (handler w))) \<le> length (trace w) + 1) \<Longrightarrow>
     length (trace (snd (retryFn sel defaultTimeoutDuration handler 0 w))) \<le> length (trace w) + 600"
  using retryFn_attempts [of handler 1 sel defaultTimeoutDuration 0 w]
  by (simp add: defaultTimeoutDuration_def)

section \<open>Expanding commands\<close>

lemma parse_text:
  "CHR ''{'' \<notin> set xs \<Longrightarrow>
     parse_template (xs @ ys) = map_option (\<lambda>segs. map (\<lambda>c. Text [c]) xs @ segs) (parse_template ys)"
  by (induction xs; cases "parse_template ys") (auto simp: has_prefix_def)

lemma exec_text:
  "exec_segments other (map (\<lambda>c. Text [c]) xs @ segs) =
     (case exec_segments other segs of Ok r \<Rightarrow> Ok (xs @ r) | err \<Rightarrow> err)"
  by (induction xs) (auto split: outcome.split)

lemma execCmd_text:
  "CHR ''{'' \<notin> set xs \<Longrightarrow>
     execCmd other (xs @ ys) = (case execCmd other ys of Ok r \<Rightarrow> Ok (xs @ r) | err \<Rightarrow> err)"
  by (auto simp: execCmd_def parse_text exec_text split: option.split)

lemma execCmd_Nil [simp]: "execCmd other [] = Ok []"
  by (simp add: execCmd_def)

lemma execCmd_plain: "CHR ''{'' \<notin> set xs \<Longrightarrow> execCmd other xs = Ok xs"
  using execCmd_text [of xs other "[]"] by simp

definition port_body :: "string \<Rightarrow> string" where
  "port_body p = '' Port '' @ [dquote] @ p @ [dquote] @ '' ''"

lemma split_action_text:
  "CHR ''}'' \<notin> set b \<Longrightarrow> split_action (b @ ''}}'' @ rest) = Some (b, rest)"
  by (induction b) (auto simp: has_prefix_def)

lemma parse_port:
  assumes "CHR ''}'' \<notin> set p"
  shows "parse_template (port_action p @ ys) =
    map_option (\<lambda>segs. Action (port_body p) # segs) (parse_template ys)"
proof -
  have "port_action p @ ys = ''{{'' @ port_body p @ ''}}'' @ ys"
    by (simp add: port_action_def port_body_def)
  moreover have "split_action (port_body p @ ''}}'' @ ys) = Some (port_body p, ys)"
    using assms by (intro split_action_text) (simp add: port_body_def dquote_def)
  ultimately show ?thesis by (simp add: has_prefix_def)
qed

lemma port_call_body:
  assumes "dquote \<notin> set p" and "backslash \<notin> set p"
  shows "port_call (port_body p) = Some p"
proof -
  have "takeWhile (\<lambda>c. c \<noteq> dquote) (p @ dquote # r) = p"
    and "dropWhile (\<lambda>c. c \<noteq> dquote) (p @ dquote # r) = dquote # r" for r
    using assms(1) by (induction p) auto
  with assms(2) show ?thesis
    by (simp add: port_call_def port_body_def skip_spaces_def has_prefix_def Let_def)
       (simp add: dquote_def)
qed

lemma defPorts_names:
  "map_of defPorts p = Some n \<Longrightarrow> CHR ''}'' \<notin> set p \<and> dquote \<notin> set p \<and> backslash \<notin> set p"
  by (auto simp: defPorts_def dquote_def backslash_def split: if_splits)

lemma execCmd_port:
  assumes "map_of defPorts p = Some n"
  shows "execCmd other (port_action p @ ys) =
    (case execCmd other ys of Ok r \<Rightarrow> Ok (itoa n @ r) | err \<Rightarrow> err)"
proof -
  from assms have p: "CHR ''}'' \<notin> set p" "dquote \<notin> set p" "backslash \<notin> set p"
    by (auto dest: defPorts_names)
  then have "run_action other (port_body p) = Ok (itoa n)"
    using assms by (simp add: run_action_def port_call_body)
  with p show ?thesis
    by (auto simp: execCmd_def parse_port split: option.split)
qed

lemma execCmd_port_only: "map_of defPorts p = Some n \<Longrightarrow> execCmd other (port_action p) = Ok (itoa n)"
  using execCmd_port [of p n other "[]"] by simp

lemma node_ports [simp]:
  "map_of defPorts NodePortEth1Http = Some 8545" "map_of defPorts NodePortEth1P2P = Some 30303"
  "map_of defPorts NodePortEth1AuthRPC = Some 8547" "map_of defPorts NodePortP2P = Some 20202"
  "map_of defPorts NodePortHttp = Some 9545" "map_of defPorts NodePortPrysmGrpc = Some 9546"
  "map_of defPorts NodePortBootnode = Some 30303"
  by (simp_all add: port_defs defPorts_def)

text \<open>
  The contract of \<open>GetAddr\<close> that the factories use: for every port constant of the program the address
  is a URL on the node's IP, so no call of the program panics.
\<close>

definition program_ports :: "string list" where
  "program_ports = [NodePortEth1Http, NodePortEth1P2P, NodePortEth1AuthRPC, NodePortP2P,
     NodePortHttp, NodePortPrysmGrpc, NodePortBootnode]"

locale addressed_node =
  fixes get_addr :: "string \<Rightarrow> string outcome" and host :: string and port_of :: "string \<Rightarrow> nat"
  assumes get_addr_known:
    "p \<in> set program_ports \<Longrightarrow> get_addr p = Ok (''http://'' @ host @ '':'' @ itoa (port_of p))"
begin

text \<open>Prysm's client gets the bare host and port.\<close>

lemma rpc_provider:
  "p \<in> set program_ports \<Longrightarrow>
     (case get_addr p of Ok a \<Rightarrow> trim_prefix a ''http://'' | _ \<Rightarrow> []) = host @ '':'' @ itoa (port_of p)"
  using trim_prefix_append [of "''http://''"] by (simp add: get_addr_known)

lemma never_panics: "p \<in> set program_ports \<Longrightarrow> get_addr p \<noteq> Panic q"
  by (simp add: get_addr_known)

end

interpretation node_addr: addressed_node "GetAddr n" "ip n" "\<lambda>p. the (map_of defPorts p)" for n
  by unfold_locales (auto simp: program_ports_def GetAddr_def)

section \<open>A concrete daemon\<close>

text \<open>
  Every request succeeds; container \<open>n\<close> is called \<open>c<n>\<close>; the logs are those of a v5 bootnode.
  \<open>deaf_docker\<close> is the same daemon with an HTTP endpoint nobody answers on.
\<close>

definition sample_docker :: "nat docker_api" where
  "sample_docker = \<lparr>
     dk_NewClient = (\<lambda>n. (Ok (), n)),
     dk_ImageInspect = (\<lambda>i n. (Ok (), n)),
     dk_ImagePull = (\<lambda>i n. (Ok [], n)),
     dk_CopyPull = (\<lambda>b n. (Ok (), n)),
     dk_ContainerCreate = (\<lambda>c b n. (Ok (CHR ''c'' # itoa n), Suc n)),
     dk_ContainerStart = (\<lambda>i n. (Ok (), n)),
     dk_ContainerInspect = (\<lambda>i n. (Ok ''172.17.0.2'', n)),
     dk_ContainerStop = (\<lambda>i n. (Ok (), n)),
     dk_ContainerLogs = (\<lambda>i n. (Ok (enr_marker @ ''-x'' @ [dquote, newline]), n)),
     dk_ContainerWait = (\<lambda>i n. (WaitResult None, n)),
     dk_StdCopy = Ok,
     dk_http_post = (\<lambda>u n. (Ok (), n)),
     dk_rand = (\<lambda>n. (n, Suc n)),
     dk_select = (\<lambda>n. (SelAfter 0, n)),
     dk_range = (\<lambda>m n. (m, n)),
     dk_template = (\<lambda>b. Fail ''template'')\<rparr>"

definition deaf_docker :: "nat docker_api" where
  "deaf_docker = sample_docker\<lparr>dk_http_post := (\<lambda>u n. (Fail ''connection refused'', n)),
     dk_select := (\<lambda>n. (if n < 5 then SelAfter 0 else SelTimer, Suc n))\<rparr>"

section \<open>Properties\<close>

theorem Deploy_protocol_witness:
  "\<exists>n c v d. Deploy sample_docker (chain empty_spec [WithName ''n'', WithContainer ''img'', WithMount ''/data'',
      WithCmd [''--port'', port_action NodePortP2P], WithRetry RetryBootnodeV5]) sample_world
      = (Ok (n, c), v)
    \<and> Tag (opts n) = ''latest'' \<and> c = ''enr:-x'' \<and> mountMap n = [(''/data'', d)] \<and> ip n = ''172.17.0.2'' \<and> (\<exists>args post.
      trace v = [ImageInspect ''img:latest'', ContainerCreate (node_config (opts n) args) [d @ '':/data''],
        ContainerStart (node_id n), ContainerInspect (node_id n)] @ post)"
proof -
  define s where "s = chain empty_spec [WithName ''n'', WithContainer ''img'', WithMount ''/data'',
      WithCmd [''--port'', port_action NodePortP2P], WithRetry RetryBootnodeV5]"
  obtain r v where run: "Deploy sample_docker s sample_world = (r, v)"
    by (cases "Deploy sample_docker s sample_world")
  have "case fst (Deploy sample_docker s sample_world) of Ok nc \<Rightarrow> snd nc = ''enr:-x'' | _ \<Rightarrow> False"
    unfolding s_def by code_simp
  then obtain n where r: "r = Ok (n, ''enr:-x'')"
    using run by (auto split: outcome.splits)
  have spec: "Tag (with_default_tag s) = ''latest''" "image_name (with_default_tag s) = ''img:latest''" "Mount s = [''/data'']"
    unfolding s_def by code_simp+
  have docker: "mset (fst (dk_range sample_docker m x)) = mset m" "dk_ImageInspect sample_docker i x = (Ok (), x)"
    "dk_ContainerInspect sample_docker i x = (Ok ''172.17.0.2'', x)" for m x i
    by (simp_all add: sample_docker_def)
  from Deploy_protocol [OF run [unfolded r] docker(1)] obtain pre args order post where
    n: "opts n = with_default_tag s" "distinct (map fst (mountMap n))" "fst ` set (mountMap n) = {''/data''}"
    and trace: "trace v = trace sample_world @ pre @ [ContainerCreate (node_config (with_default_tag s) args) (bind_mounts order),
         ContainerStart (node_id n), ContainerInspect (node_id n)] @ post"
    and pre: "looked_up sample_docker ''img:latest'' pre"
    and order: "mset order = mset (mountMap n)"
    and made: "created sample_docker (node_config (with_default_tag s) args) (bind_mounts order) n"
    unfolding spec by auto
  obtain d where d: "mountMap n = [(''/data'', d)]"
  proof (cases "mountMap n")
    case (Cons m ms)
    with n(2,3) have "ms = []" by (cases ms) auto
    with Cons n(3) that show ?thesis by (cases m) auto
  qed (use n(3) in simp)
  have "pre = [ImageInspect ''img:latest'']" using pre by (simp add: looked_up_def docker(2))
  moreover have "bind_mounts order = [d @ '':/data'']" using order by (simp add: d bind_mounts_def)
  moreover have "ip n = ''172.17.0.2''" using made by (simp add: created_def docker(3))
  ultimately have "trace v = [ImageInspect ''img:latest'', ContainerCreate (node_config (opts n) args) [d @ '':/data''],
        ContainerStart (node_id n), ContainerInspect (node_id n)] @ post" and "ip n = ''172.17.0.2''"
    using trace n(1) by (simp_all add: sample_world_def)
  moreover have "Tag (opts n) = ''latest''" unfolding n(1) by (rule spec(1))
  ultimately show ?thesis using run d unfolding r s_def by blast
qed

text \<open>
  C27. Deploy never asks Docker to stop a container, whatever its outcome: a container whose
  readiness check fails keeps running.
\<close>

theorem Deploy_never_stops_containers:
  assumes "Deploy K s w = (r, v)"
  shows "\<exists>calls. trace v = trace w @ calls \<and> (\<forall>i. ContainerStop i \<notin> set calls)"
  using withinD [OF docker.deploy_no_stop assms]
  by (auto simp: calls_in_def no_stop_def list_all_iff)

theorem Deploy_never_stops_containers_witness:
  "\<exists>v calls. Deploy deaf_docker (chain empty_spec [WithName ''eth1'', WithRetry (RetryHttp NodePortEth1Http)])
      sample_world = (Fail ''timeout'', v)
    \<and> trace v = calls \<and> ContainerStart ''c0'' \<in> set calls \<and> (\<forall>i. ContainerStop i \<notin> set calls)"
proof -
  let ?s = "chain empty_spec [WithName ''eth1'', WithRetry (RetryHttp NodePortEth1Http)]"
  obtain r v where run: "Deploy deaf_docker ?s sample_world = (r, v)"
    by (cases "Deploy deaf_docker ?s sample_world")
  have "fst (Deploy deaf_docker ?s sample_world) = Fail ''timeout''" by code_simp
  moreover have "ContainerStart ''c0'' \<in> set (trace (snd (Deploy deaf_docker ?s sample_world)))"
    by code_simp
  moreover have "trace sample_world = []" by (simp add: sample_world_def)
  ultimately show ?thesis
    using Deploy_never_stops_containers [OF run] run by auto
qed

text \<open>
  C26. Waiting for readiness makes at most 600 requests: one per 100 ms tick within the one-
  minute timeout.
\<close>

theorem await_ready_bounded:
  "length (trace (snd (await_ready K n w))) \<le> length (trace w) + 600"
proof (cases "Retry (opts n)")
  case None
  then show ?thesis by (simp add: await_ready_def)
next
  case (Some r)
  have "length (trace (snd (retry_handler K n r u))) \<le> length (trace u) + 1" for u
    by (cases r)
       (auto simp: retry_handler_def GetLogs_def testHTTPEndpoint_def ext_call_def attempt_def
         bind_go_def split: outcome.splits prod.splits sum.splits)
  then show ?thesis using Some by (simp add: await_ready_def retryFn_attempts_const)
qed

text \<open>
  C37. The v4 bootnode counts as ready with an empty enode when its log request fails or its
  first log line is still empty.
\<close>

theorem bootnodeV4_ready_at_once:
  assumes "dk_ContainerLogs K (node_id n) (ext w) = (r, x)"
    and "r = Fail e \<or> (\<exists>out logs. r = Ok out \<and> dk_StdCopy K out = Ok logs \<and> split_on newline logs ! 0 = [])"
  shows "fst (retry_handler K n RetryBootnodeV4 w) = Ok []"
proof -
  have empty: "bootnodeV4_retry (Ok logs) = Ok []" if "split_on newline logs ! 0 = []" for logs
    using that by (cases "split_on newline logs") (auto simp: bootnodeV4_retry_def)
  show ?thesis
    using assms empty [of "[]"] empty
    by (auto simp: retry_handler_def GetLogs_def ext_call_def attempt_def bind_go_def)
qed

theorem bootnodeV4_ready_at_once_witness:
  "fst (retry_handler (sample_docker\<lparr>dk_ContainerLogs := (\<lambda>i n. (Fail ''no daemon'', n))\<rparr>)
     \<lparr>node_id = ''c0'', opts = NewBootnodeV4, ip = [], mountMap = []\<rparr> RetryBootnodeV4 sample_world) = Ok []"
  by (rule bootnodeV4_ready_at_once [where r = "Fail ''no daemon''" and x = 0])
     (simp_all add: sample_docker_def sample_world_def)

text \<open>Text that expands to \<open>t\<close> wherever it stands in a command.\<close>

definition expands :: "(string \<Rightarrow> string outcome) \<Rightarrow> string \<Rightarrow> string \<Rightarrow> bool" where
  "expands other s t \<longleftrightarrow> (\<forall>ys. execCmd other (s @ ys) =
     (case execCmd other ys of Ok r \<Rightarrow> Ok (t @ r) | err \<Rightarrow> err))"

lemma expands_plain: "CHR ''{'' \<notin> set s \<Longrightarrow> expands other s s"
  by (simp add: expands_def execCmd_text)

lemma expands_port: "map_of defPorts p = Some n \<Longrightarrow> expands other (port_action p) (itoa n)"
  by (simp add: expands_def execCmd_port)

lemma expands_append: "expands other s t \<Longrightarrow> expands other s' t' \<Longrightarrow> expands other (s @ s') (t @ t')"
  by (auto simp: expands_def split: outcome.split)

lemma expands_execCmd: "expands other s t \<Longrightarrow> execCmd other s = Ok t"
  unfolding expands_def by (drule spec [of _ "[]"]) simp

lemma expands_join:
  "CHR ''{'' \<notin> set sep \<Longrightarrow> list_all2 (expands other) cs ts \<Longrightarrow>
     expands other (join_strings sep cs) (join_strings sep ts)"
proof (induction sep cs arbitrary: ts rule: join_strings.induct)
  case (1 sep)
  then show ?case by (auto intro: expands_plain)
next
  case (2 sep x)
  then show ?case by (auto simp: list_all2_Cons1)
next
  case (3 sep x y ys)
  then obtain u v vs where ts: "ts = u # v # vs" and u: "expands other x u"
    and rest: "expands other (join_strings sep (y # ys)) (join_strings sep (v # vs))"
    by (auto simp: list_all2_Cons1)
  from u expands_append [OF expands_plain [OF "3.prems"(1)] rest]
  show ?case unfolding ts by (auto intro: expands_append)
qed

lemmas expand_rules = expands_plain expands_port expands_execCmd

lemmas command_words = lighthouse_beacon_cmd_def prysm_beacon_cmd_def teku_beacon_cmd_def
  bootnode_v5_cmd_def

lemma list_all2_choice: "(\<And>x. x \<in> set xs \<Longrightarrow> \<exists>y. P x y) \<Longrightarrow> \<exists>ys. list_all2 P xs ys"
proof (induction xs)
  case (Cons x xs)
  then obtain y ys where "P x y" and "list_all2 P xs ys" by (meson list.set_intros)
  then have "list_all2 P (x # xs) (y # ys)" by simp
  then show ?case by blast
qed auto



text \<open>The words of the execution node's command, each with its expansion.\<close>

lemma eth1_words:
  assumes "CHR ''{'' \<notin> set (ec_Bootnode cfg)"
    and "\<And>key. ec_Key cfg = Some key \<Longrightarrow> CHR ''{'' \<notin> set (address_String C (wallet_Address C key))"
  shows "\<exists>words. list_all2 (expands other) (eth1_cmd C cfg) words"
proof (rule list_all2_choice)
  fix c
  assume "c \<in> set (eth1_cmd C cfg)"
  with assms have "CHR ''{'' \<notin> set c \<or>
      c \<in> port_action ` {NodePortEth1P2P, NodePortEth1Http, NodePortEth1AuthRPC}"
    by (auto simp: eth1_cmd_def eth1_base_cmd_def eth1_miner_cmd_def dquote_def
        split: if_splits option.splits)
  then show "\<exists>a. expands other c a"
    using expands_plain expands_port node_ports by blast
qed



end
