(* ===== verification/LogDir.thy ===== *)
theory LogDir
  imports GoWorld
begin

text \<open>
  The log directory of the server (type \<open>logDir\<close> of internal/server/server.go): a directory made for
  one run, into which the server writes files and in which every container has a log file that stays
  open until the server stops.  \<open>newLogDir\<close> and \<open>writeFile\<close> act on the file system, \<open>CreateLogFile\<close> on
  the file system and the directory's list of open files.
\<close>

record logDir =
  dir_path :: string
  logFiles :: "os_file list"

text \<open>\<open>os.Getwd\<close>; the fault of the relative path \<open>.\<close> stands for a working directory that is gone.\<close>

definition os_getwd :: "(fsys, string) go" where
  "os_getwd = (\<lambda>f. case fs_fault f ''.'' of
     Some e \<Rightarrow> (Fail (''getwd: '' @ e), f)
   | None \<Rightarrow> (Ok (fs_cwd f), f))"

definition newLogDir :: "string \<Rightarrow> (fsys, logDir) go" where
  "newLogDir path =
     bind_go os_getwd (\<lambda>pwdPath.
     let path = path_join pwdPath path in
     bind_go (os_mkdir path) (\<lambda>_. ret \<lparr>dir_path = path, logFiles = []\<rparr>))"

definition writeFile :: "logDir \<Rightarrow> string \<Rightarrow> bytes \<Rightarrow> (fsys, string) go" where
  "writeFile l path content =
     (let fullPath = path_join (dir_path l) path in
      bind_go (os_mkdir_all (path_dir fullPath)) (\<lambda>_.
      bind_go (os_write_file fullPath content) (\<lambda>_. ret fullPath)))"

definition on_file_system :: "(fsys, 'a) go \<Rightarrow> (fsys \<times> logDir, 'a) go" where
  "on_file_system m = on_part fst (\<lambda>f p. (f, snd p)) m"

definition CreateLogFile :: "string \<Rightarrow> (fsys \<times> logDir, os_file) go" where
  "CreateLogFile name =
     bind_go (gets snd) (\<lambda>l.
     bind_go (on_file_system (os_open_append (path_join (dir_path l) (name @ ''.log'')))) (\<lambda>h.
     bind_go (modify (\<lambda>(f, l). (f, l\<lparr>logFiles := logFiles l @ [h]\<rparr>))) (\<lambda>_. ret h)))"

text \<open>\<open>Close\<close> returns at the first file that does not close.\<close>

definition Close :: "logDir \<Rightarrow> (fsys, unit) go" where
  "Close l = bind_go (for_each (logFiles l) os_close) (\<lambda>_. ret ())"

section \<open>Lemmas\<close>

text \<open>The directory a plain path names is the last of its ancestors.\<close>

lemma prefix_paths_last:
  "cs \<noteq> [] \<Longrightarrow> acc @ join_strings [slash] cs \<in> set (prefix_paths acc cs)"
proof (induction acc cs rule: prefix_paths.induct)
  case (2 acc c cs)
  then show ?case by (cases cs) auto
qed simp

lemma ancestors_abs:
  assumes "list_all plain_name cs" and "cs \<noteq> []"
  shows "abs_path cs \<in> set (ancestors (abs_path cs))"
proof -
  have "filter (\<lambda>c. c \<noteq> []) cs = cs"
    using assms(1) by (auto simp: list_all_iff plain_name_def)
  moreover have "split_on slash (abs_path cs) = [] # cs"
    using assms by (simp add: abs_path_def split_on_join plain_names_no_slash)
  ultimately show ?thesis
    using prefix_paths_last [OF assms(2), of "[slash]"]
    by (simp add: ancestors_def) (simp add: abs_path_def has_prefix_def)
qed

lemma mkdir_all_existing:
  assumes "\<forall>q \<in> set (ancestors p). is_dir f q"
  shows "os_mkdir_all p f = (Ok (), f)"
proof -
  have "\<exists>us. for_each qs (\<lambda>q f. if is_dir f q then (Ok (), f)
        else if fs_files f q \<noteq> None then (Fail (path_error ''mkdir'' q enotdir), f)
        else os_mkdir q f) f = (Ok us, f)" if "\<forall>q \<in> set qs. is_dir f q" for qs
    using that by (induction qs) (auto simp: bind_go_def)
  with assms show ?thesis by (fastforce simp: os_mkdir_all_def bind_go_def)
qed

text \<open>A write changes one file or none, and makes no other change to existing files.\<close>

lemma os_mkdir_all_files: "os_mkdir_all p f = (r, g) \<Longrightarrow> fs_files g = fs_files f"
proof -
  let ?R = "\<lambda>f g :: fsys. fs_files g = fs_files f"
  have R: "trans_rel ?R" by unfold_locales simp_all
  have "within ?R (os_mkdir q)" for q
    by (auto simp: within_def os_mkdir_def split: option.split)
  then have "within ?R (\<lambda>f. if is_dir f q then (Ok (), f)
      else if fs_files f q \<noteq> None then (Fail (path_error ''mkdir'' q enotdir), f)
      else os_mkdir q f)" for q
    by (auto simp: within_def)
  then have "within ?R (os_mkdir_all p)"
    unfolding os_mkdir_all_def by (intro trans_rel.within_all [OF R])
  then show "os_mkdir_all p f = (r, g) \<Longrightarrow> fs_files g = fs_files f" by (rule withinD)
qed

lemma writeFile_Ok:
  assumes "writeFile l path content f = (Ok p, g)"
  shows "p = path_join (dir_path l) path" and "fs_files g = (fs_files f)(p \<mapsto> content)"
  using assms os_mkdir_all_files [of "path_dir (path_join (dir_path l) path)" f]
  by (auto simp: writeFile_def Let_def dest!: os_write_file_Ok)

lemma newLogDir_grows [within_rules]: "within fs_grows (newLogDir p)"
proof -
  have "within fs_grows os_getwd"
    by (auto simp: within_def os_getwd_def fs_grows.rel_refl split: option.split)
  then show ?thesis
    unfolding newLogDir_def Let_def by (intro fs_grows.within_all within_rules)
qed

lemma writeFile_grows [within_rules]: "within fs_grows (writeFile l p c)"
  unfolding writeFile_def Let_def by (intro fs_grows.within_all within_rules)

lemma Close_grows [within_rules]: "within fs_grows (Close l)"
  unfolding Close_def by (intro fs_grows.within_all within_rules)

text \<open>
  The bookkeeping of open files: the directory's files are distinct open descriptors, and the system
  never hands out an open descriptor again.
\<close>

definition log_inv :: "fsys \<times> logDir \<Rightarrow> bool" where
  "log_inv p \<longleftrightarrow> (case p of (f, l) \<Rightarrow>
     distinct (map fd (logFiles l)) \<and> fd ` set (logFiles l) \<subseteq> set (fs_open f)
     \<and> (\<forall>i \<in> set (fs_open f). i < fs_next_fd f))"

lemma CreateLogFile_Ok:
  assumes "CreateLogFile name (f, l) = (Ok h, (g, l'))"
  shows "l' = l\<lparr>logFiles := logFiles l @ [h]\<rparr>" and "fpath h = path_join (dir_path l) (name @ ''.log'')"
    and "fd h = fs_next_fd f" and "fs_open g = fs_open f @ [fd h]"
    and "fs_next_fd g = Suc (fs_next_fd f)"
    and "fs_files g = (fs_files f)(fpath h \<mapsto> (case fs_files f (fpath h) of None \<Rightarrow> [] | Some c \<Rightarrow> c))"
  using assms
  by (auto simp: CreateLogFile_def on_file_system_def on_part_Ok_iff os_open_append_def
      split: option.splits)

lemma CreateLogFile_not_Ok:
  assumes "CreateLogFile name p = (r, q)" and "\<And>h. r \<noteq> Ok h"
  shows "q = p"
  using assms
  by (cases p)
     (auto simp: CreateLogFile_def on_file_system_def on_part_def os_open_append_def bind_go_def
      split: option.splits)

lemma CreateLogFile_grows:
  "CreateLogFile name (f, l) = (r, (g, l')) \<Longrightarrow> fs_grows f g \<and> dir_path l' = dir_path l"
  by (auto simp: CreateLogFile_def on_file_system_def on_part_def os_open_append_def bind_go_def
      fs_grows_def split: option.splits)

section \<open>Properties\<close>

theorem newLogDir_fresh:
  assumes "newLogDir name f = (r, g)"
  shows "case r of
      Ok l \<Rightarrow> dir_path l = path_join (fs_cwd f) name \<and> logFiles l = []
        \<and> \<not> exists_path f (dir_path l) \<and> is_dir g (dir_path l) \<and> fs_files g = fs_files f
        \<and> (\<exists>g' e. newLogDir name g = (Fail e, g'))
    | Fail e \<Rightarrow> g = f
    | Panic p \<Rightarrow> False"
proof (cases r)
  case (Ok l)
  with assms have "fs_fault f ''.'' = None" and l: "l = \<lparr>dir_path = path_join (fs_cwd f) name, logFiles = []\<rparr>"
    and mk: "os_mkdir (dir_path l) f = (Ok (), g)"
    by (auto simp: newLogDir_def Let_def os_getwd_def bind_go_Ok_iff split: option.splits)
  with os_mkdir_Ok [OF mk]
  have g: "\<not> exists_path f (dir_path l)" "g = f\<lparr>fs_dirs := dir_path l # fs_dirs f\<rparr>" by simp_all
  then have "os_mkdir (dir_path l) g = (Fail (path_error ''mkdir'' (dir_path l) eexist), g)
      \<or> (\<exists>e. os_mkdir (dir_path l) g = (Fail (path_error ''mkdir'' (dir_path l) e), g))"
    by (auto simp: os_mkdir_def exists_path_def is_dir_def split: option.split)
  moreover have "newLogDir name g = bind_go (os_mkdir (dir_path l)) (\<lambda>_. ret l) g"
    using g l \<open>fs_fault f ''.'' = None\<close> by (simp add: newLogDir_def Let_def os_getwd_def bind_go_def)
  ultimately show ?thesis
    using Ok l g by (auto simp: bind_go_def is_dir_def)
next
  case (Fail e)
  with assms show ?thesis
    by (auto simp: newLogDir_def Let_def os_getwd_def bind_go_def os_mkdir_def split: option.splits if_splits)
next
  case (Panic p)
  with assms show ?thesis
    by (auto simp: newLogDir_def Let_def os_getwd_def bind_go_def os_mkdir_def split: option.splits if_splits)
qed

theorem newLogDir_fresh_witness:
  "\<exists>l g. newLogDir ''e2e-x'' sample_fs = (Ok l, g) \<and> dir_path l = ''/work/e2e-x''
     \<and> is_dir g ''/work/e2e-x'' \<and> (\<exists>g' e. newLogDir ''e2e-x'' g = (Fail e, g'))"
proof -
  obtain r g where run: "newLogDir ''e2e-x'' sample_fs = (r, g)"
    by (cases "newLogDir ''e2e-x'' sample_fs")
  have "case fst (newLogDir ''e2e-x'' sample_fs) of Ok l \<Rightarrow> dir_path l = ''/work/e2e-x'' | _ \<Rightarrow> False"
    by code_simp
  then obtain l where "r = Ok l" and "dir_path l = ''/work/e2e-x''"
    using run by (auto split: outcome.splits)
  with newLogDir_fresh [OF run] run show ?thesis by auto
qed

text \<open>
  C38. Writing a plainly named file into an existing log directory succeeds, returns its path,
  stores exactly the content and changes nothing else.
\<close>

theorem writeFile_roundtrip:
  assumes "dir_path l = abs_path cs" and "list_all plain_name cs" and "cs \<noteq> []" and "plain_name name"
    and "\<forall>q \<in> set (ancestors (abs_path cs)). is_dir f q"
    and "fs_fault f (abs_path (cs @ [name])) = None" and "\<not> is_dir f (abs_path (cs @ [name]))"
  shows "writeFile l name content f = (Ok (abs_path (cs @ [name])),
    f\<lparr>fs_files := (fs_files f)(abs_path (cs @ [name]) \<mapsto> content)\<rparr>)"
proof -
  have "is_dir f (abs_path cs)" using assms(2,3,5) ancestors_abs by blast
  then have "open_problem f (abs_path (cs @ [name])) = None"
    using assms by (simp add: open_problem_def parent_problem_def path_dir_abs)
  then show ?thesis
    using assms(1-5)
    by (simp add: writeFile_def Let_def path_join_abs path_dir_abs bind_go_def mkdir_all_existing
        os_write_file_def)
qed

theorem writeFile_roundtrip_witness:
  "\<exists>g. writeFile \<lparr>dir_path = ''/work'', logFiles = []\<rparr> ''spec.yaml'' ''data'' sample_fs
     = (Ok ''/work/spec.yaml'', g) \<and> fs_files g ''/work/spec.yaml'' = Some ''data''"
proof -
  let ?l = "\<lparr>dir_path = ''/work'', logFiles = []\<rparr>"
  have paths: "abs_path [''work''] = ''/work''" "abs_path ([''work''] @ [''spec.yaml'']) = ''/work/spec.yaml''"
    by (simp_all add: abs_path_def slash_def)
  have "\<forall>q \<in> set (ancestors (abs_path [''work''])). is_dir sample_fs q"
    by code_simp
  then show ?thesis
    using writeFile_roundtrip [of ?l "[''work'']" "''spec.yaml''" sample_fs "''data''"]
    unfolding paths
    by (simp add: plain_name_def slash_def sample_fs_def is_dir_def)
qed

text \<open>
  C39. CreateLogFile hands out a descriptor no other log file has, keeps every existing file
  content, and keeps the bookkeeping of open files.
\<close>

theorem CreateLogFile_keeps_invariant:
  assumes "log_inv (f, l)" and "CreateLogFile name (f, l) = (r, (g, l'))"
  shows "log_inv (g, l') \<and> (\<forall>p c. fs_files f p = Some c \<longrightarrow> fs_files g p = Some c)
    \<and> (\<forall>h. r = Ok h \<longrightarrow> fd h \<notin> fd ` set (logFiles l) \<and> fd h \<in> set (fs_open g)
          \<and> logFiles l' = logFiles l @ [h])"
proof (cases "\<exists>h. r = Ok h")
  case True
  then obtain h where r: "r = Ok h" by blast
  note ok = CreateLogFile_Ok [OF assms(2) [unfolded r]]
  have "fd h \<notin> fd ` set (logFiles l)"
    using assms(1) ok(3) unfolding log_inv_def by fastforce
  with assms(1) ok r show ?thesis
    unfolding log_inv_def by (auto simp: less_Suc_eq)
next
  case False
  with CreateLogFile_not_Ok [OF assms(2)] assms(1) show ?thesis by auto
qed

theorem CreateLogFile_keeps_invariant_witness:
  "\<exists>r g l'. CreateLogFile ''eth1'' (sample_fs, \<lparr>dir_path = ''/work'', logFiles = []\<rparr>) = (r, (g, l'))
     \<and> log_inv (g, l')"
proof -
  obtain r g l' where run: "CreateLogFile ''eth1'' (sample_fs, \<lparr>dir_path = ''/work'', logFiles = []\<rparr>) = (r, (g, l'))"
    by (metis prod_cases3)
  have "log_inv (sample_fs, \<lparr>dir_path = ''/work'', logFiles = []\<rparr>)"
    by (simp add: log_inv_def sample_fs_def)
  with CreateLogFile_keeps_invariant [OF _ run] run show ?thesis by blast
qed

lemma os_close_open:
  assumes "fd h \<in> set (fs_open f)"
  shows "os_close h f = (case fs_close_fault f (fpath h) of
      None \<Rightarrow> Ok () | Some e \<Rightarrow> Fail (path_error ''close'' (fpath h) e),
    f\<lparr>fs_open := filter (\<lambda>i. i \<noteq> fd h) (fs_open f)\<rparr>)"
  using assms by (simp add: os_close_def Let_def split: option.split)

lemma close_all:
  assumes "distinct (map fd hs)" and "fd ` set hs \<subseteq> set (fs_open f)"
  shows "\<exists>n \<le> length hs. snd (for_each hs os_close f) =
        f\<lparr>fs_open := filter (\<lambda>i. i \<notin> fd ` set (take n hs)) (fs_open f)\<rparr>
    \<and> (case fst (for_each hs os_close f) of
         Ok _ \<Rightarrow> n = length hs \<and> (\<forall>h \<in> set hs. fs_close_fault f (fpath h) = None)
       | Fail e \<Rightarrow> 0 < n \<and> fs_close_fault f (fpath (hs ! (n - 1))) \<noteq> None
           \<and> (\<forall>h \<in> set (take (n - 1) hs). fs_close_fault f (fpath h) = None)
       | Panic p \<Rightarrow> False)"
  using assms
proof (induction hs arbitrary: f)
  case (Cons h hs)
  let ?f = "f\<lparr>fs_open := filter (\<lambda>i. i \<noteq> fd h) (fs_open f)\<rparr>"
  have open_h: "fd h \<in> set (fs_open f)" using Cons.prems(2) by simp
  show ?case
  proof (cases "fs_close_fault f (fpath h)")
    case (Some e)
    then show ?thesis
      by (intro exI [of _ 1]) (simp add: bind_go_def os_close_open [OF open_h])
  next
    case None
    have "distinct (map fd hs)" and "fd ` set hs \<subseteq> set (fs_open ?f)"
      using Cons.prems by (auto simp: image_iff)
    from Cons.IH [OF this] obtain n where n: "n \<le> length hs" "snd (for_each hs os_close ?f) =
        ?f\<lparr>fs_open := filter (\<lambda>i. i \<notin> fd ` set (take n hs)) (fs_open ?f)\<rparr>"
      and raw: "case fst (for_each hs os_close ?f) of
         Ok _ \<Rightarrow> n = length hs \<and> (\<forall>h \<in> set hs. fs_close_fault ?f (fpath h) = None)
       | Fail e \<Rightarrow> 0 < n \<and> fs_close_fault ?f (fpath (hs ! (n - 1))) \<noteq> None
           \<and> (\<forall>h \<in> set (take (n - 1) hs). fs_close_fault ?f (fpath h) = None)
       | Panic p \<Rightarrow> False" by blast
    have "fs_close_fault ?f = fs_close_fault f" by simp
    note res = raw [unfolded this]
    have step: "for_each (h # hs) os_close f =
        bind_go (for_each hs os_close) (\<lambda>ys. ret (() # ys)) ?f"
      using None by (simp add: bind_go_def os_close_open [OF open_h])
    obtain q g where run: "for_each hs os_close ?f = (q, g)"
      by (cases "for_each hs os_close ?f")
    have filt: "filter (\<lambda>i. i \<notin> fd ` set (take (Suc n) (h # hs))) (fs_open f)
        = filter (\<lambda>i. i \<notin> fd ` set (take n hs)) (fs_open ?f)"
      by (simp add: conj_commute)
    have "(hs ! (n - 1)) = (h # hs) ! n" if "0 < n" using that by (cases n) auto
    moreover have "take n (h # hs) = h # take (n - 1) hs" if "0 < n" using that by (cases n) auto
    ultimately show ?thesis
      using n res None unfolding step run fst_conv snd_conv
      by (intro exI [of _ "Suc n"]; cases q) (simp_all add: filt run bind_go_def)
  qed
qed simp

text \<open>
  C40. Close closes the log files in order up to and including the first that fails to close,
  leaves the rest open, and returns nil exactly when none fails.
\<close>

theorem Close_closes_prefix:
  assumes "log_inv (f, l)" and "Close l f = (r, g)"
  shows "\<exists>n \<le> length (logFiles l).
    g = f\<lparr>fs_open := filter (\<lambda>i. i \<notin> fd ` set (take n (logFiles l))) (fs_open f)\<rparr>
    \<and> (r = Ok () \<longleftrightarrow> (\<forall>h \<in> set (logFiles l). fs_close_fault f (fpath h) = None))
    \<and> (r = Ok () \<longrightarrow> n = length (logFiles l))
    \<and> (r \<noteq> Ok () \<longrightarrow> 0 < n \<and> fs_close_fault f (fpath (logFiles l ! (n - 1))) \<noteq> None
        \<and> (\<forall>h \<in> set (take (n - 1) (logFiles l)). fs_close_fault f (fpath h) = None))"
proof -
  obtain q u where run: "for_each (logFiles l) os_close f = (q, u)"
    by (cases "for_each (logFiles l) os_close f")
  from assms(1) have "distinct (map fd (logFiles l))" and "fd ` set (logFiles l) \<subseteq> set (fs_open f)"
    by (simp_all add: log_inv_def)
  from close_all [OF this] obtain n where n: "n \<le> length (logFiles l)"
    and u: "u = f\<lparr>fs_open := filter (\<lambda>i. i \<notin> fd ` set (take n (logFiles l))) (fs_open f)\<rparr>"
    and res: "case q of
         Ok _ \<Rightarrow> n = length (logFiles l) \<and> (\<forall>h \<in> set (logFiles l). fs_close_fault f (fpath h) = None)
       | Fail e \<Rightarrow> 0 < n \<and> fs_close_fault f (fpath (logFiles l ! (n - 1))) \<noteq> None
           \<and> (\<forall>h \<in> set (take (n - 1) (logFiles l)). fs_close_fault f (fpath h) = None)
       | Panic p \<Rightarrow> False"
    unfolding run by auto
  have "r = (case q of Ok _ \<Rightarrow> Ok () | Fail e \<Rightarrow> Fail e | Panic p \<Rightarrow> Panic p)" and "g = u"
    using assms(2) run by (auto simp: Close_def bind_go_def split: outcome.splits)
  moreover have "0 < n \<Longrightarrow> logFiles l ! (n - 1) \<in> set (logFiles l)" using n by simp
  ultimately show ?thesis
    using n u res by (intro exI [of _ n]; cases q) auto
qed

theorem Close_closes_prefix_witness:
  "fs_open (snd (Close \<lparr>dir_path = ''/work'', logFiles = [\<lparr>fd = 3, fpath = ''a''\<rparr>, \<lparr>fd = 4, fpath = ''b''\<rparr>]\<rparr>
     (sample_fs\<lparr>fs_open := [3, 4], fs_next_fd := 5, fs_close_fault := [''a'' \<mapsto> ''EIO'']\<rparr>))) = [4]"
proof -
  let ?l = "\<lparr>dir_path = ''/work'', logFiles = [\<lparr>fd = 3, fpath = ''a''\<rparr>, \<lparr>fd = 4, fpath = ''b''\<rparr>]\<rparr>"
  let ?f = "sample_fs\<lparr>fs_open := [3, 4], fs_next_fd := 5, fs_close_fault := [''a'' \<mapsto> ''EIO'']\<rparr>"
  obtain r g where run: "Close ?l ?f = (r, g)" by (cases "Close ?l ?f")
  have "log_inv (?f, ?l)" by (simp add: log_inv_def sample_fs_def)
  from Close_closes_prefix [OF this run] obtain n where n: "n \<le> length (logFiles ?l)"
    and g: "g = ?f\<lparr>fs_open := filter (\<lambda>i. i \<notin> fd ` set (take n (logFiles ?l))) (fs_open ?f)\<rparr>"
    and ok: "r = Ok () \<longleftrightarrow> (\<forall>h \<in> set (logFiles ?l). fs_close_fault ?f (fpath h) = None)"
    and bad: "r \<noteq> Ok () \<longrightarrow> 0 < n \<and> fs_close_fault ?f (fpath (logFiles ?l ! (n - 1))) \<noteq> None"
    by blast
  have "r \<noteq> Ok ()" using ok by simp
  with bad have fault: "0 < n" "fs_close_fault ?f (fpath (logFiles ?l ! (n - 1))) \<noteq> None" by blast+
  have "n = 1"
  proof (rule ccontr)
    assume "n \<noteq> 1"
    with n fault(1) have "n = 2" by simp
    with fault(2) show False by simp
  qed
  with run g show ?thesis by simp
qed

end
