(* ===== verification/Config.thy ===== *)
theory Config
  imports GoJson
begin

text \<open>
  internal/server/config.go: the configuration of a run and the rendering of the consensus
  configuration file.  The file is the text of fixtures/config.yaml.tmpl with its four actions
  replaced; the lines between those four are the constants \<open>config_head\<close> to \<open>config_tail\<close>.
  The engine is \<open>html/template\<close>, so a replaced value is escaped for HTML.

  Go's \<open>int\<close> has 64 bits and is a signed word here; a pointer to one is an option.
\<close>

type_synonym go_int = "64 word"

record eth2_spec =
  MinGenesisValidatorCount :: go_int
  GenesisDelay :: go_int
  MinGenesisTime :: go_int
  EthFollowDistance :: go_int
  SecondsPerEth1Block :: go_int
  EpochsPerEth1VotingPeriod :: go_int
  ShardCommitteePeriod :: go_int
  SlotsPerEpoch :: go_int
  SecondsPerSlot :: go_int
  DepositContract :: string
  Altair :: "go_int option"
  Bellatrix :: "go_int option"

record config =
  cfg_Name :: string
  Spec :: eth2_spec
  NumTranches :: uint64
  NumGenesisValidators :: uint64

text \<open>The clock (Unix seconds) is read once, ten seconds are added.\<close>

definition DefaultEth2Spec :: "go_int \<Rightarrow> eth2_spec" where
  "DefaultEth2Spec now = \<lparr>MinGenesisValidatorCount = 1, GenesisDelay = 10, MinGenesisTime = now + 10,
     EthFollowDistance = 1, SecondsPerEth1Block = 1, EpochsPerEth1VotingPeriod = 64,
     ShardCommitteePeriod = 4, SlotsPerEpoch = 12, SecondsPerSlot = 3, DepositContract = [],
     Altair = None, Bellatrix = None\<rparr>"

definition DefaultConfig :: "go_int \<Rightarrow> config" where
  "DefaultConfig now = \<lparr>cfg_Name = ''e2e-test'', Spec = DefaultEth2Spec now, NumTranches = 1,
     NumGenesisValidators = 1\<rparr>"

section \<open>The template\<close>

text \<open>The escaper of html/template for text content, one byte at a time.\<close>

definition html_escape_char :: "char \<Rightarrow> string" where
  "html_escape_char c =
     (if c = CHR 0x00 then [CHR 0xEF, CHR 0xBF, CHR 0xBD]
      else if c = CHR 0x22 then ''&#34;''
      else if c = CHR 0x26 then ''&amp;''
      else if c = CHR 0x27 then ''&#39;''
      else if c = CHR 0x2B then ''&#43;''
      else if c = CHR 0x3C then ''&lt;''
      else if c = CHR 0x3E then ''&gt;''
      else [c])"

definition html_escape :: "string \<Rightarrow> string" where
  "html_escape s = concat (map html_escape_char s)"

fun unlines :: "string list \<Rightarrow> string" where
  "unlines [] = []"
| "unlines (l # ls) = l @ newline # unlines ls"

definition config_rule :: string where
  "config_rule = ''# ---------------------------------------------------------------''"

definition config_head :: "string list" where
  "config_head =
    [''# Extends the mainnet preset'',
     ''PRESET_BASE: '' @ [CHR 0x27] @ ''mainnet'' @ [CHR 0x27],
     ''CONFIG_NAME: '' @ [CHR 0x27] @ ''testnet'' @ [CHR 0x27],
     [],
     ''# Genesis'',
     config_rule]"

definition config_time :: "string list" where
  "config_time =
    [''# Monday, May 30th, 2022 3:00:00 PM +UTC'']"

definition config_altair :: "string list" where
  "config_altair =
    [''GENESIS_FORK_VERSION: 0x00000000'',
     ''GENESIS_DELAY: 604800'',
     [],
     ''# Forking'',
     config_rule,
     ''# Some forks are disabled for now:'',
     ''#  - These may be re-assigned to another fork-version later'',
     ''#  - Temporarily set to max uint64 value: 2**64 - 1'',
     [],
     ''# Altair'',
     ''ALTAIR_FORK_VERSION: 0x80000070'']"

definition config_deposit :: "string list" where
  "config_deposit =
    [[],
     ''# Merge'',
     ''BELLATRIX_FORK_VERSION: 0x80000071'',
     ''BELLATRIX_FORK_EPOCH: 18446744073709551615'',
     ''TERMINAL_TOTAL_DIFFICULTY: 100000000000000000000000'',
     ''TERMINAL_BLOCK_HASH: 0x0000000000000000000000000000000000000000000000000000000000000000'',
     ''TERMINAL_BLOCK_HASH_ACTIVATION_EPOCH: 18446744073709551615'',
     [],
     ''# Sharding'',
     ''SHARDING_FORK_VERSION: 0x03001020'',
     ''SHARDING_FORK_EPOCH: 18446744073709551615'',
     [],
     ''# Time parameters'',
     config_rule,
     ''# 12 seconds'',
     ''SECONDS_PER_SLOT: 12'',
     ''# 14 (estimate from Eth1 mainnet)'',
     ''SECONDS_PER_ETH1_BLOCK: 1'',
     ''# 2**8 (= 256) epochs ~27 hours'',
     ''MIN_VALIDATOR_WITHDRAWABILITY_DELAY: 256'',
     ''# 2**8 (= 256) epochs ~27 hours'',
     ''SHARD_COMMITTEE_PERIOD: 256'',
     ''# 2**11 (= 2,048) Eth1 blocks ~8 hours'',
     ''ETH1_FOLLOW_DISTANCE: 10'',
     [],
     [],
     ''# Validator cycle'',
     config_rule,
     ''# 2**2 (= 4)'',
     ''INACTIVITY_SCORE_BIAS: 4'',
     ''# 2**4 (= 16)'',
     ''INACTIVITY_SCORE_RECOVERY_RATE: 16'',
     ''# 2**4 * 10**9 (= 16,000,000,000) Gwei'',
     ''EJECTION_BALANCE: 16000000000'',
     ''# 2**2 (= 4)'',
     ''MIN_PER_EPOCH_CHURN_LIMIT: 4'',
     ''# 2**16 (= 65,536)'',
     ''CHURN_LIMIT_QUOTIENT: 65536'',
     [],
     [],
     ''# Fork choice'',
     config_rule,
     ''# 40%'',
     ''PROPOSER_SCORE_BOOST: 40'',
     [],
     ''# Deposit contract'',
     config_rule,
     ''DEPOSIT_CHAIN_ID: 1337'',
     ''DEPOSIT_NETWORK_ID: 1337'']"

definition config_tail :: "string list" where
  "config_tail =
    [[],
     ''# Overrides'',
     ''SLOTS_PER_EPOCH: 6'',
     ''EPOCHS_PER_ETH1_VOTING_PERIOD: 2'',
     ''MAX_SEED_LOOKAHEAD: 1'']"

text \<open>The template function \<open>fork\<close>.\<close>

definition fork_epoch :: "go_int option \<Rightarrow> string" where
  "fork_epoch num = (case num of None \<Rightarrow> ''18446744073709551615'' | Some n \<Rightarrow> itoa_int (sint n))"

text \<open>The lines of the template, the four with an action filled in.\<close>

definition config_lines :: "eth2_spec \<Rightarrow> string list" where
  "config_lines e =
     config_head @ [''MIN_GENESIS_ACTIVE_VALIDATOR_COUNT: '' @ html_escape (itoa_int (sint (MinGenesisValidatorCount e)))] @
     config_time @ [''MIN_GENESIS_TIME: '' @ html_escape (itoa_int (sint (MinGenesisTime e)))] @
     config_altair @ [''ALTAIR_FORK_EPOCH: '' @ html_escape (fork_epoch (Altair e))] @
     config_deposit @ [''DEPOSIT_CONTRACT_ADDRESS: '' @ html_escape (DepositContract e)] @
     config_tail"

definition buildConfig :: "eth2_spec \<Rightarrow> bytes" where
  "buildConfig e = unlines (config_lines e)"

definition MarshalText :: "eth2_spec \<Rightarrow> bytes outcome" where
  "MarshalText e = Ok (buildConfig e)"

section \<open>Reading the file back\<close>

text \<open>
  What a consensus client reads: the value of the first line that starts with the key.
\<close>

definition yaml_value :: "string \<Rightarrow> bytes \<Rightarrow> string option" where
  "yaml_value key content =
     map_option (drop (length key + 2))
       (find (\<lambda>l. has_prefix l (key @ '': '')) (split_on newline content))"

lemma split_on_unlines:
  "list_all (\<lambda>l. newline \<notin> set l) ls \<Longrightarrow> split_on newline (unlines ls) = ls @ [[]]"
proof (induction ls)
  case (Cons l ls)
  have "split_on newline (l @ newline # r) = l # split_on newline r" if "newline \<notin> set l" for r
    using that by (induction l) auto
  with Cons show ?case by simp
qed simp

text \<open>Text without a character HTML escapes, and without a line break.\<close>

definition html_safe :: "string \<Rightarrow> bool" where
  "html_safe s \<longleftrightarrow> list_all (\<lambda>c. html_escape_char c = [c] \<and> c \<noteq> newline) s"

lemma html_escape_safe: "html_safe s \<Longrightarrow> html_escape s = s"
  by (induction s) (auto simp: html_safe_def html_escape_def)

lemma html_safe_itoa_int: "html_safe (itoa_int i)"
proof -
  have "html_escape_char c = [c] \<and> c \<noteq> newline" if "c \<in> digits" for c
    using that by (auto simp: digits_def html_escape_char_def newline_def)
  then have "html_safe (itoa n)" for n
    using itoa_digits [of n] by (auto simp: html_safe_def list_all_iff simp del: itoa.simps)
  moreover have "html_safe (CHR ''-'' # s) \<longleftrightarrow> html_safe s" for s
    by (simp add: html_safe_def html_escape_char_def newline_def)
  ultimately show ?thesis by (simp add: itoa_int_def del: itoa.simps)
qed

lemma html_safe_fork_epoch: "html_safe (fork_epoch a)"
proof (cases a)
  case None
  have "html_safe ''18446744073709551615''" by code_simp
  with None show ?thesis by (simp add: fork_epoch_def)
next
  case (Some n)
  with html_safe_itoa_int show ?thesis by (simp add: fork_epoch_def)
qed

lemmas config_texts = config_head_def config_time_def config_altair_def config_deposit_def
  config_tail_def config_rule_def

lemma fixed_lines_no_newline:
  "list_all (\<lambda>l. newline \<notin> set l)
     (config_head @ config_time @ config_altair @ config_deposit @ config_tail)"
  by code_simp

lemma safe_no_newline: "html_safe s \<Longrightarrow> newline \<notin> set s"
  by (auto simp: html_safe_def list_all_iff)

lemma split_on_buildConfig:
  assumes "html_safe (DepositContract e)"
  shows "split_on newline (buildConfig e) = config_lines e @ [[]]"
proof -
  have "newline \<notin> set ''MIN_GENESIS_ACTIVE_VALIDATOR_COUNT: ''" "newline \<notin> set ''MIN_GENESIS_TIME: ''"
    "newline \<notin> set ''ALTAIR_FORK_EPOCH: ''" "newline \<notin> set ''DEPOSIT_CONTRACT_ADDRESS: ''"
    by (simp_all add: newline_def)
  then have "list_all (\<lambda>l. newline \<notin> set l) (config_lines e)"
    using fixed_lines_no_newline assms
    by (simp add: config_lines_def html_escape_safe html_safe_itoa_int html_safe_fork_epoch
        safe_no_newline)
  then show ?thesis by (simp add: buildConfig_def split_on_unlines)
qed

text \<open>No line of \<open>ls\<close> has the key \<open>k\<close>.\<close>

definition no_key :: "string \<Rightarrow> string list \<Rightarrow> bool" where
  "no_key k ls \<longleftrightarrow> list_all (\<lambda>l. \<not> has_prefix l (k @ '': '')) ls"

lemma no_key_append [simp]: "no_key k (xs @ ys) \<longleftrightarrow> no_key k xs \<and> no_key k ys"
  by (simp add: no_key_def)

lemma yaml_value_at:
  assumes "split_on newline content = pre @ (k @ '': '' @ v) # post" and "no_key k pre"
  shows "yaml_value k content = Some v"
proof -
  have "find P pre = None" if "list_all (\<lambda>l. \<not> P l) pre" for P
    using that by (induction pre) auto
  moreover have "find P (xs @ l # ys) = Some l" if "find P xs = None" "P l"
    for P and xs ys :: "string list" and l
    using that by (induction xs) (auto split: if_splits)
  moreover have "has_prefix (k @ '': '' @ v) (k @ '': '')"
    by (metis append.assoc has_prefix_append)
  ultimately show ?thesis
    using assms by (simp add: yaml_value_def no_key_def)
qed

text \<open>None of the fixed lines has one of the four keys, nor does an earlier filled line.\<close>

lemma no_key_fixed [simp]:
  "no_key ''MIN_GENESIS_ACTIVE_VALIDATOR_COUNT'' config_head"
  "no_key ''MIN_GENESIS_TIME'' config_head" "no_key ''MIN_GENESIS_TIME'' config_time"
  "no_key ''ALTAIR_FORK_EPOCH'' config_head" "no_key ''ALTAIR_FORK_EPOCH'' config_time"
  "no_key ''ALTAIR_FORK_EPOCH'' config_altair"
  "no_key ''DEPOSIT_CONTRACT_ADDRESS'' config_head" "no_key ''DEPOSIT_CONTRACT_ADDRESS'' config_time"
  "no_key ''DEPOSIT_CONTRACT_ADDRESS'' config_altair" "no_key ''DEPOSIT_CONTRACT_ADDRESS'' config_deposit"
  by code_simp+

lemma no_key_filled [simp]:
  "no_key ''MIN_GENESIS_TIME'' [''MIN_GENESIS_ACTIVE_VALIDATOR_COUNT: '' @ x]"
  "no_key ''ALTAIR_FORK_EPOCH'' [''MIN_GENESIS_ACTIVE_VALIDATOR_COUNT: '' @ x]"
  "no_key ''ALTAIR_FORK_EPOCH'' [''MIN_GENESIS_TIME: '' @ x]"
  "no_key ''DEPOSIT_CONTRACT_ADDRESS'' [''MIN_GENESIS_ACTIVE_VALIDATOR_COUNT: '' @ x]"
  "no_key ''DEPOSIT_CONTRACT_ADDRESS'' [''MIN_GENESIS_TIME: '' @ x]"
  "no_key ''DEPOSIT_CONTRACT_ADDRESS'' [''ALTAIR_FORK_EPOCH: '' @ x]"
  by (simp_all add: no_key_def has_prefix_def)

lemma yaml_filled:
  assumes "html_safe (DepositContract e)"
  shows "yaml_value ''MIN_GENESIS_ACTIVE_VALIDATOR_COUNT'' (buildConfig e)
      = Some (itoa_int (sint (MinGenesisValidatorCount e)))
    \<and> yaml_value ''MIN_GENESIS_TIME'' (buildConfig e) = Some (itoa_int (sint (MinGenesisTime e)))
    \<and> yaml_value ''ALTAIR_FORK_EPOCH'' (buildConfig e)
        = Some (case Altair e of None \<Rightarrow> ''18446744073709551615'' | Some n \<Rightarrow> itoa_int (sint n))
    \<and> yaml_value ''DEPOSIT_CONTRACT_ADDRESS'' (buildConfig e) = Some (DepositContract e)"
proof -
  let ?n = "''MIN_GENESIS_ACTIVE_VALIDATOR_COUNT: '' @ itoa_int (sint (MinGenesisValidatorCount e))"
  let ?t = "''MIN_GENESIS_TIME: '' @ itoa_int (sint (MinGenesisTime e))"
  let ?a = "''ALTAIR_FORK_EPOCH: '' @ fork_epoch (Altair e)"
  let ?d = "''DEPOSIT_CONTRACT_ADDRESS: '' @ DepositContract e"
  have lines: "split_on newline (buildConfig e) =
      config_head @ [?n] @ config_time @ [?t] @ config_altair @ [?a] @ config_deposit @ [?d] @ config_tail @ [[]]"
    using split_on_buildConfig [OF assms] assms
    by (simp add: config_lines_def html_escape_safe html_safe_itoa_int html_safe_fork_epoch
        del: itoa.simps)
  have "yaml_value ''MIN_GENESIS_ACTIVE_VALIDATOR_COUNT'' (buildConfig e)
      = Some (itoa_int (sint (MinGenesisValidatorCount e)))"
    by (rule yaml_value_at [where pre = config_head])
       (use lines in \<open>simp_all del: itoa.simps\<close>)
  moreover have "yaml_value ''MIN_GENESIS_TIME'' (buildConfig e)
      = Some (itoa_int (sint (MinGenesisTime e)))"
    by (rule yaml_value_at [where pre = "config_head @ [?n] @ config_time"])
       (use lines in simp, simp only: no_key_append no_key_fixed no_key_filled)
  moreover have "yaml_value ''ALTAIR_FORK_EPOCH'' (buildConfig e) = Some (fork_epoch (Altair e))"
    by (rule yaml_value_at [where pre = "config_head @ [?n] @ config_time @ [?t] @ config_altair"])
       (use lines in simp, simp only: no_key_append no_key_fixed no_key_filled)
  moreover have "yaml_value ''DEPOSIT_CONTRACT_ADDRESS'' (buildConfig e) = Some (DepositContract e)"
    by (rule yaml_value_at [where pre = "config_head @ [?n] @ config_time @ [?t] @ config_altair
          @ [?a] @ config_deposit"])
       (use lines in simp, simp only: no_key_append no_key_fixed no_key_filled)
  ultimately show ?thesis by (simp add: fork_epoch_def del: itoa.simps)
qed

section \<open>Properties\<close>

text \<open>
  C33. Reading the rendered consensus configuration line by line gives back the validator count,
  the genesis time, the Altair epoch (the maximal uint64 when disabled) and the deposit contract
  of the spec.
\<close>

theorem buildConfig_roundtrip:
  assumes "html_safe (DepositContract e)"
  shows "yaml_value ''MIN_GENESIS_ACTIVE_VALIDATOR_COUNT'' (buildConfig e)
      = Some (itoa_int (sint (MinGenesisValidatorCount e)))
    \<and> yaml_value ''MIN_GENESIS_TIME'' (buildConfig e) = Some (itoa_int (sint (MinGenesisTime e)))
    \<and> yaml_value ''ALTAIR_FORK_EPOCH'' (buildConfig e)
        = Some (case Altair e of None \<Rightarrow> ''18446744073709551615'' | Some n \<Rightarrow> itoa_int (sint n))
    \<and> yaml_value ''DEPOSIT_CONTRACT_ADDRESS'' (buildConfig e) = Some (DepositContract e)"
  by (rule yaml_filled [OF assms])

theorem buildConfig_roundtrip_witness:
  "yaml_value ''DEPOSIT_CONTRACT_ADDRESS''
     (buildConfig ((DefaultEth2Spec 1654000000)\<lparr>DepositContract := ''0x00ff''\<rparr>)) = Some ''0x00ff''"
proof -
  have "html_safe ''0x00ff''" by code_simp
  then show ?thesis
    using buildConfig_roundtrip [of "(DefaultEth2Spec 1654000000)\<lparr>DepositContract := ''0x00ff''\<rparr>"]
    by simp
qed

lemma sint_inj: "sint (a :: go_int) = sint b \<longleftrightarrow> a = b"
  by (auto intro: signed_word_eqI)

lemma itoa_int_inj [simp]: "itoa_int i = itoa_int j \<longleftrightarrow> i = j"
proof -
  have "CHR ''-'' \<notin> set (itoa n)" for n by (rule itoa_no_sep) (simp add: digits_def)
  then have neg: "itoa n \<noteq> CHR ''-'' # s" for n s by (metis list.set_intros(1))
  then have "CHR ''-'' # s \<noteq> itoa n" for n s by metis
  with neg show ?thesis
    by (auto simp: itoa_int_def nat_eq_iff simp del: itoa.simps)
qed

lemma fork_epoch_inj [simp]: "fork_epoch a = fork_epoch b \<longleftrightarrow> a = b"
proof -
  have max: "''18446744073709551615'' = itoa_int 18446744073709551615"
    by code_simp
  have "sint n \<noteq> 18446744073709551615" for n :: go_int
    using sint_lt [of n] by simp
  moreover then have "18446744073709551615 \<noteq> sint n" for n :: go_int by metis
  ultimately show ?thesis
    by (cases a; cases b) (simp_all add: fork_epoch_def max sint_inj)
qed

text \<open>
  C34. Two specs render to the same configuration file exactly when they agree on the four
  rendered fields; the other eight fields of Eth2Spec have no effect.
\<close>

theorem buildConfig_eq_iff:
  assumes "html_safe (DepositContract e)" and "html_safe (DepositContract e')"
  shows "buildConfig e = buildConfig e' \<longleftrightarrow>
    MinGenesisValidatorCount e = MinGenesisValidatorCount e' \<and> MinGenesisTime e = MinGenesisTime e'
    \<and> Altair e = Altair e' \<and> DepositContract e = DepositContract e'"
proof
  assume same: "buildConfig e = buildConfig e'"
  show "MinGenesisValidatorCount e = MinGenesisValidatorCount e' \<and> MinGenesisTime e = MinGenesisTime e'
    \<and> Altair e = Altair e' \<and> DepositContract e = DepositContract e'"
    using yaml_filled [OF assms(1)] yaml_filled [OF assms(2)]
    unfolding same fork_epoch_def [symmetric] by (simp add: sint_inj)
qed (simp add: buildConfig_def config_lines_def)

theorem buildConfig_eq_iff_witness:
  "buildConfig ((DefaultEth2Spec 7)\<lparr>SlotsPerEpoch := 32, SecondsPerSlot := 1, Bellatrix := Some 0\<rparr>)
     = buildConfig (DefaultEth2Spec 7)
   \<and> buildConfig ((DefaultEth2Spec 7)\<lparr>Altair := Some 0\<rparr>) \<noteq> buildConfig (DefaultEth2Spec 7)"
  using buildConfig_eq_iff [of "(DefaultEth2Spec 7)\<lparr>SlotsPerEpoch := 32, SecondsPerSlot := 1, Bellatrix := Some 0\<rparr>"
      "DefaultEth2Spec 7"]
    buildConfig_eq_iff [of "(DefaultEth2Spec 7)\<lparr>Altair := Some 0\<rparr>" "DefaultEth2Spec 7"]
  by (simp add: DefaultEth2Spec_def html_safe_def)

end
