(* ===== verification/Tranches.thy ===== *)
theory Tranches
  imports Proto
begin

text \<open>
  Tranches of validator accounts (type \<open>Tranche\<close> of internal/server/server.go) and the map the server
  keeps them in.  Go's \<open>map[uint64]*Tranche\<close> is an association list with distinct keys; a tranche is
  reached only through the map, so an assignment through its pointer is an update of the map.

  The locale \<open>tranche_store\<close> is what the server relies on: a new tranche gets the next number, and
  consuming one changes its validator only.
\<close>

section \<open>Tranches\<close>

record tranche =
  Accounts :: "account list"
  Filepath :: string
  tr_Validator :: string

text \<open>A tranche stub starts with index 0; \<open>DepositList\<close> sets it afterwards.\<close>

fun stubs_of :: "'w crypto_api \<Rightarrow> account list \<Rightarrow> account_stub list \<Rightarrow> account_stub list outcome" where
  "stubs_of C [] acc = Ok acc"
| "stubs_of C (acct # accts) acc =
     bind_out (ToStub C acct) (\<lambda>stub. stubs_of C accts (acc @ [stub]))"

definition ToProto :: "'w crypto_api \<Rightarrow> tranche \<Rightarrow> tranche_stub outcome" where
  "ToProto C t =
     bind_out (stubs_of C (Accounts t) []) (\<lambda>stubs.
     Ok \<lparr>Index = 0, stub_Accounts = stubs, stub_Name = tr_Validator t, stub_Path = Filepath t\<rparr>)"

definition IsConsumed :: "tranche \<Rightarrow> bool" where
  "IsConsumed t \<longleftrightarrow> tr_Validator t \<noteq> []"

text \<open>The tranche file: the private keys in hexadecimal, one a line.\<close>

definition tranche_text :: "bytes list \<Rightarrow> bytes" where
  "tranche_text privs = join_strings [newline] (map hex_encode privs)"

definition tranche_file_name :: "nat \<Rightarrow> string" where
  "tranche_file_name n = ''tranche_'' @ itoa n @ ''.txt''"

section \<open>The map of tranches\<close>

type_synonym tranche_map = "(uint64 \<times> tranche) list"

definition add_tranche :: "tranche \<Rightarrow> tranche_map \<Rightarrow> tranche_map" where
  "add_tranche t m = AList.update (of_nat (length m)) t m"

definition consume_tranche :: "uint64 \<Rightarrow> string \<Rightarrow> tranche_map \<Rightarrow> tranche_map" where
  "consume_tranche k name m =
     (case map_of m k of None \<Rightarrow> m | Some t \<Rightarrow> AList.update k (t\<lparr>tr_Validator := name\<rparr>) m)"

text \<open>The keys are the numbers from zero, in order.\<close>

definition tranches_ok :: "tranche_map \<Rightarrow> bool" where
  "tranches_ok m \<longleftrightarrow> length m < 2 ^ 64 \<and> map fst m = map of_nat [0..<length m]"

definition consumed :: "tranche_map \<Rightarrow> string list" where
  "consumed m = filter (\<lambda>v. v \<noteq> []) (map (tr_Validator \<circ> snd) m)"

text \<open>
  What later requests may do to tranches: accounts and file stay, and a consumed tranche stays as it is.
\<close>

definition tranches_kept :: "(uint64 \<rightharpoonup> tranche) \<Rightarrow> (uint64 \<rightharpoonup> tranche) \<Rightarrow> bool" where
  "tranches_kept f g \<longleftrightarrow> (\<forall>k t. f k = Some t \<longrightarrow> (\<exists>t'. g k = Some t' \<and> Accounts t' = Accounts t
     \<and> Filepath t' = Filepath t \<and> (IsConsumed t \<longrightarrow> t' = t)))"

lemma tranches_kept_refl: "tranches_kept f f"
  by (simp add: tranches_kept_def)

lemma tranches_kept_trans: "tranches_kept f g \<Longrightarrow> tranches_kept g h \<Longrightarrow> tranches_kept f h"
proof -
  assume fg: "tranches_kept f g" and gh: "tranches_kept g h"
  show "tranches_kept f h"
    unfolding tranches_kept_def
  proof (intro allI impI)
    fix k t
    assume "f k = Some t"
    with fg obtain t' where "g k = Some t'" and t': "Accounts t' = Accounts t" "Filepath t' = Filepath t"
      "IsConsumed t \<longrightarrow> t' = t"
      unfolding tranches_kept_def by blast
    with gh obtain t'' where "h k = Some t''" "Accounts t'' = Accounts t'" "Filepath t'' = Filepath t'"
      "IsConsumed t' \<longrightarrow> t'' = t'"
      unfolding tranches_kept_def by blast
    with t' show "\<exists>t''. h k = Some t'' \<and> Accounts t'' = Accounts t \<and> Filepath t'' = Filepath t
        \<and> (IsConsumed t \<longrightarrow> t'' = t)"
      by auto
  qed
qed

locale tranche_store =
  fixes look :: "'s \<Rightarrow> uint64 \<rightharpoonup> tranche"
    and add :: "tranche \<Rightarrow> 's \<Rightarrow> 's"
    and consume :: "uint64 \<Rightarrow> string \<Rightarrow> 's \<Rightarrow> 's"
    and number :: "'s \<Rightarrow> nat"
    and inv :: "'s \<Rightarrow> bool"
  assumes look_next: "inv s \<Longrightarrow> look s (of_nat (number s)) = None"
    and look_add: "inv s \<Longrightarrow> look (add t s) = (look s)(of_nat (number s) \<mapsto> t)"
    and look_consume: "look s k = Some t \<Longrightarrow> look (consume k v s) = (look s)(k \<mapsto> t\<lparr>tr_Validator := v\<rparr>)"
    and number_add: "inv s \<Longrightarrow> number (add t s) = Suc (number s)"
    and number_consume: "number (consume k v s) = number s"
    and inv_add: "inv s \<Longrightarrow> Suc (number s) < 2 ^ 64 \<Longrightarrow> inv (add t s)"
    and inv_consume: "inv s \<Longrightarrow> inv (consume k v s)"
begin

lemma add_kept: "inv s \<Longrightarrow> tranches_kept (look s) (look (add t s))"
  using look_next [of s] by (auto simp: tranches_kept_def look_add)

lemma consume_kept:
  "look s k = Some t \<Longrightarrow> \<not> IsConsumed t \<Longrightarrow> tranches_kept (look s) (look (consume k v s))"
  by (auto simp: tranches_kept_def look_consume)

text \<open>A tranche made and consumed in one request.\<close>

lemma add_consume:
  "inv s \<Longrightarrow> look (consume (of_nat (number s)) v (add t s)) =
     (look s)(of_nat (number s) \<mapsto> t\<lparr>tr_Validator := v\<rparr>)"
  by (simp add: look_add look_consume)

end

lemma unat_small: "n < 2 ^ 64 \<Longrightarrow> unat (of_nat n :: uint64) = n"
  by (simp add: unat_of_nat)

lemma tranche_keys_distinct:
  assumes "tranches_ok m"
  shows "distinct (map fst m)"
proof -
  have "inj_on (of_nat :: nat \<Rightarrow> uint64) {0..<length m}"
  proof (rule inj_onI)
    fix i j
    assume "i \<in> {0..<length m}" "j \<in> {0..<length m}" and eq: "(of_nat i :: uint64) = of_nat j"
    then have "i < 2 ^ 64" "j < 2 ^ 64" using assms by (auto simp: tranches_ok_def)
    with eq show "i = j" by (metis unat_small)
  qed
  then show ?thesis using assms by (simp add: tranches_ok_def distinct_map)
qed

lemma next_key_fresh:
  assumes "tranches_ok m"
  shows "of_nat (length m) \<notin> fst ` set m"
proof
  assume "of_nat (length m) \<in> fst ` set m"
  then have "of_nat (length m) \<in> set (map of_nat [0..<length m] :: uint64 list)"
    using assms unfolding tranches_ok_def by (metis list.set_map)
  then obtain i where "i < length m" and eq: "(of_nat (length m) :: uint64) = of_nat i" by auto
  moreover have "length m < 2 ^ 64" using assms by (simp add: tranches_ok_def)
  ultimately show False using eq by (metis less_irrefl order.strict_trans unat_small)
qed

lemma update_fresh: "k \<notin> fst ` set m \<Longrightarrow> AList.update k v m = m @ [(k, v)]"
  by (induction m) auto

lemma add_tranche_append: "tranches_ok m \<Longrightarrow> add_tranche t m = m @ [(of_nat (length m), t)]"
  by (simp add: add_tranche_def update_fresh next_key_fresh)

lemma length_update: "map_of m k = Some v \<Longrightarrow> length (AList.update k v' m) = length m"
  by (induction m) auto

lemma keys_update: "map_of m k = Some v \<Longrightarrow> map fst (AList.update k v' m) = map fst m"
  by (induction m) (auto split: if_splits)

interpretation go_map: tranche_store map_of add_tranche consume_tranche length tranches_ok
proof unfold_locales
  fix s t and k :: uint64 and v
  show "tranches_ok s \<Longrightarrow> map_of s (of_nat (length s)) = None"
    using next_key_fresh by (simp add: map_of_eq_None_iff)
  show "tranches_ok s \<Longrightarrow> map_of (add_tranche t s) = (map_of s)(of_nat (length s) \<mapsto> t)"
    by (simp add: add_tranche_def update_conv')
  show "map_of s k = Some t \<Longrightarrow> map_of (consume_tranche k v s) = (map_of s)(k \<mapsto> t\<lparr>tr_Validator := v\<rparr>)"
    by (simp add: consume_tranche_def update_conv')
  show "tranches_ok s \<Longrightarrow> length (add_tranche t s) = Suc (length s)"
    by (simp add: add_tranche_append)
  show "length (consume_tranche k v s) = length s"
    by (auto simp: consume_tranche_def length_update split: option.split)
  show "tranches_ok s \<Longrightarrow> Suc (length s) < 2 ^ 64 \<Longrightarrow> tranches_ok (add_tranche t s)"
    by (simp add: add_tranche_append) (simp add: tranches_ok_def)
  show "tranches_ok s \<Longrightarrow> tranches_ok (consume_tranche k v s)"
    by (auto simp: consume_tranche_def tranches_ok_def length_update keys_update split: option.split)
qed

text \<open>The validators' names on the tranches, as the map changes.\<close>

lemma consumed_add: "tranches_ok m \<Longrightarrow> tr_Validator t = [] \<Longrightarrow> consumed (add_tranche t m) = consumed m"
  by (simp add: add_tranche_append consumed_def)

lemma consumed_update:
  "map_of m k = Some t \<Longrightarrow> \<not> IsConsumed t \<Longrightarrow> v \<noteq> [] \<Longrightarrow>
     \<exists>xs ys. consumed m = xs @ ys \<and> consumed (consume_tranche k v m) = xs @ v # ys"
proof (induction m)
  case (Cons kt m)
  obtain k' t' where kt: "kt = (k', t')" by (cases kt)
  show ?case
  proof (cases "k' = k")
    case True
    with Cons.prems kt have "consumed (kt # m) = [] @ consumed m"
      and "consumed (consume_tranche k v (kt # m)) = [] @ v # consumed m"
      by (auto simp: consumed_def consume_tranche_def IsConsumed_def)
    then show ?thesis by blast
  next
    case False
    with Cons kt obtain xs ys where "consumed m = xs @ ys" "consumed (consume_tranche k v m) = xs @ v # ys"
      by auto
    moreover have "consume_tranche k v (kt # m) = kt # consume_tranche k v m"
      using False Cons.prems kt by (simp add: consume_tranche_def)
    moreover have "consumed (kt # n) = (if tr_Validator t' \<noteq> [] then tr_Validator t' # consumed n else consumed n)" for n
      by (simp add: consumed_def kt)
    ultimately have "consumed (kt # m) = (if tr_Validator t' \<noteq> [] then tr_Validator t' # xs else xs) @ ys"
      and "consumed (consume_tranche k v (kt # m)) = (if tr_Validator t' \<noteq> [] then tr_Validator t' # xs else xs) @ v # ys"
      by simp_all
    then show ?thesis by blast
  qed
qed simp

section \<open>Properties\<close>

lemma stubs_of_Ok:
  "stubs_of C accts acc = Ok stubs \<longleftrightarrow> (\<exists>ss. stubs = acc @ ss \<and> list_all2 (\<lambda>a s. ToStub C a = Ok s) accts ss)"
proof (induction accts arbitrary: acc)
  case (Cons a accts)
  then show ?case by (auto simp: bind_out_Ok_iff list_all2_Cons1)
qed auto

lemma hex_no_newline: "newline \<notin> set (hex_encode bs)"
  using hex_encode_chars [of bs] by (auto simp: hex_chars_def newline_def)

text \<open>
  C21. For at least one key, reading a tranche file line by line and decoding each line from hex
  gives back the private keys written to it, in order; the file of a tranche without keys is
  empty.
\<close>

theorem tranche_text_roundtrip:
  "if privs = [] then tranche_text privs = []
   else map hex_decode (split_on newline (tranche_text privs)) = map Some privs"
proof (cases "privs = []")
  case True
  then show ?thesis by (simp add: tranche_text_def)
next
  case False
  have "list_all (\<lambda>w. newline \<notin> set w) (map hex_encode privs)"
    using hex_no_newline by (auto simp: list_all_iff)
  then have "split_on newline (tranche_text privs) = map hex_encode privs"
    using False by (simp add: tranche_text_def split_on_join)
  with False show ?thesis by simp
qed

theorem tranche_text_roundtrip_witness:
  "map hex_decode (split_on newline (tranche_text [''ab'', [], ''c''])) = [Some ''ab'', Some [], Some ''c'']"
  using tranche_text_roundtrip [of "[''ab'', [], ''c'']"] by simp

end
