(* ===== verification/Server.thy ===== *)
theory Server
  imports Docker DepositHandler LogDir Config Tranches
begin

text \<open>
  internal/server/server.go: the server that owns the network.

  Its state is the record \<open>server\<close>; \<open>env\<close> is the world the process runs in.  The Docker daemon, the key
  libraries, the JSON-RPC client and the SSZ library are collected in \<open>services\<close>, with the TCP listener
  and the order in which Go enumerates the map of tranches.  Every gRPC handler takes the server's lock
  for its whole body, so a handler is one step; the goroutines that run between the handlers are turns
  of their own (\<open>take_turn\<close>, at the end) and steps of theory \<open>ServerSystem\<close>.
\<close>

section \<open>State\<close>

record ('w, 'h) services =
  sv_docker :: "'w docker_api"
  sv_crypto :: "'w crypto_api"
  sv_eth :: "'w eth_api"
  sv_ssz :: "'h ssz_api"
  sv_listen :: "string \<Rightarrow> ('w, unit) go"
  sv_range :: "tranche_map \<Rightarrow> 'w \<Rightarrow> tranche_map \<times> 'w"

record 'w server =
  env :: "'w world"
  srv_config :: config
  eth1HttpAddr :: string
  srv_depositHandler :: "depositHandler option"
  srv_logDir :: logDir
  nodes :: "node list"
  bootnodeENR :: string
  bootnodeEC :: string
  tranches :: tranche_map
  genesisSSZ :: bytes

type_synonym ('w, 'a) srv = "('w server, 'a) go"

definition on_env :: "('w world, 'a) go \<Rightarrow> ('w, 'a) srv" where
  "on_env m = on_part env (\<lambda>w s. s\<lparr>env := w\<rparr>) m"

definition on_log :: "(fsys \<times> logDir, 'a) go \<Rightarrow> ('w, 'a) srv" where
  "on_log m = on_part (\<lambda>s. (fs (env s), srv_logDir s))
     (\<lambda>(f, l) s. s\<lparr>env := (env s)\<lparr>fs := f\<rparr>, srv_logDir := l\<rparr>) m"

text \<open>A method call on the deposit handler, a nil pointer until the execution node runs.\<close>

definition on_deposits :: "('w dstate, 'a) go \<Rightarrow> ('w, 'a) srv" where
  "on_deposits m = (\<lambda>s. case srv_depositHandler s of
     None \<Rightarrow> (Panic ''runtime error: invalid memory address or nil pointer dereference'', s)
   | Some e \<Rightarrow> (case m (env s, e) of (r, (w, e')) \<Rightarrow> (r, s\<lparr>env := w, srv_depositHandler := Some e'\<rparr>)))"

section \<open>Deploying a node\<close>

text \<open>
  The result carries what the spec's retry closure stored.  The runtime is a parameter, as the code
  reaches it through the field \<open>docker\<close>.
\<close>

definition deploy_with ::
    "(spec \<Rightarrow> ('w world, node \<times> string) go) \<Rightarrow> spec \<Rightarrow> ('w, node \<times> string) srv" where
  "deploy_with deploy sp =
     bind_go (on_log (CreateLogFile (Name sp))) (\<lambda>fLogger.
     bind_go (gets (cfg_Name \<circ> srv_config)) (\<lambda>name.
     bind_go (on_env (deploy (chain sp
        [WithOutput fLogger, WithLabel ''viewpoint'' ''true'', WithLabel ''env'' name]))) (\<lambda>nc.
     bind_go (modify (\<lambda>s. s\<lparr>nodes := nodes s @ [fst nc]\<rparr>)) (\<lambda>_. ret nc))))"

definition deployNode :: "('w, 'h) services \<Rightarrow> spec \<Rightarrow> ('w, node \<times> string) srv" where
  "deployNode V sp = deploy_with (Deploy (sv_docker V)) sp"

section \<open>Tranches\<close>

text \<open>New accounts, with their deposits made if asked for.\<close>

definition tranche_accounts :: "('w, 'h) services \<Rightarrow> int \<Rightarrow> bool \<Rightarrow> ('w, account list) srv" where
  "tranche_accounts V numValidators deposit =
     bind_go (on_env (NewAccounts (sv_crypto V) numValidators)) (\<lambda>accounts.
     if deposit
     then bind_go (on_deposits (MakeDeposits (sv_eth V) (sv_crypto V) accounts)) (\<lambda>_. ret accounts)
     else ret accounts)"

text \<open>The new tranche and its number; the number is \<open>len(s.tranches)\<close> when the file is written.\<close>

definition createTranche :: "('w, 'h) services \<Rightarrow> int \<Rightarrow> bool \<Rightarrow> ('w, uint64 \<times> tranche) srv" where
  "createTranche V numValidators deposit =
     bind_go (tranche_accounts V numValidators deposit) (\<lambda>accounts.
     bind_go (for_each accounts (\<lambda>acct. lift_out (bls_Prv_Marshal (sv_crypto V) (Bls acct)))) (\<lambda>privs.
     bind_go (gets (length \<circ> tranches)) (\<lambda>numTranches.
     bind_go (gets srv_logDir) (\<lambda>l.
     bind_go (on_env (on_fs (writeFile l (tranche_file_name numTranches) (tranche_text privs)))) (\<lambda>tranchPath.
     let tranche = \<lparr>Accounts = accounts, Filepath = tranchPath, tr_Validator = []\<rparr> in
     bind_go (modify (\<lambda>s. s\<lparr>tranches := add_tranche tranche (tranches s)\<rparr>)) (\<lambda>_.
     ret (of_nat numTranches, tranche)))))))"

definition DepositList :: "('w, 'h) services \<Rightarrow> ('w, tranche_stub list) srv" where
  "DepositList V =
     bind_go (gets tranches) (\<lambda>m.
     bind_go (on_env (ext_get (sv_range V m))) (\<lambda>order.
     for_each order (\<lambda>it.
       bind_go (lift_out (ToProto (sv_crypto V) (snd it))) (\<lambda>stub. ret (stub\<lparr>Index := fst it\<rparr>)))))"

definition DepositCreate :: "('w, 'h) services \<Rightarrow> uint64 \<Rightarrow> ('w, tranche_stub) srv" where
  "DepositCreate V numValidators =
     bind_go (createTranche V (int_of_uint64 numValidators) True) (\<lambda>it.
     lift_out (ToProto (sv_crypto V) (snd it)))"

section \<open>Starting the server\<close>

definition setupEth1Network :: "('w, 'h) services \<Rightarrow> ('w, unit) srv" where
  "setupEth1Network V =
     bind_go (on_env (NewDevGenesis (sv_crypto V))) (\<lambda>(genesis, key).
     bind_go (lift_out (fst (Build (sv_crypto V) genesis))) (\<lambda>genesisRaw.
     bind_go (gets bootnodeEC) (\<lambda>enode.
     bind_go (on_env (NewEth1Server (sv_crypto V)
        \<lparr>ec_Bootnode = enode, ec_Genesis = genesisRaw, ec_Key = Some key\<rparr>)) (\<lambda>sp.
     bind_go (deployNode V (WithName ''eth1'' sp)) (\<lambda>(eth1, stored).
     bind_go (lift_out (GetAddr eth1 NodePortEth1Http)) (\<lambda>addr.
     bind_go (modify (\<lambda>s. s\<lparr>eth1HttpAddr := addr\<rparr>)) (\<lambda>_.
     bind_go (on_env (newDepositHandler (sv_eth V) addr key)) (\<lambda>e.
     modify (\<lambda>s. s\<lparr>srv_depositHandler := Some e, srv_config := (srv_config s)\<lparr>Spec :=
       (Spec (srv_config s))\<lparr>DepositContract := address_String (sv_crypto V) (dh_deposit e)\<rparr>\<rparr>\<rparr>)))))))))"

definition altairForkVersion :: bytes where
  "altairForkVersion = [CHR 0x80, CHR 0x00, CHR 0x00, CHR 0x70]"

definition genesis_input :: "eth2_spec \<Rightarrow> eth1_block \<Rightarrow> account list \<Rightarrow> input" where
  "genesis_input sp block accounts =
     (let inp = \<lparr>in_Eth1Block = block, in_GenesisTime = MinGenesisTime sp, in_InitialValidator = accounts,
                in_Fork = Fork_Phase0, in_ForkVersion = replicate 4 (CHR 0x00)\<rparr>
      in if Altair sp = Some 0
         then inp\<lparr>in_Fork := Fork_Altair, in_ForkVersion := altairForkVersion\<rparr> else inp)"

text \<open>
  The block may be a nil pointer without an error, when the execution node answers \<open>null\<close>; then
  \<open>GenerateGenesis\<close> panics at its first statement, which reads the block's timestamp.
\<close>

definition setupGenesis :: "('w, 'h) services \<Rightarrow> ('w, unit) srv" where
  "setupGenesis V =
     bind_go (gets srv_config) (\<lambda>cfg.
     let numAccountsPerTranche = NumGenesisValidators cfg div NumTranches cfg in
     bind_go (repeat_go (loop_count (int_of_uint64 (NumTranches cfg)))
        (createTranche V (int_of_uint64 numAccountsPerTranche) False)) (\<lambda>ts.
     bind_go (gets eth1HttpAddr) (\<lambda>addr.
     bind_go (on_env (ext_call (NewClient addr) (eth_NewClient (sv_eth V) addr))) (\<lambda>_.
     bind_go (on_env (ext_call GetBlockByNumber (eth_GetBlockByNumber (sv_eth V) addr))) (\<lambda>block.
     bind_go (lift_out (case block of
        None \<Rightarrow> Panic ''runtime error: invalid memory address or nil pointer dereference''
      | Some b \<Rightarrow> GenerateGenesis (sv_crypto V) (sv_ssz V)
          (genesis_input (Spec cfg) b (concat (map (Accounts \<circ> snd) ts))))) (\<lambda>state.
     bind_go (lift_out (case state of
        None \<Rightarrow> Panic ''runtime error: invalid memory address or nil pointer dereference''
      | Some st \<Rightarrow> ssz_Marshal (sv_ssz V) st)) (\<lambda>ssz.
     bind_go (modify (\<lambda>s. s\<lparr>genesisSSZ := ssz\<rparr>)) (\<lambda>_.
     bind_go (gets srv_logDir) (\<lambda>l.
     bind_go (on_env (on_fs (writeFile l ''spec.yaml'' (buildConfig (Spec cfg))))) (\<lambda>_.
     bind_go (on_env (on_fs (writeFile l ''genesis.ssz'' ssz))) (\<lambda>_. ret ())))))))))))"

definition setupGrpcServer :: "('w, 'h) services \<Rightarrow> ('w, unit) srv" where
  "setupGrpcServer V = on_env (ext_call (NetListen ''localhost:5555'') (sv_listen V ''localhost:5555''))"

text \<open>What \<open>NewServer\<close> does once it has built the server value.\<close>

definition start_server :: "('w, 'h) services \<Rightarrow> ('w, unit) srv" where
  "start_server V =
     bind_go (deployNode V (WithName ''bootnode'' NewBootnodeV5)) (\<lambda>(_, enr).
     bind_go (modify (\<lambda>s. s\<lparr>bootnodeENR := enr\<rparr>)) (\<lambda>_.
     bind_go (deployNode V (WithName ''bootnode-v4'' NewBootnodeV4)) (\<lambda>(_, enode).
     bind_go (modify (\<lambda>s. s\<lparr>bootnodeEC := enode\<rparr>)) (\<lambda>_.
     bind_go (setupEth1Network V) (\<lambda>_.
     bind_go (wrap_err ''failed to create genesis.szz file: '' (setupGenesis V)) (\<lambda>_.
     wrap_err ''failed to start grpc server: '' (setupGrpcServer V)))))))"

definition new_server :: "config \<Rightarrow> logDir \<Rightarrow> 'w world \<Rightarrow> 'w server" where
  "new_server cfg l w = \<lparr>env = w, srv_config = cfg, eth1HttpAddr = [], srv_depositHandler = None,
     srv_logDir = l, nodes = [], bootnodeENR = [], bootnodeEC = [], tranches = [], genesisSSZ = []\<rparr>"

text \<open>The returned server value carries the world it was left in.\<close>

definition NewServer :: "('w, 'h) services \<Rightarrow> config \<Rightarrow> ('w world, 'w server) go" where
  "NewServer V cfg =
     (if NumTranches cfg = 0 then panic ''runtime error: integer divide by zero''
      else if NumGenesisValidators cfg mod NumTranches cfg \<noteq> 0
      then fail (''genesis validator count not multiple of the tranches, got '' @
        itoa (unat (NumGenesisValidators cfg)) @ '' and '' @ itoa (unat (NumTranches cfg)))
      else
        bind_go (NewDocker (sv_docker V)) (\<lambda>_.
        bind_go (on_fs (newLogDir (''e2e-'' @ cfg_Name cfg))) (\<lambda>l w.
        case start_server V (new_server cfg l w) of
          (Ok _, s) \<Rightarrow> (Ok s, env s)
        | (Fail e, s) \<Rightarrow> (Fail e, env s)
        | (Panic p, s) \<Rightarrow> (Panic p, env s))))"

text \<open>The errors of stopping and closing are logged only.\<close>

definition StopServer :: "('w, 'h) services \<Rightarrow> ('w, unit) srv" where
  "StopServer V =
     bind_go (gets nodes) (\<lambda>ns.
     bind_go (for_each ns (\<lambda>n. attempt (on_env (Stop (sv_docker V) n)))) (\<lambda>_.
     bind_go (gets srv_logDir) (\<lambda>l.
     bind_go (attempt (on_env (on_fs (Close l)))) (\<lambda>_. ret ()))))"

section \<open>Nodes\<close>

definition filterLocked :: "(spec \<Rightarrow> bool) \<Rightarrow> 'w server \<Rightarrow> node list" where
  "filterLocked cond s = filter (\<lambda>n. cond (opts n)) (nodes s)"

definition specNodeToNode :: "node \<Rightarrow> proto_node" where
  "specNodeToNode n =
     \<lparr>node_Name = Name (opts n),
      node_Type = (case StringToNodeType (map_get (Labels (opts n)) NodeTypeLabel) of
         Some t \<Rightarrow> t | None \<Rightarrow> NodeType_OtherType),
      node_Client = (case StringToNodeClient (map_get (Labels (opts n)) NodeClientLabel) of
         Some c \<Rightarrow> c | None \<Rightarrow> NodeClient_OtherClient),
      node_Labels = Labels (opts n),
      node_Ip = ip n\<rparr>"

definition NodeList :: "('w, proto_node list) srv" where
  "NodeList = gets (\<lambda>s. map specNodeToNode (nodes s))"

text \<open>The last node of that name; with none, a method is called on a nil interface.\<close>

definition NodeStatus :: "string \<Rightarrow> ('w, proto_node) srv" where
  "NodeStatus name =
     (if name = [] then fail ''name is empty''
      else bind_go (gets nodes) (\<lambda>ns.
        case foldl (\<lambda>target n. if Name (opts n) = name then Some n else target) None ns of
          None \<Rightarrow> panic ''runtime error: invalid memory address or nil pointer dereference''
        | Some n \<Rightarrow> ret (specNodeToNode n)))"

section \<open>NodeDeploy\<close>

definition beaconFactory ::
    "'w crypto_api \<Rightarrow> (node_client \<times> (beacon_config \<Rightarrow> ('w world, spec) go)) list" where
  "beaconFactory C = [(NodeClient_Teku, NewTekuBeacon C), (NodeClient_Prysm, NewPrysmBeacon C),
     (NodeClient_Lighthouse, NewLighthouseBeacon C)]"

definition validatorsFactory ::
    "'w crypto_api \<Rightarrow> (node_client \<times> (validator_config \<Rightarrow> ('w world, spec) go)) list" where
  "validatorsFactory C = [(NodeClient_Teku, NewTekuValidator C), (NodeClient_Prysm, NewPrysmValidator C),
     (NodeClient_Lighthouse, NewLighthouseValidator C)]"

abbreviation type_name :: "('w, 'h) services \<Rightarrow> node_type \<Rightarrow> string" where
  "type_name V \<equiv> NodeType_String (enum_unknown (sv_crypto V))"

abbreviation client_name :: "('w, 'h) services \<Rightarrow> node_client \<Rightarrow> string" where
  "client_name V \<equiv> NodeClient_String (enum_unknown (sv_crypto V))"

definition numOfNodes :: "('w, 'h) services \<Rightarrow> node_type \<Rightarrow> 'w server \<Rightarrow> nat" where
  "numOfNodes V ntyp s = length (filterLocked (HasLabel NodeTypeLabel (type_name V ntyp)) s)"

text \<open>The name the code formats with \<open>%d\<close> and \<open>%s\<close>.\<close>

definition node_name :: "string \<Rightarrow> nat \<Rightarrow> string \<Rightarrow> string" where
  "node_name kind i clt = kind @ ''-'' @ itoa i @ ''-'' @ to_lower clt"

text \<open>The local closure \<open>deployNode\<close>, whose result here includes the stub it appends.\<close>

definition deployRequested ::
    "('w, 'h) services \<Rightarrow> node_deploy_request \<Rightarrow> string \<Rightarrow> spec \<Rightarrow> ('w, node \<times> proto_node) srv" where
  "deployRequested V req name sp =
     (let sp = WithName name sp;
          sp = (if Repo req \<noteq> [] then WithContainer (Repo req) sp else sp);
          sp = (if req_Tag req \<noteq> [] then WithTag (req_Tag req) sp else sp)
      in bind_go (deployNode V sp) (\<lambda>(n, _). ret (n, specNodeToNode n)))"

definition deployBeacon ::
    "('w, 'h) services \<Rightarrow> node_deploy_request \<Rightarrow> ('w, node \<times> proto_node) srv" where
  "deployBeacon V req =
     bind_go (gets (numOfNodes V NodeType_Beacon)) (\<lambda>i.
     let name = node_name ''beacon'' i (client_name V (NodeClient req)) in
     bind_go (gets (\<lambda>s. \<lparr>bc_Spec = buildConfig (Spec (srv_config s)), bc_Eth1 = eth1HttpAddr s,
        bc_Bootnode = bootnodeENR s, bc_GenesisSSZ = genesisSSZ s\<rparr>)) (\<lambda>bCfg.
     case map_of (beaconFactory (sv_crypto V)) (NodeClient req) of
       None \<Rightarrow> fail (''validator client '' @ client_name V (NodeClient req) @ '' not found'')
     | Some factory \<Rightarrow>
         bind_go (on_env (factory bCfg)) (\<lambda>sp. deployRequested V req name sp)))"

definition pickTarget ::
    "('w, 'h) services \<Rightarrow> node_deploy_request \<Rightarrow> node option \<Rightarrow> ('w, node) srv" where
  "pickTarget V req target =
     (case target of
        Some n \<Rightarrow> ret n
      | None \<Rightarrow>
          bind_go (gets (filterLocked (\<lambda>sp. HasLabel NodeTypeLabel (type_name V NodeType_Beacon) sp
             \<and> HasLabel NodeClientLabel (client_name V (NodeClient req)) sp))) (\<lambda>beacons.
          case beacons of
            [] \<Rightarrow> fail (''no beacon node found for client '' @ client_name V (NodeClient req))
          | n # _ \<Rightarrow> ret n))"

definition pickTranche :: "('w, 'h) services \<Rightarrow> validator_req \<Rightarrow> ('w, uint64 \<times> tranche) srv" where
  "pickTranche V deploy =
     (if NumValidators deploy = 0 then
        bind_go (gets (\<lambda>s. map_of (tranches s) (NumTranch deploy))) (\<lambda>r.
        case r of
          None \<Rightarrow> fail (''tranche number '' @ [CHR 0x27] @ itoa (unat (NumTranch deploy)) @ [CHR 0x27] @ '' does not exists'')
        | Some t \<Rightarrow>
            if IsConsumed t
            then fail (''tranche '' @ [CHR 0x27] @ itoa (unat (NumTranch deploy)) @ [CHR 0x27] @ '' has already been used'')
            else ret (NumTranch deploy, t))
      else createTranche V (int_of_uint64 (NumValidators deploy)) True)"

text \<open>The validator on a beacon node and a tranche; the tranche is consumed once the container runs.\<close>

definition startValidator ::
    "('w, 'h) services \<Rightarrow> node_deploy_request \<Rightarrow> node \<Rightarrow> uint64 \<times> tranche \<Rightarrow> ('w, node \<times> proto_node) srv" where
  "startValidator V req beacon kt =
     bind_go (gets (numOfNodes V NodeType_Validator)) (\<lambda>i.
     let name = node_name ''validator'' i (client_name V (NodeClient req)) in
     bind_go (gets (\<lambda>s. \<lparr>vc_Spec = buildConfig (Spec (srv_config s)), vc_Accounts = Accounts (snd kt),
        vc_Beacon_GetAddr = GetAddr beacon\<rparr>)) (\<lambda>vCfg.
     case map_of (validatorsFactory (sv_crypto V)) (NodeClient req) of
       None \<Rightarrow> fail (''validator client '' @ client_name V (NodeClient req) @ '' not found'')
     | Some factory \<Rightarrow>
         bind_go (on_env (factory vCfg)) (\<lambda>sp.
         bind_go (deployRequested V req name sp) (\<lambda>nc.
         bind_go (modify (\<lambda>s. s\<lparr>tranches := consume_tranche (fst kt) name (tranches s)\<rparr>)) (\<lambda>_.
         ret nc)))))"

definition deployValidator ::
    "('w, 'h) services \<Rightarrow> node_deploy_request \<Rightarrow> validator_req \<Rightarrow> node option \<Rightarrow> ('w, node \<times> proto_node) srv" where
  "deployValidator V req deploy target =
     bind_go (pickTarget V req target) (\<lambda>beacon.
     bind_go (pickTranche V deploy) (startValidator V req beacon))"

text \<open>How many beacon nodes are to be deployed: none if the type assertion leaves \<open>beaconReq\<close> nil.\<close>

definition beaconCount :: "deploy_oneof option \<Rightarrow> nat outcome" where
  "beaconCount req =
     (case req of
        Some (ReqBeacon n) \<Rightarrow> Ok (loop_count (int_of_uint64 n))
      | Some (ReqValidator v) \<Rightarrow>
          Ok (if WithBeacon v then loop_count (int_of_uint64 (BeaconCount v)) else 0)
      | None \<Rightarrow> Panic ''interface conversion: interface is nil, not *proto.NodeDeployRequest_Validator_'')"

definition NodeDeploy :: "('w, 'h) services \<Rightarrow> node_deploy_request \<Rightarrow> ('w, proto_node list) srv" where
  "NodeDeploy V req =
     bind_go (lift_out (beaconCount (NodeType req))) (\<lambda>n.
     bind_go (repeat_go n (deployBeacon V req)) (\<lambda>beacons.
     case NodeType req of
       Some (ReqValidator deploy) \<Rightarrow>
         bind_go (deployValidator V req deploy
            (case beacons of [] \<Rightarrow> None | b # _ \<Rightarrow> Some (fst b))) (\<lambda>v.
         ret (map snd beacons @ [snd v]))
     | _ \<Rightarrow> ret (map snd beacons)))"

section \<open>Serving\<close>

datatype request =
    DepositListReq
  | DepositCreateReq uint64
  | NodeDeployReq node_deploy_request
  | NodeListReq
  | NodeStatusReq string

definition no_reply :: "('s, 'a) go \<Rightarrow> ('s, unit) go" where
  "no_reply m = bind_go m (\<lambda>_. ret ())"

fun handle :: "('w, 'h) services \<Rightarrow> request \<Rightarrow> ('w, unit) srv" where
  "handle V DepositListReq = no_reply (DepositList V)"
| "handle V (DepositCreateReq n) = no_reply (DepositCreate V n)"
| "handle V (NodeDeployReq req) = no_reply (NodeDeploy V req)"
| "handle V NodeListReq = no_reply NodeList"
| "handle V (NodeStatusReq name) = no_reply (NodeStatus name)"

text \<open>
  What can happen to the server next: a request, a goroutine of a container that copies its logs or
  notices its exit, a goroutine that an earlier request left behind in the deposit handler.  An error is
  the reply of the request or is dropped; a panic ends the process.
\<close>

datatype turn = ServeTurn request | OutputTurn node | ExitTurn node | DepositTurn nat

fun take_turn :: "('w, 'h) services \<Rightarrow> turn \<Rightarrow> ('w, unit) srv" where
  "take_turn V (ServeTurn q) = handle V q"
| "take_turn V (OutputTurn n) = on_env (trackOutput (sv_docker V) n)"
| "take_turn V (ExitTurn n) = no_reply (on_env (run (sv_docker V) n))"
| "take_turn V (DepositTurn i) = (\<lambda>s. case srv_depositHandler s of
     None \<Rightarrow> (Ok (), s)
   | Some e \<Rightarrow>
       if i < length (dh_threads e)
       then no_reply (on_deposits (thread_step (sv_eth V) (sv_crypto V) (dh_chans e) i [])) s
       else (Ok (), s))"

definition serve_turns :: "('w, 'h) services \<Rightarrow> turn list \<Rightarrow> ('w, (string + unit) list) srv" where
  "serve_turns V turns = for_each turns (\<lambda>q. attempt (take_turn V q))"

end
