(* ===== verification/Network.thy ===== *)
theory Network
  imports Server
begin

text \<open>
  The abstract specification of the server: a network is a list of nodes and a map of tranches, and it
  changes in three ways only.  A beacon node is appended with the next number, a tranche is added with
  the next number, or an unconsumed tranche is consumed by a validator that is appended with the next
  number.  Theory \<open>ServerRuns\<close> shows that the server's requests are sequences of these steps; here are the
  invariants of the abstract machine.
\<close>

section \<open>Nodes and their kinds\<close>

definition type_of :: "node \<Rightarrow> string" where
  "type_of n = map_get (Labels (opts n)) NodeTypeLabel"

definition client_of :: "node \<Rightarrow> string" where
  "client_of n = map_get (Labels (opts n)) NodeClientLabel"

definition name_of :: "node \<Rightarrow> string" where
  "name_of n = Name (opts n)"

definition of_kind :: "string \<Rightarrow> node \<Rightarrow> bool" where
  "of_kind typ n \<longleftrightarrow> type_of n = typ"

definition kind_count :: "string \<Rightarrow> node list \<Rightarrow> nat" where
  "kind_count typ ns = length (filter (of_kind typ) ns)"

definition new_node :: "string \<Rightarrow> string \<Rightarrow> string \<Rightarrow> nat \<Rightarrow> node \<Rightarrow> bool" where
  "new_node typ kind clt i n \<longleftrightarrow>
     Name (opts n) = node_name kind i clt \<and> type_of n = typ \<and> client_of n = clt"

text \<open>Nodes of one kind with consecutive numbers.\<close>

fun numbered :: "string \<Rightarrow> string \<Rightarrow> nat \<Rightarrow> node list \<Rightarrow> bool" where
  "numbered typ kind i [] = True"
| "numbered typ kind i (n # ns) = (new_node typ kind (client_of n) i n \<and> numbered typ kind (Suc i) ns)"

lemma kind_count_append: "kind_count typ (ms @ ns) = kind_count typ ms + kind_count typ ns"
  by (simp add: kind_count_def)

lemma kind_count_new: "new_node typ kind clt i n \<Longrightarrow> kind_count typ' [n] = (if typ' = typ then 1 else 0)"
  by (auto simp: kind_count_def of_kind_def new_node_def)

lemma new_node_client: "new_node typ kind clt i n \<Longrightarrow> new_node typ kind (client_of n) i n"
  by (simp add: new_node_def)

lemma numbered_append:
  "numbered typ kind i (ms @ ns) \<longleftrightarrow> numbered typ kind i ms \<and> numbered typ kind (i + length ms) ns"
  by (induction ms arbitrary: i) auto

text \<open>The number of a node can be read off its name.\<close>

lemma node_name_inj: "node_name kind i c = node_name kind j d \<Longrightarrow> i = j"
proof -
  assume eq: "node_name kind i c = node_name kind j d"
  have "CHR ''-'' \<notin> set (itoa k)" for k
    by (intro itoa_no_sep) (simp add: digits_def)
  then have "\<forall>x \<in> set (itoa k). x \<noteq> CHR ''-''" for k by metis
  then have "takeWhile (\<lambda>x. x \<noteq> CHR ''-'') (itoa k @ CHR ''-'' # r) = itoa k" for k r
    by (simp add: takeWhile_append)
  moreover from eq have "itoa i @ CHR ''-'' # to_lower c = itoa j @ CHR ''-'' # to_lower d"
    by (simp add: node_name_def)
  ultimately have "itoa i = itoa j" by metis
  then show "i = j" by simp
qed

lemma numbered_names:
  "numbered typ kind i ns \<Longrightarrow> n \<in> set ns \<Longrightarrow> \<exists>j c. i \<le> j \<and> name_of n = node_name kind j c"
proof (induction ns arbitrary: i)
  case (Cons m ns)
  then show ?case by (fastforce simp: new_node_def name_of_def dest: Suc_leD)
qed simp

lemma numbered_distinct: "numbered typ kind i ns \<Longrightarrow> distinct (map name_of ns)"
proof (induction ns arbitrary: i)
  case (Cons m ns)
  have "name_of m \<noteq> name_of n" if n: "n \<in> set ns" for n
  proof
    from Cons.prems n obtain j c where "Suc i \<le> j" "name_of n = node_name kind j c"
      using numbered_names by force
    moreover have "name_of m = node_name kind i (client_of m)"
      using Cons.prems by (simp add: new_node_def name_of_def)
    moreover assume "name_of m = name_of n"
    ultimately show False using node_name_inj by fastforce
  qed
  with Cons show ?case by auto
qed simp

section \<open>The abstract machine\<close>

type_synonym network = "node list \<times> tranche_map"

definition new_tranche :: "account list \<Rightarrow> string \<Rightarrow> tranche" where
  "new_tranche accounts path = \<lparr>Accounts = accounts, Filepath = path, tr_Validator = []\<rparr>"

lemma new_tranche_simps [simp]:
  "Accounts (new_tranche as p) = as" "Filepath (new_tranche as p) = p"
  "tr_Validator (new_tranche as p) = []" "\<not> IsConsumed (new_tranche as p)"
  by (simp_all add: new_tranche_def IsConsumed_def)

inductive net_step :: "network \<Rightarrow> network \<Rightarrow> bool" where
  NewBeacon: "new_node ''Beacon'' ''beacon'' clt (kind_count ''Beacon'' ns) n \<Longrightarrow>
     net_step (ns, m) (ns @ [n], m)"
| NewTranche: "net_step (ns, m) (ns, add_tranche (new_tranche accounts path) m)"
| NewValidator: "map_of m k = Some tr \<Longrightarrow> \<not> IsConsumed tr \<Longrightarrow>
     new_node ''Validator'' ''validator'' clt (kind_count ''Validator'' ns) n \<Longrightarrow>
     net_step (ns, m) (ns @ [n], consume_tranche k (Name (opts n)) m)"

inductive_cases net_stepE: "net_step (ns, m) (ns', m')"

section \<open>Names\<close>

definition base_names :: "string list" where
  "base_names = [''bootnode'', ''bootnode-v4'', ''eth1'']"

definition other_kind :: "node \<Rightarrow> bool" where
  "other_kind n \<longleftrightarrow> \<not> of_kind ''Beacon'' n \<and> \<not> of_kind ''Validator'' n"

definition well_named :: "node list \<Rightarrow> bool" where
  "well_named ns \<longleftrightarrow> map name_of (filter other_kind ns) = base_names
     \<and> numbered ''Beacon'' ''beacon'' 0 (filter (of_kind ''Beacon'') ns)
     \<and> numbered ''Validator'' ''validator'' 0 (filter (of_kind ''Validator'') ns)"

lemma well_named_beacon:
  "well_named ns \<Longrightarrow> new_node ''Beacon'' ''beacon'' clt (kind_count ''Beacon'' ns) n \<Longrightarrow> well_named (ns @ [n])"
  by (simp add: well_named_def numbered_append kind_count_def)
     (auto simp: other_kind_def of_kind_def new_node_def)

lemma well_named_validator:
  "well_named ns \<Longrightarrow> new_node ''Validator'' ''validator'' clt (kind_count ''Validator'' ns) n \<Longrightarrow>
     well_named (ns @ [n])"
  by (simp add: well_named_def numbered_append kind_count_def)
     (auto simp: other_kind_def of_kind_def new_node_def)

lemma base_name_differs: "node_name ''beacon'' i c \<notin> set base_names" "node_name ''validator'' i c \<notin> set base_names"
  "node_name ''beacon'' i c \<noteq> node_name ''validator'' j d"
  by (auto simp: base_names_def node_name_def)

lemma filter_kinds:
  "mset ns = mset (filter other_kind ns @ filter (of_kind ''Beacon'') ns @ filter (of_kind ''Validator'') ns)"
  by (induction ns) (auto simp: other_kind_def of_kind_def)

lemma disjoint_parts:
  "b \<subseteq> B \<Longrightarrow> v \<subseteq> V \<Longrightarrow> B \<inter> V = {} \<Longrightarrow> N \<inter> (B \<union> V) = {} \<Longrightarrow> n = N \<Longrightarrow> n \<inter> (b \<union> v) = {} \<and> b \<inter> v = {}"
  by blast

lemma distinct_parts:
  "distinct (map f a) \<Longrightarrow> distinct (map f b) \<Longrightarrow> distinct (map f c) \<Longrightarrow>
     f ` set a \<inter> (f ` set b \<union> f ` set c) = {} \<and> f ` set b \<inter> f ` set c = {} \<Longrightarrow>
     distinct (map f (a @ b @ c))"
  by auto

lemma well_named_distinct:
  assumes "well_named ns"
  shows "distinct (map name_of ns)"
proof -
  let ?o = "filter other_kind ns" and ?b = "filter (of_kind ''Beacon'') ns"
    and ?v = "filter (of_kind ''Validator'') ns"
  have b: "numbered ''Beacon'' ''beacon'' 0 ?b" and v: "numbered ''Validator'' ''validator'' 0 ?v"
    and base: "map name_of ?o = base_names"
    using assms by (simp_all add: well_named_def)
  let ?B = "{x. \<exists>j c. x = node_name ''beacon'' j c}" and ?V = "{x. \<exists>j c. x = node_name ''validator'' j c}"
  have "name_of ` set ?b \<subseteq> ?B" "name_of ` set ?v \<subseteq> ?V"
    using numbered_names [OF b] numbered_names [OF v] by blast+
  moreover have "?B \<inter> ?V = {}" "set base_names \<inter> (?B \<union> ?V) = {}"
    using base_name_differs by blast+
  moreover have "name_of ` set ?o = set base_names" using base by (metis list.set_map)
  ultimately have apart: "name_of ` set ?o \<inter> (name_of ` set ?b \<union> name_of ` set ?v) = {}
      \<and> name_of ` set ?b \<inter> name_of ` set ?v = {}"
    by (intro disjoint_parts)
  have "distinct (map name_of ?o)" unfolding base by (simp add: base_names_def)
  then have "distinct (map name_of (?o @ ?b @ ?v))"
    using numbered_distinct [OF b] numbered_distinct [OF v] apart by (rule distinct_parts)
  moreover have "mset (map name_of (?o @ ?b @ ?v)) = mset (map name_of ns)"
    by (simp only: mset_map filter_kinds [symmetric])
  ultimately show ?thesis
    using mset_eq_imp_distinct_iff by blast
qed

section \<open>The invariant\<close>

text \<open>
  Names follow the numbering, and the validators are exactly the consumers of tranches.  The map of
  tranches is numbered by \<open>uint64\<close>, so what is said of it holds as long as there are fewer than
  \<open>2 ^ 64\<close> of them.
\<close>

definition tranches_used :: "node list \<Rightarrow> tranche_map \<Rightarrow> bool" where
  "tranches_used ns m \<longleftrightarrow> tranches_ok m
     \<and> mset (consumed m) = mset (map name_of (filter (of_kind ''Validator'') ns))"

definition net_inv :: "network \<Rightarrow> bool" where
  "net_inv \<sigma> \<longleftrightarrow> (case \<sigma> of (ns, m) \<Rightarrow> well_named ns \<and> (length m < 2 ^ 64 \<longrightarrow> tranches_used ns m))"

definition net_evolves :: "network \<Rightarrow> network \<Rightarrow> bool" where
  "net_evolves \<sigma> \<tau> \<longleftrightarrow> (\<exists>new. fst \<tau> = fst \<sigma> @ new) \<and> length (snd \<sigma>) \<le> length (snd \<tau>)
     \<and> (length (snd \<tau>) < 2 ^ 64 \<longrightarrow> tranches_kept (map_of (snd \<sigma>)) (map_of (snd \<tau>)))"

lemma net_evolves_refl: "net_evolves \<sigma> \<sigma>"
  by (simp add: net_evolves_def tranches_kept_refl)

lemma net_evolves_trans: "net_evolves \<sigma> \<tau> \<Longrightarrow> net_evolves \<tau> \<upsilon> \<Longrightarrow> net_evolves \<sigma> \<upsilon>"
  by (auto simp: net_evolves_def intro: tranches_kept_trans)

lemma length_add_tranche: "length m \<le> length (add_tranche t m)"
proof -
  have "length m \<le> length (AList.update k t m)" for k by (induction m) auto
  then show ?thesis by (simp add: add_tranche_def)
qed

lemma kinds_snoc [simp]:
  "new_node typ kind clt i n \<Longrightarrow> of_kind typ' n \<longleftrightarrow> typ = typ'"
  by (simp add: of_kind_def new_node_def)

lemma consume_used:
  assumes "tranches_used ns m" and "map_of m k = Some tr" and "\<not> IsConsumed tr"
    and "new_node ''Validator'' ''validator'' clt i n"
  shows "tranches_used (ns @ [n]) (consume_tranche k (Name (opts n)) m)"
proof -
  have "name_of n \<noteq> []" using assms(4) by (simp add: new_node_def name_of_def node_name_def)
  with assms(2,3) obtain xs ys where "consumed m = xs @ ys"
    and "consumed (consume_tranche k (name_of n) m) = xs @ name_of n # ys"
    using consumed_update by blast
  moreover have "tranches_ok (consume_tranche k (name_of n) m)"
    using assms(1) by (simp add: tranches_used_def go_map.inv_consume)
  ultimately show ?thesis
    using assms(1,4) by (simp add: tranches_used_def flip: name_of_def)
qed

lemma net_step_inv:
  assumes "net_step \<sigma> \<tau>" and "net_inv \<sigma>"
  shows "net_inv \<tau> \<and> net_evolves \<sigma> \<tau>"
  using assms
proof (induction rule: net_step.induct)
  case (NewBeacon clt ns n m)
  then show ?case
    by (simp add: net_inv_def net_evolves_def well_named_beacon tranches_used_def tranches_kept_refl)
next
  case (NewTranche ns m accounts path)
  let ?t = "new_tranche accounts path"
  show ?case
  proof (cases "length (add_tranche ?t m) < 2 ^ 64")
    case True
    then have "length m < 2 ^ 64" using length_add_tranche [of m ?t] by linarith
    then have used: "tranches_used ns m" using NewTranche by (simp add: net_inv_def)
    then have ok: "tranches_ok m" by (simp add: tranches_used_def)
    with True have "tranches_ok (add_tranche ?t m)"
      by (intro go_map.inv_add) (simp_all add: go_map.number_add)
    with used ok NewTranche show ?thesis
      by (simp add: net_inv_def net_evolves_def tranches_used_def consumed_add go_map.add_kept length_add_tranche)
  next
    case False
    with NewTranche show ?thesis by (simp add: net_inv_def net_evolves_def length_add_tranche)
  qed
next
  case (NewValidator m k tr clt ns n)
  have "length (consume_tranche k (Name (opts n)) m) = length m" by (rule go_map.number_consume)
  with NewValidator consume_used [of ns m k tr clt] show ?case
    by (auto simp: net_inv_def net_evolves_def well_named_validator intro: go_map.consume_kept)
qed

interpretation network: invariant_system net_step net_inv
  by unfold_locales (simp add: net_step_inv)

interpretation history: invariant_system net_step "\<lambda>\<tau>. net_inv \<tau> \<and> net_evolves \<sigma> \<tau>" for \<sigma>
  by unfold_locales (use net_step_inv net_evolves_trans in blast)

lemma net_reach_evolves: "net_step\<^sup>*\<^sup>* \<sigma> \<tau> \<Longrightarrow> net_inv \<sigma> \<Longrightarrow> net_evolves \<sigma> \<tau>"
  using history.reach_inv [of \<sigma> \<tau> \<sigma>] by (simp add: net_evolves_refl)

end
