(* ===== verification/ServerRuns.thy ===== *)
theory ServerRuns
  imports Network
begin

text \<open>
  What the requests of internal/server/server.go do to the server's nodes and tranches, one at a time and
  in any sequence, with the goroutines that run beside them.
\<close>

section \<open>Parts of the state an operation leaves alone\<close>

definition same_core :: "'w server \<Rightarrow> 'w server \<Rightarrow> bool" where
  "same_core s t \<longleftrightarrow> nodes t = nodes s \<and> tranches t = tranches s \<and> srv_config t = srv_config s"

interpretation same_core: trans_rel same_core
  by unfold_locales (auto simp: same_core_def)

lemma same_coreD:
  "same_core s t \<Longrightarrow> nodes t = nodes s" "same_core s t \<Longrightarrow> tranches t = tranches s"
  "same_core s t \<Longrightarrow> srv_config t = srv_config s"
  by (simp_all add: same_core_def)

named_theorems core_rules \<open>operations that leave nodes, tranches and configuration alone\<close>

lemma on_env_core [core_rules]: "within same_core (on_env m)"
  by (auto simp: within_def same_core_def on_env_def on_part_def split: prod.split)

lemma on_log_core [core_rules]: "within same_core (on_log m)"
  by (auto simp: within_def same_core_def on_log_def on_part_def split: prod.split)

lemma on_deposits_core [core_rules]: "within same_core (on_deposits m)"
  by (auto simp: within_def same_core_def on_deposits_def split: option.split prod.split)

section \<open>Deploying a node\<close>

definition deployed_from :: "spec \<Rightarrow> node \<Rightarrow> bool" where
  "deployed_from sp n \<longleftrightarrow> Name (opts n) = Name sp
     \<and> type_of n = map_get (Labels sp) NodeTypeLabel \<and> client_of n = map_get (Labels sp) NodeClientLabel"

text \<open>The effect of one deployment on the server's list: the node is appended, or nothing changes.\<close>

definition appends :: "(node \<Rightarrow> bool) \<Rightarrow> 'w server \<Rightarrow> 'w server \<Rightarrow> node outcome \<Rightarrow> bool" where
  "appends P s t r \<longleftrightarrow> tranches t = tranches s \<and> srv_config t = srv_config s
     \<and> (case r of Ok n \<Rightarrow> nodes t = nodes s @ [n] \<and> P n | _ \<Rightarrow> nodes t = nodes s)"

lemma appends_mono: "appends P s t r \<Longrightarrow> (\<And>n. P n \<Longrightarrow> Q n) \<Longrightarrow> appends Q s t r"
  by (auto simp: appends_def split: outcome.split)

lemma appends_core: "same_core s u \<Longrightarrow> appends P u t r \<Longrightarrow> appends P s t r"
  by (auto simp: appends_def same_core_def split: outcome.split)

context deployer
begin

lemma deploy_with_effect:
  assumes "deploy_with deploy sp s = (r, t)"
  shows "appends (deployed_from sp) s t (map_outcome fst r)"
proof -
  let ?pre = "bind_go (on_log (CreateLogFile (Name sp))) (\<lambda>fLogger.
     bind_go (gets (cfg_Name \<circ> srv_config)) (\<lambda>name.
     on_env (deploy (chain sp
        [WithOutput fLogger, WithLabel ''viewpoint'' ''true'', WithLabel ''env'' name]))))"
  have run: "bind_go ?pre (\<lambda>nc. bind_go (modify (\<lambda>s. s\<lparr>nodes := nodes s @ [fst nc]\<rparr>)) (\<lambda>_. ret nc)) s = (r, t)"
    using assms by (simp add: deploy_with_def bind_go_assoc)
  obtain q u where pre: "?pre s = (q, u)" by (cases "?pre s")
  have "within same_core ?pre"
    by (intro same_core.within_all core_rules)
  then have core: "same_core s u" using pre by (rule withinD)
  show ?thesis
  proof (cases q)
    case (Ok nc)
    obtain n c where nc: "nc = (n, c)" by (cases nc)
    from pre [unfolded Ok nc] obtain h name w v where "deploy (chain sp
        [WithOutput h, WithLabel ''viewpoint'' ''true'', WithLabel ''env'' name]) w = (Ok (n, c), v)"
      by (auto simp: on_env_def on_part_Ok_iff)
    then have "deployed_from sp n"
      by (auto dest!: deploy_identity simp: deployed_from_def type_of_def client_of_def with_defs
          NodeTypeLabel_def NodeClientLabel_def)
    with run pre core Ok nc show ?thesis
      by (auto simp: bind_go_def appends_def same_core_def)
  next
    case (Fail e)
    with run pre core show ?thesis by (auto simp: bind_go_def appends_def same_core_def)
  next
    case (Panic p)
    with run pre core show ?thesis by (auto simp: bind_go_def appends_def same_core_def)
  qed
qed

end

lemma deployNode_effect:
  "deployNode V sp s = (r, t) \<Longrightarrow> appends (deployed_from sp) s t (map_outcome fst r)"
  unfolding deployNode_def by (rule docker.deploy_with_effect)

section \<open>Creating a tranche\<close>

definition adds_tranche :: "int \<Rightarrow> 'w server \<Rightarrow> 'w server \<Rightarrow> (uint64 \<times> tranche) outcome \<Rightarrow> bool" where
  "adds_tranche num s t r \<longleftrightarrow> nodes t = nodes s \<and> srv_config t = srv_config s
     \<and> (case r of
          Ok (k, tr) \<Rightarrow> k = of_nat (length (tranches s)) \<and> tranches t = add_tranche tr (tranches s)
            \<and> (\<exists>as p. tr = new_tranche as p \<and> length as = loop_count num)
        | _ \<Rightarrow> tranches t = tranches s)"

lemma tranche_accounts_core [core_rules]: "within same_core (tranche_accounts V num deposit)"
  unfolding tranche_accounts_def by (intro same_core.within_all core_rules)

lemma tranche_accounts_length:
  assumes "tranche_accounts V num deposit s = (Ok accounts, t)"
  shows "length accounts = loop_count num"
proof -
  from assms obtain u where "on_env (NewAccounts (sv_crypto V) num) s = (Ok accounts, u)"
    unfolding tranche_accounts_def by (cases deposit) auto
  then show ?thesis by (auto simp: on_env_def on_part_Ok_iff dest: NewAccounts_length)
qed

text \<open>The part of \<open>createTranche\<close> before the map is updated.\<close>

definition prepareTranche :: "('w, 'h) services \<Rightarrow> int \<Rightarrow> bool \<Rightarrow> ('w, account list \<times> nat \<times> string) srv" where
  "prepareTranche V numValidators deposit =
     bind_go (tranche_accounts V numValidators deposit) (\<lambda>accounts.
     bind_go (for_each accounts (\<lambda>acct. lift_out (bls_Prv_Marshal (sv_crypto V) (Bls acct)))) (\<lambda>privs.
     bind_go (gets (length \<circ> tranches)) (\<lambda>numTranches.
     bind_go (gets srv_logDir) (\<lambda>l.
     bind_go (on_env (on_fs (writeFile l (tranche_file_name numTranches) (tranche_text privs)))) (\<lambda>path.
     ret (accounts, numTranches, path))))))"

lemma createTranche_split:
  "createTranche V num deposit =
     bind_go (prepareTranche V num deposit) (\<lambda>(accounts, n, path).
     bind_go (modify (\<lambda>s. s\<lparr>tranches := add_tranche (new_tranche accounts path) (tranches s)\<rparr>)) (\<lambda>_.
     ret (of_nat n, new_tranche accounts path)))"
  by (simp only: createTranche_def prepareTranche_def bind_go_assoc bind_go_pure new_tranche_def Let_def
      prod.case)

lemma prepareTranche_core: "within same_core (prepareTranche V num deposit)"
  unfolding prepareTranche_def by (intro same_core.within_all core_rules)

lemma prepareTranche_Ok:
  assumes "prepareTranche V num deposit s = (Ok (accounts, n, path), t)"
  shows "length accounts = loop_count num \<and> n = length (tranches s)"
proof -
  from assms obtain u privs w where
    new: "tranche_accounts V num deposit s = (Ok accounts, u)"
    and privs: "for_each accounts (\<lambda>acct. lift_out (bls_Prv_Marshal (sv_crypto V) (Bls acct))) u = (Ok privs, w)"
    and n: "n = length (tranches w)"
    unfolding prepareTranche_def by auto
  have "same_core s u" using tranche_accounts_core new by (rule withinD)
  moreover have "w = u" using privs by (simp add: for_each_lift_out)
  ultimately show ?thesis
    using n tranche_accounts_length [OF new] by (simp add: same_core_def)
qed

lemma createTranche_effect:
  assumes "createTranche V num deposit s = (r, t)"
  shows "adds_tranche num s t r"
proof -
  obtain q u where pre: "prepareTranche V num deposit s = (q, u)"
    by (cases "prepareTranche V num deposit s")
  have core: "same_core s u" using prepareTranche_core pre by (rule withinD)
  show ?thesis
  proof (cases q)
    case (Ok anp)
    obtain as n p where anp: "anp = (as, n, p)" by (cases anp)
    have "length as = loop_count num \<and> n = length (tranches s)"
      using pre unfolding Ok anp by (rule prepareTranche_Ok)
    with assms pre Ok anp core show ?thesis
      by (cases r) (auto simp: createTranche_split bind_go_def adds_tranche_def same_core_def)
  next
    case (Fail e)
    with assms pre core show ?thesis
      by (auto simp: createTranche_split bind_go_def adds_tranche_def same_core_def)
  next
    case (Panic p)
    with assms pre core show ?thesis
      by (auto simp: createTranche_split bind_go_def adds_tranche_def same_core_def)
  qed
qed

section \<open>Deploying a beacon node\<close>

lemma deployRequested_effect:
  assumes "deployRequested V req name sp s = (r, t)"
  shows "appends (\<lambda>n. Name (opts n) = name \<and> type_of n = map_get (Labels sp) NodeTypeLabel
      \<and> client_of n = map_get (Labels sp) NodeClientLabel) s t (map_outcome fst r)"
    and "r = Ok (n, p) \<Longrightarrow> p = specNodeToNode n"
proof -
  obtain sp' where run: "bind_go (deployNode V sp') (\<lambda>(n, c). ret (n, specNodeToNode n)) s = (r, t)"
    and sp': "Name sp' = name" "Labels sp' = Labels sp"
    using assms by (auto simp: deployRequested_def Let_def with_defs)
  obtain q u where q: "deployNode V sp' s = (q, u)" by (cases "deployNode V sp' s")
  note deployNode_effect [OF q]
  with run q sp' show "appends (\<lambda>n. Name (opts n) = name \<and> type_of n = map_get (Labels sp) NodeTypeLabel
      \<and> client_of n = map_get (Labels sp) NodeClientLabel) s t (map_outcome fst r)"
    by (auto simp: bind_go_def deployed_from_def appends_def split: outcome.splits prod.splits)
  show "r = Ok (n, p) \<Longrightarrow> p = specNodeToNode n"
    using run q by (auto simp: bind_go_def split: outcome.splits prod.splits)
qed

lemma numOfNodes_kind: "numOfNodes V ntyp s = length (filter (of_kind (type_name V ntyp)) (nodes s))"
  by (simp add: numOfNodes_def filterLocked_def HasLabel_def of_kind_def [abs_def] type_of_def)

text \<open>Any of the three clients, through the table of factories.\<close>

lemma beaconFactory_label:
  assumes "map_of (beaconFactory C) clt = Some fac" and "fac cfg w = (Ok sp, v)"
  shows "map_get (Labels sp) NodeTypeLabel = ''Beacon''
    \<and> map_get (Labels sp) NodeClientLabel = NodeClient_String (enum_unknown C) clt"
  using assms lighthouse_beacon.make_label [of C cfg w sp v] prysm_beacon.make_label [of C cfg w sp v]
    teku_beacon.make_label [of C cfg w sp v]
  by (auto simp: beaconFactory_def HasLabel_def split: if_splits)

lemma validatorsFactory_label:
  assumes "map_of (validatorsFactory C) clt = Some fac" and "fac cfg w = (Ok sp, v)"
  shows "map_get (Labels sp) NodeTypeLabel = ''Validator''
    \<and> map_get (Labels sp) NodeClientLabel = NodeClient_String (enum_unknown C) clt"
  using assms lighthouse_validator.make_label [of C cfg w sp v] prysm_validator.make_label [of C cfg w sp v]
    teku_validator.make_label [of C cfg w sp v]
  by (auto simp: validatorsFactory_def HasLabel_def split: if_splits)

lemma appends_Fail: "same_core s t \<Longrightarrow> (\<And>n. r \<noteq> Ok n) \<Longrightarrow> appends P s t r"
  by (cases r) (auto simp: appends_def same_core_def)

text \<open>Building the spec and deploying it under a name, as both kinds of node are.\<close>

lemma factory_deploy_effect:
  assumes "bind_go (on_env (fac cfg)) (deployRequested V req name) s = (r, t)"
    and "\<forall>w sp v. fac cfg w = (Ok sp, v) \<longrightarrow>
      map_get (Labels sp) NodeTypeLabel = typ
      \<and> map_get (Labels sp) NodeClientLabel = clt"
    and "name = node_name kind i clt"
  shows "appends (new_node typ kind clt i) s t (map_outcome fst r)"
    and "r = Ok (n, p) \<Longrightarrow> p = specNodeToNode n"
proof -
  obtain q u where q: "on_env (fac cfg) s = (q, u)" by (cases "on_env (fac cfg) s")
  have core: "same_core s u" using on_env_core q by (rule withinD)
  have "appends (new_node typ kind clt i) s t (map_outcome fst r) \<and> (\<forall>n p. r = Ok (n, p) \<longrightarrow> p = specNodeToNode n)"
  proof (cases q)
    case (Ok sp)
    with q assms(2) have lab: "map_get (Labels sp) NodeTypeLabel = typ" "map_get (Labels sp) NodeClientLabel = clt"
      by (auto simp: on_env_def on_part_Ok_iff)
    have run: "deployRequested V req name sp u = (r, t)"
      using assms(1) q Ok by (simp add: bind_go_def)
    from deployRequested_effect(1) [OF run] lab assms(3)
    have "appends (new_node typ kind clt i) u t (map_outcome fst r)"
      by (auto elim!: appends_mono simp: new_node_def)
    with core have "appends (new_node typ kind clt i) s t (map_outcome fst r)" by (rule appends_core)
    with deployRequested_effect(2) [OF run] show ?thesis by blast
  next
    case (Fail e)
    with q assms(1) core show ?thesis by (auto simp: bind_go_def intro: appends_Fail)
  next
    case (Panic p)
    with q assms(1) core show ?thesis by (auto simp: bind_go_def intro: appends_Fail)
  qed
  then show "appends (new_node typ kind clt i) s t (map_outcome fst r)"
    and "r = Ok (n, p) \<Longrightarrow> p = specNodeToNode n"
    by blast+
qed

lemma deployBeacon_effect:
  assumes "deployBeacon V req s = (r, t)"
  shows "appends (new_node ''Beacon'' ''beacon'' (client_name V (NodeClient req))
      (kind_count ''Beacon'' (nodes s))) s t (map_outcome fst r)"
    and "r = Ok (n, p) \<Longrightarrow> p = specNodeToNode n"
proof -
  let ?clt = "client_name V (NodeClient req)"
  let ?P = "new_node ''Beacon'' ''beacon'' ?clt (kind_count ''Beacon'' (nodes s))"
  let ?name = "node_name ''beacon'' (kind_count ''Beacon'' (nodes s)) ?clt"
  have "appends ?P s t (map_outcome fst r) \<and> (\<forall>n p. r = Ok (n, p) \<longrightarrow> p = specNodeToNode n)"
  proof (cases "map_of (beaconFactory (sv_crypto V)) (NodeClient req)")
    case None
    with assms show ?thesis
      by (auto simp: deployBeacon_def Let_def intro!: appends_Fail same_core.rel_refl)
  next
    case (Some fac)
    obtain bCfg where run: "bind_go (on_env (fac bCfg)) (deployRequested V req ?name) s = (r, t)"
      using assms Some by (auto simp: deployBeacon_def Let_def numOfNodes_kind kind_count_def)
    have "\<forall>w sp v. fac bCfg w = (Ok sp, v) \<longrightarrow>
        map_get (Labels sp) NodeTypeLabel = ''Beacon'' \<and> map_get (Labels sp) NodeClientLabel = ?clt"
      using beaconFactory_label [OF Some] by blast
    from factory_deploy_effect [where fac = fac and cfg = bCfg, OF run this refl] show ?thesis by blast
  qed
  then show "appends ?P s t (map_outcome fst r)" and "r = Ok (n, p) \<Longrightarrow> p = specNodeToNode n"
    by blast+
qed

section \<open>Deploying several beacon nodes\<close>

definition net :: "'w server \<Rightarrow> network" where
  "net s = (nodes s, tranches s)"

definition beacons_of :: "string \<Rightarrow> nat \<Rightarrow> node list \<Rightarrow> bool" where
  "beacons_of clt i ns \<longleftrightarrow> numbered ''Beacon'' ''beacon'' i ns \<and> list_all (\<lambda>n. client_of n = clt) ns"

text \<open>The loop over the beacon nodes of a request: nodes are appended and nothing else changes.\<close>

definition appends_beacons ::
    "string \<Rightarrow> nat \<Rightarrow> 'w server \<Rightarrow> 'w server \<Rightarrow> (node \<times> proto_node) list outcome \<Rightarrow> bool" where
  "appends_beacons clt k s t r \<longleftrightarrow> tranches t = tranches s \<and> srv_config t = srv_config s
     \<and> net_step\<^sup>*\<^sup>* (net s) (net t)
     \<and> (\<exists>new. nodes t = nodes s @ new \<and> beacons_of clt (kind_count ''Beacon'' (nodes s)) new
        \<and> length new \<le> k
        \<and> (case r of Ok bs \<Rightarrow> bs = map (\<lambda>n. (n, specNodeToNode n)) new \<and> length new = k | _ \<Rightarrow> True))"

lemma appends_beacons_none:
  "same_core s t \<Longrightarrow> \<forall>bs. r \<noteq> Ok bs \<Longrightarrow> appends_beacons clt k s t r"
  by (cases r) (simp_all add: appends_beacons_def same_core_def net_def beacons_of_def)

lemma appends_beacons_more:
  assumes "appends (new_node ''Beacon'' ''beacon'' clt (kind_count ''Beacon'' (nodes s))) s u (Ok n)"
    and "appends_beacons clt k u t q"
  shows "appends_beacons clt (Suc k) s t (map_outcome (\<lambda>bs. (n, specNodeToNode n) # bs) q)"
proof -
  let ?i = "kind_count ''Beacon'' (nodes s)"
  from assms(1) have n: "new_node ''Beacon'' ''beacon'' clt ?i n" and u: "nodes u = nodes s @ [n]"
    "tranches u = tranches s" "srv_config u = srv_config s"
    by (simp_all add: appends_def)
  then have "kind_count ''Beacon'' (nodes u) = Suc ?i" by (simp add: kind_count_append kind_count_new)
  with assms(2) obtain new where new: "nodes t = nodes u @ new" "beacons_of clt (Suc ?i) new" "length new \<le> k"
      "case q of Ok bs \<Rightarrow> bs = map (\<lambda>n. (n, specNodeToNode n)) new \<and> length new = k | _ \<Rightarrow> True"
    and t: "tranches t = tranches u" "srv_config t = srv_config u" "net_step\<^sup>*\<^sup>* (net u) (net t)"
    unfolding appends_beacons_def by auto
  have "net_step (net s) (net u)" using n u by (simp add: net_def net_step.NewBeacon)
  with t(3) have "net_step\<^sup>*\<^sup>* (net s) (net t)" by (rule converse_rtranclp_into_rtranclp [rotated])
  moreover have "beacons_of clt ?i (n # new)" using new(2) n by (simp add: beacons_of_def new_node_def)
  ultimately show ?thesis
    using u t new unfolding appends_beacons_def by (auto split: outcome.splits)
qed

lemma repeat_beacons:
  assumes "repeat_go k (deployBeacon V req) s = (r, t)"
  shows "appends_beacons (client_name V (NodeClient req)) k s t r"
  using assms
proof (induction k arbitrary: s r t)
  case 0
  then show ?case by (auto simp: appends_beacons_def beacons_of_def)
next
  case (Suc k)
  obtain q u where q: "deployBeacon V req s = (q, u)" by (cases "deployBeacon V req s")
  note eff = deployBeacon_effect [OF q]
  show ?case
  proof (cases q)
    case (Ok np)
    obtain n p where np: "np = (n, p)" by (cases np)
    have p: "p = specNodeToNode n" using eff(2) Ok np by simp
    obtain q' t' where rest: "repeat_go k (deployBeacon V req) u = (q', t')"
      by (cases "repeat_go k (deployBeacon V req) u")
    have "t' = t \<and> r = map_outcome (\<lambda>bs. (n, p) # bs) q'"
      using Suc.prems q Ok np rest by (cases q') (auto simp: bind_go_def)
    with eff(1) Suc.IH [OF rest] Ok np p show ?thesis by (auto intro: appends_beacons_more)
  qed (use q eff(1) Suc.prems in
      \<open>auto simp: bind_go_def appends_def same_core_def intro!: appends_beacons_none\<close>)
qed

section \<open>Deploying a validator\<close>

definition picks_tranche ::
    "validator_req \<Rightarrow> 'w server \<Rightarrow> 'w server \<Rightarrow> (uint64 \<times> tranche) outcome \<Rightarrow> bool" where
  "picks_tranche deploy s t r \<longleftrightarrow> nodes t = nodes s \<and> srv_config t = srv_config s
     \<and> (case r of
          Ok (k, tr) \<Rightarrow>
            (if NumValidators deploy = 0
             then tranches t = tranches s \<and> k = NumTranch deploy \<and> map_of (tranches s) k = Some tr
               \<and> \<not> IsConsumed tr
             else k = of_nat (length (tranches s)) \<and> tranches t = add_tranche tr (tranches s)
               \<and> (\<exists>as p. tr = new_tranche as p \<and> length as = loop_count (int_of_uint64 (NumValidators deploy))))
        | _ \<Rightarrow> tranches t = tranches s)"

lemma pickTranche_effect:
  assumes "pickTranche V deploy s = (r, t)"
  shows "picks_tranche deploy s t r"
proof (cases "NumValidators deploy = 0")
  case True
  with assms show ?thesis
    by (auto simp: pickTranche_def picks_tranche_def split: option.splits if_splits)
next
  case False
  then have "createTranche V (int_of_uint64 (NumValidators deploy)) True s = (r, t)"
    using assms by (simp add: pickTranche_def)
  from createTranche_effect [OF this] False show ?thesis
    by (auto simp: adds_tranche_def picks_tranche_def split: outcome.splits)
qed

lemma pickTarget_core: "within same_core (pickTarget V req target)"
proof -
  have "within same_core (case bs of [] \<Rightarrow> fail e | n # _ \<Rightarrow> ret n)" for bs :: "node list" and e
    by (cases bs) (simp_all add: same_core.within_pure)
  then show ?thesis
    unfolding pickTarget_def by (intro same_core.within_all)
qed

text \<open>Starting the validator consumes the tranche, or changes neither nodes nor tranches.\<close>

definition starts_validator ::
    "string \<Rightarrow> uint64 \<Rightarrow> 'w server \<Rightarrow> 'w server \<Rightarrow> (node \<times> proto_node) outcome \<Rightarrow> bool" where
  "starts_validator clt k s t r \<longleftrightarrow>
     (case r of
        Ok (n, p) \<Rightarrow> srv_config t = srv_config s \<and> nodes t = nodes s @ [n] \<and> p = specNodeToNode n
          \<and> new_node ''Validator'' ''validator'' clt (kind_count ''Validator'' (nodes s)) n
          \<and> tranches t = consume_tranche k (Name (opts n)) (tranches s)
      | _ \<Rightarrow> same_core s t)"

lemma startValidator_effect:
  assumes "startValidator V req beacon kt s = (r, t)"
  shows "starts_validator (client_name V (NodeClient req)) (fst kt) s t r"
proof -
  let ?clt = "client_name V (NodeClient req)"
  let ?name = "node_name ''validator'' (kind_count ''Validator'' (nodes s)) ?clt"
  show ?thesis
  proof (cases "map_of (validatorsFactory (sv_crypto V)) (NodeClient req)")
    case None
    with assms show ?thesis
      by (auto simp: startValidator_def Let_def starts_validator_def same_core.rel_refl)
  next
    case (Some fac)
    obtain vCfg where run: "bind_go (bind_go (on_env (fac vCfg)) (deployRequested V req ?name)) (\<lambda>nc.
        bind_go (modify (\<lambda>s. s\<lparr>tranches := consume_tranche (fst kt) ?name (tranches s)\<rparr>)) (\<lambda>_. ret nc)) s = (r, t)"
      using assms Some
      by (auto simp: startValidator_def Let_def numOfNodes_kind kind_count_def bind_go_assoc)
    obtain q u where dep: "bind_go (on_env (fac vCfg)) (deployRequested V req ?name) s = (q, u)"
      by (cases "bind_go (on_env (fac vCfg)) (deployRequested V req ?name) s")
    have "\<forall>w sp v. fac vCfg w = (Ok sp, v) \<longrightarrow>
        map_get (Labels sp) NodeTypeLabel = ''Validator'' \<and> map_get (Labels sp) NodeClientLabel = ?clt"
      using validatorsFactory_label [OF Some] by blast
    note eff = factory_deploy_effect [where fac = fac and cfg = vCfg, OF dep this refl]
    show ?thesis
    proof (cases q)
      case (Ok np)
      with run dep eff show ?thesis
        by (cases np) (auto simp: bind_go_def starts_validator_def appends_def new_node_def)
    qed (use run dep eff(1) in \<open>auto simp: bind_go_def starts_validator_def appends_def same_core_def\<close>)
  qed
qed

text \<open>The state after a validator request: a tranche may be new, and on success one is consumed.\<close>

definition picks_untouched :: "validator_req \<Rightarrow> 'w server \<Rightarrow> 'w server \<Rightarrow> bool" where
  "picks_untouched deploy s t \<longleftrightarrow> srv_config t = srv_config s \<and> nodes t = nodes s
     \<and> (tranches t = tranches s \<or> NumValidators deploy \<noteq> 0 \<and> (\<exists>as p. tranches t = add_tranche (new_tranche as p) (tranches s)))"

definition validator_effect ::
    "string \<Rightarrow> validator_req \<Rightarrow> 'w server \<Rightarrow> 'w server \<Rightarrow> (node \<times> proto_node) outcome \<Rightarrow> bool" where
  "validator_effect clt deploy s t r \<longleftrightarrow>
     (case r of
        Ok np \<Rightarrow> (\<exists>k tr u. picks_tranche deploy s u (Ok (k, tr)) \<and> starts_validator clt k u t r)
      | _ \<Rightarrow> picks_untouched deploy s t)"

lemma picks_untouched: "picks_tranche deploy s u q \<Longrightarrow> same_core u t \<Longrightarrow> picks_untouched deploy s t"
  by (auto simp: picks_untouched_def picks_tranche_def same_core_def split: outcome.splits if_splits)

lemma picks_tranche_core: "same_core s u \<Longrightarrow> picks_tranche deploy u v q \<Longrightarrow> picks_tranche deploy s v q"
  by (auto simp: picks_tranche_def same_core_def split: outcome.splits)

lemma validator_effect_failed:
  "picks_untouched deploy s t \<Longrightarrow> \<forall>np. r \<noteq> Ok np \<Longrightarrow> validator_effect clt deploy s t r"
  by (cases r) (simp_all add: validator_effect_def)

lemma validator_effect_core:
  assumes "same_core s u" and "validator_effect clt deploy u t r"
  shows "validator_effect clt deploy s t r"
proof (cases r)
  case (Ok np)
  with assms show ?thesis unfolding validator_effect_def by (auto intro: picks_tranche_core)
qed (use assms in \<open>auto simp: validator_effect_def picks_untouched_def same_core_def\<close>)

lemma pick_and_start:
  assumes "bind_go (pickTranche V deploy) (startValidator V req beacon) s = (r, t)"
  shows "validator_effect (client_name V (NodeClient req)) deploy s t r"
proof -
  obtain q u where q: "pickTranche V deploy s = (q, u)" by (cases "pickTranche V deploy s")
  then have picked: "picks_tranche deploy s u q" by (rule pickTranche_effect)
  show ?thesis
  proof (cases q)
    case (Ok kt)
    with assms q have "startValidator V req beacon kt u = (r, t)" by (simp add: bind_go_def)
    then have start: "starts_validator (client_name V (NodeClient req)) (fst kt) u t r"
      by (rule startValidator_effect)
    show ?thesis
    proof (cases r)
      case (Ok np)
      with picked start \<open>q = Ok kt\<close> show ?thesis
        unfolding validator_effect_def by (cases kt) auto
    qed (use picked start in \<open>auto simp: validator_effect_def starts_validator_def intro: picks_untouched\<close>)
  qed (use assms q picks_untouched [OF picked same_core.rel_refl] in
      \<open>auto simp: bind_go_def intro: validator_effect_failed\<close>)
qed

lemma deployValidator_effect:
  assumes "deployValidator V req deploy target s = (r, t)"
  shows "validator_effect (client_name V (NodeClient req)) deploy s t r"
proof -
  obtain q u where q: "pickTarget V req target s = (q, u)" by (cases "pickTarget V req target s")
  have core: "same_core s u" using pickTarget_core q by (rule withinD)
  then have failed: "picks_untouched deploy s u" by (auto simp: picks_untouched_def same_core_def)
  show ?thesis
  proof (cases q)
    case (Ok beacon)
    with assms q have "bind_go (pickTranche V deploy) (startValidator V req beacon) u = (r, t)"
      by (simp add: deployValidator_def bind_go_def)
    then have "validator_effect (client_name V (NodeClient req)) deploy u t r" by (rule pick_and_start)
    with core show ?thesis by (rule validator_effect_core)
  qed (use assms q failed in \<open>auto simp: deployValidator_def bind_go_def intro: validator_effect_failed\<close>)
qed

text \<open>A validator request as steps of the network.\<close>

lemma net_core: "same_core s t \<Longrightarrow> net t = net s"
  by (simp add: net_def same_core_def)

lemma picks_steps:
  assumes "picks_tranche deploy s u (Ok (k, tr))"
  shows "net_step\<^sup>*\<^sup>* (net s) (net u) \<and> map_of (tranches u) k = Some tr \<and> \<not> IsConsumed tr"
proof (cases "NumValidators deploy = 0")
  case True
  with assms show ?thesis by (auto simp: picks_tranche_def net_def)
next
  case False
  with assms obtain as p where tr: "tr = new_tranche as p" and u: "nodes u = nodes s"
    "k = of_nat (length (tranches s))" "tranches u = add_tranche tr (tranches s)"
    by (auto simp: picks_tranche_def)
  then have "net_step (net s) (net u)" by (simp add: net_def net_step.NewTranche)
  with tr u show ?thesis by (auto simp: add_tranche_def update_conv')
qed

lemma untouched_steps: "picks_untouched deploy s t \<Longrightarrow> net_step\<^sup>*\<^sup>* (net s) (net t)"
  using r_into_rtranclp [of net_step, OF net_step.NewTranche] unfolding picks_untouched_def net_def by fastforce

lemma starts_steps:
  assumes "starts_validator clt k s t r" and "map_of (tranches s) k = Some tr" and "\<not> IsConsumed tr"
  shows "net_step\<^sup>*\<^sup>* (net s) (net t)"
proof (cases r)
  case (Ok np)
  with assms have "net_step (net s) (net t)"
    by (cases np) (auto simp: starts_validator_def net_def intro!: net_step.NewValidator)
  then show ?thesis by blast
qed (use assms in \<open>auto simp: starts_validator_def net_core\<close>)

lemma validator_steps: "validator_effect clt deploy s t r \<Longrightarrow> net_step\<^sup>*\<^sup>* (net s) (net t)"
  unfolding validator_effect_def
  by (cases r) (auto dest!: picks_steps starts_steps untouched_steps intro: rtranclp_trans)

section \<open>NodeDeploy\<close>

text \<open>The nodes and the response of a successful request.\<close>

definition deploys_beacons :: "string \<Rightarrow> nat \<Rightarrow> 'w server \<Rightarrow> 'w server \<Rightarrow> node list \<Rightarrow> bool" where
  "deploys_beacons clt k s t new \<longleftrightarrow> tranches t = tranches s \<and> srv_config t = srv_config s
     \<and> nodes t = nodes s @ new \<and> beacons_of clt (kind_count ''Beacon'' (nodes s)) new \<and> length new = k"

lemma NodeDeploy_steps: "NodeDeploy V req s = (r, t) \<Longrightarrow> net_step\<^sup>*\<^sup>* (net s) (net t)"
proof -
  assume run: "NodeDeploy V req s = (r, t)"
  show ?thesis
  proof (cases "beaconCount (NodeType req)")
    case (Ok k)
    obtain q u where q: "repeat_go k (deployBeacon V req) s = (q, u)"
      by (cases "repeat_go k (deployBeacon V req) s")
    have su: "net_step\<^sup>*\<^sup>* (net s) (net u)"
      using repeat_beacons [OF q] by (simp add: appends_beacons_def)
    show ?thesis
    proof (cases "\<exists>bs deploy. q = Ok bs \<and> NodeType req = Some (ReqValidator deploy)")
      case True
      then obtain bs deploy where bs: "q = Ok bs" "NodeType req = Some (ReqValidator deploy)" by blast
      then obtain r' where "deployValidator V req deploy
          (case bs of [] \<Rightarrow> None | b # _ \<Rightarrow> Some (fst b)) u = (r', t)"
        using run q Ok by (auto simp: NodeDeploy_def bind_go_def split: outcome.splits prod.splits)
      then have "net_step\<^sup>*\<^sup>* (net u) (net t)" by (rule validator_steps [OF deployValidator_effect])
      with su show ?thesis by simp
    next
      case False
      with run q Ok have "t = u"
        by (cases q) (auto simp: NodeDeploy_def bind_go_def split: option.splits deploy_oneof.splits)
      with su show ?thesis by simp
    qed
  qed (use run in \<open>auto simp: NodeDeploy_def bind_go_def\<close>)
qed

lemma NodeDeploy_beacons:
  assumes "NodeDeploy V req s = (Ok ps, t)" and "NodeType req = Some (ReqBeacon n)"
  shows "\<exists>new. deploys_beacons (client_name V (NodeClient req)) (loop_count (int_of_uint64 n)) s t new
    \<and> ps = map specNodeToNode new"
proof -
  from assms obtain bs where "repeat_go (loop_count (int_of_uint64 n)) (deployBeacon V req) s = (Ok bs, t)"
    and "ps = map snd bs"
    by (auto simp: NodeDeploy_def beaconCount_def)
  with repeat_beacons show ?thesis
    by (fastforce simp: appends_beacons_def deploys_beacons_def)
qed

lemma beacons_not_validators: "beacons_of clt i ns \<Longrightarrow> kind_count ''Validator'' ns = 0"
proof -
  have "numbered ''Beacon'' ''beacon'' i ns \<Longrightarrow> filter (of_kind ''Validator'') ns = []"
    by (induction ns arbitrary: i) auto
  then show "beacons_of clt i ns \<Longrightarrow> kind_count ''Validator'' ns = 0"
    by (simp add: beacons_of_def kind_count_def)
qed

text \<open>A validator request: the loop over the beacon nodes, then the validator.\<close>

lemma NodeDeploy_validator_split:
  assumes "NodeDeploy V req s = (r, t)" and "NodeType req = Some (ReqValidator d)"
  defines "clt \<equiv> client_name V (NodeClient req)"
  shows "\<exists>bs u k. k = (if WithBeacon d then loop_count (int_of_uint64 (BeaconCount d)) else 0)
    \<and> tranches u = tranches s \<and> srv_config u = srv_config s
    \<and> nodes u = nodes s @ bs \<and> beacons_of clt (kind_count ''Beacon'' (nodes s)) bs \<and> length bs \<le> k
    \<and> ((\<forall>ps. r \<noteq> Ok ps) \<and> t = u
      \<or> (\<exists>q. length bs = k \<and> validator_effect clt d u t q
          \<and> (case q of Ok np \<Rightarrow> r = Ok (map specNodeToNode bs @ [snd np]) | _ \<Rightarrow> \<forall>ps. r \<noteq> Ok ps)))"
proof -
  let ?k = "if WithBeacon d then loop_count (int_of_uint64 (BeaconCount d)) else 0"
  obtain q u where q: "repeat_go ?k (deployBeacon V req) s = (q, u)"
    by (cases "repeat_go ?k (deployBeacon V req) s")
  note run = assms(1) [unfolded NodeDeploy_def beaconCount_def assms(2)]
  obtain bs where u: "tranches u = tranches s" "srv_config u = srv_config s" "nodes u = nodes s @ bs"
    "beacons_of clt (kind_count ''Beacon'' (nodes s)) bs" "length bs \<le> ?k"
    and ok: "case q of Ok cs \<Rightarrow> cs = map (\<lambda>n. (n, specNodeToNode n)) bs \<and> length bs = ?k | _ \<Rightarrow> True"
    using repeat_beacons [OF q] unfolding appends_beacons_def clt_def by blast
  show ?thesis
  proof (cases q)
    case (Ok cs)
    obtain q' t' where q': "deployValidator V req d
        (case cs of [] \<Rightarrow> None | b # _ \<Rightarrow> Some (fst b)) u = (q', t')"
      by (cases "deployValidator V req d (case cs of [] \<Rightarrow> None | b # _ \<Rightarrow> Some (fst b)) u")
    have cs: "map snd cs = map specNodeToNode bs" and len: "length bs = ?k" using ok Ok by simp_all
    have "t' = t \<and> (case q' of Ok np \<Rightarrow> r = Ok (map snd cs @ [snd np]) | _ \<Rightarrow> \<forall>ps. r \<noteq> Ok ps)"
      using run q Ok q' by (cases q') (auto simp: bind_go_def)
    then have t: "t' = t" and r: "case q' of Ok np \<Rightarrow> r = Ok (map specNodeToNode bs @ [snd np]) | _ \<Rightarrow> \<forall>ps. r \<noteq> Ok ps"
      unfolding cs by blast+
    have "validator_effect clt d u t q'"
      using deployValidator_effect [OF q'] t by (simp add: clt_def)
    with u len r show ?thesis by blast
  next
    case (Fail e)
    then have "t = u \<and> (\<forall>ps. r \<noteq> Ok ps)" using run q by (auto simp: bind_go_def)
    with u show ?thesis by blast
  next
    case (Panic e)
    then have "t = u \<and> (\<forall>ps. r \<noteq> Ok ps)" using run q by (auto simp: bind_go_def)
    with u show ?thesis by blast
  qed
qed

end
