(* ===== verification/ServerStart.thy ===== *)
theory ServerStart
  imports ServerRuns
begin

text \<open>
  Starting and stopping the server (\<open>NewServer\<close>, \<open>setupEth1Network\<close>, \<open>setupGenesis\<close>, \<open>Stop\<close> of
  internal/server/server.go): the state a server starts from, how the genesis state is made of the
  first tranches, and that stopping reaches every node.
\<close>

section \<open>The first nodes\<close>

definition base_node :: "string \<Rightarrow> node \<Rightarrow> bool" where
  "base_node name n \<longleftrightarrow> name_of n = name \<and> type_of n = []"

lemma deployNode_base:
  assumes "deployNode V sp s = (Ok (n, c), t)" and "map_get (Labels sp) NodeTypeLabel = []"
  shows "nodes t = nodes s @ [n] \<and> base_node (Name sp) n \<and> tranches t = tranches s \<and> srv_config t = srv_config s"
  using deployNode_effect [OF assms(1)] assms(2)
  by (simp add: appends_def deployed_from_def base_node_def name_of_def)

lemma bootnode_labels [simp]:
  "map_get (Labels NewBootnodeV5) NodeTypeLabel = []" "map_get (Labels NewBootnodeV4) NodeTypeLabel = []"
  by (simp_all add: NewBootnodeV5_def NewBootnodeV4_def with_defs empty_spec_def)

lemma WithName_simps [simp]: "Name (WithName n s) = n" "Labels (WithName n s) = Labels s"
  by (simp_all add: WithName_def)

lemma NewEth1Server_labels:
  assumes "NewEth1Server C config w = (Ok sp, v)"
  shows "map_get (Labels sp) NodeTypeLabel = []"
  using assms
  by (auto simp: NewEth1Server_def Let_def with_defs empty_spec_def NodeTypeLabel_def map_get_def
      split: option.splits sum.splits)

text \<open>What is fixed once the configuration has the deposit contract.\<close>

definition genesis_params :: "config \<Rightarrow> string \<times> uint64 \<times> uint64" where
  "genesis_params c = (cfg_Name c, NumTranches c, NumGenesisValidators c)"

lemma setupEth1Network_Ok:
  assumes "setupEth1Network V s = (Ok u, t)"
  shows "\<exists>n. nodes t = nodes s @ [n] \<and> base_node ''eth1'' n \<and> tranches t = tranches s
    \<and> genesis_params (srv_config t) = genesis_params (srv_config s)"
proof -
  from assms obtain g config x1 x2 sp x3 n c addr key e x6 where
    gen: "on_env (NewDevGenesis (sv_crypto V)) s = (Ok g, x1)"
    and spec: "on_env (NewEth1Server (sv_crypto V) config) x1 = (Ok sp, x2)"
    and dep: "deployNode V (WithName ''eth1'' sp) x2 = (Ok (n, c), x3)"
    and handler: "on_env (newDepositHandler (sv_eth V) addr key) (x3\<lparr>eth1HttpAddr := addr\<rparr>) = (Ok e, x6)"
    and t: "t = x6\<lparr>srv_depositHandler := Some e, srv_config := (srv_config x6)\<lparr>Spec :=
       (Spec (srv_config x6))\<lparr>DepositContract := address_String (sv_crypto V) (dh_deposit e)\<rparr>\<rparr>\<rparr>"
    unfolding setupEth1Network_def by (auto split: prod.splits)
  have "same_core s x1" using on_env_core gen by (rule withinD)
  moreover have "same_core x1 x2" using on_env_core spec by (rule withinD)
  moreover have "same_core (x3\<lparr>eth1HttpAddr := addr\<rparr>) x6" using on_env_core handler by (rule withinD)
  moreover have "map_get (Labels sp) NodeTypeLabel = []"
    using spec by (auto simp: on_env_def on_part_Ok_iff intro: NewEth1Server_labels)
  ultimately show ?thesis
    using deployNode_base [OF dep] t by (auto simp: same_core_def genesis_params_def)
qed

section \<open>The first tranches\<close>

definition fresh_tranches :: "int \<Rightarrow> tranche_map \<Rightarrow> bool" where
  "fresh_tranches num m \<longleftrightarrow>
     list_all (\<lambda>(k, tr). \<exists>as p. tr = new_tranche as p \<and> length as = loop_count num) m"

lemma fresh_append: "fresh_tranches num (m @ m') \<longleftrightarrow> fresh_tranches num m \<and> fresh_tranches num m'"
  by (simp add: fresh_tranches_def)

lemma fresh_consumed: "fresh_tranches num m \<Longrightarrow> consumed m = []"
  by (auto simp: fresh_tranches_def consumed_def list_all_iff filter_empty_conv)

lemma fresh_total:
  "fresh_tranches num m \<Longrightarrow> length (concat (map (Accounts \<circ> snd) m)) = length m * loop_count num"
  by (induction m) (auto simp: fresh_tranches_def)

lemma tranches_ok_Nil [simp]: "tranches_ok []"
  by (simp add: tranches_ok_def)

lemma repeat_tranches:
  assumes "repeat_go k (createTranche V num deposit) s = (Ok ts, t)"
    and "tranches_ok (tranches s)" and "length (tranches s) + k < 2 ^ 64"
  shows "tranches t = tranches s @ ts \<and> fresh_tranches num ts \<and> length ts = k
    \<and> nodes t = nodes s \<and> srv_config t = srv_config s \<and> tranches_ok (tranches t)"
  using assms
proof (induction k arbitrary: s ts)
  case (Suc k)
  then obtain i tr u rest where new: "createTranche V num deposit s = (Ok (i, tr), u)"
    and rest: "repeat_go k (createTranche V num deposit) u = (Ok rest, t)" and ts: "ts = (i, tr) # rest"
    by auto
  from createTranche_effect [OF new] Suc.prems(2)
  have u: "tranches u = tranches s @ [(i, tr)]" "nodes u = nodes s" "srv_config u = srv_config s"
    and fresh: "fresh_tranches num [(i, tr)]"
    by (auto simp: adds_tranche_def add_tranche_append fresh_tranches_def)
  have "tranches u = add_tranche tr (tranches s)"
    using createTranche_effect [OF new] by (simp add: adds_tranche_def)
  then have "tranches_ok (tranches u)"
    using Suc.prems(2,3) by (simp add: go_map.inv_add)
  with Suc.IH [OF rest] Suc.prems(3) u fresh ts show ?case
    using fresh_append [of num "[(i, tr)]" rest] by auto
qed (auto simp: fresh_tranches_def)

text \<open>
  The genesis state is made of a block the execution node answers with and of the accounts of all
  tranches created, in order.
\<close>

definition genesis_of :: "('w, 'h) services \<Rightarrow> string \<Rightarrow> eth2_spec \<Rightarrow> tranche_map \<Rightarrow> bytes \<Rightarrow> bool" where
  "genesis_of V addr sp m ssz \<longleftrightarrow> (\<exists>x y block st.
     eth_GetBlockByNumber (sv_eth V) addr x = (Ok (Some block), y)
     \<and> GenerateGenesis (sv_crypto V) (sv_ssz V) (genesis_input sp block (concat (map (Accounts \<circ> snd) m))) = Ok (Some st)
     \<and> ssz_Marshal (sv_ssz V) st = Ok ssz)"

text \<open>The two files of the log directory that tell of the genesis.\<close>

definition log_file :: "'w server \<Rightarrow> string \<Rightarrow> bytes option" where
  "log_file s n = fs_files (fs (env s)) (path_join (dir_path (srv_logDir s)) n)"

definition genesis_files :: "'w server \<Rightarrow> bool" where
  "genesis_files s \<longleftrightarrow> log_file s ''spec.yaml'' = Some (buildConfig (Spec (srv_config s)))
     \<and> log_file s ''genesis.ssz'' = Some (genesisSSZ s)"

lemma genesis_file_names: "path_join d ''spec.yaml'' \<noteq> path_join d ''genesis.ssz''"
proof
  assume "path_join d ''spec.yaml'' = path_join d ''genesis.ssz''"
  then have "last ''spec.yaml'' = last ''genesis.ssz''"
    using last_path_join [of "''spec.yaml''" d] last_path_join [of "''genesis.ssz''" d]
    by (simp add: plain_name_def slash_def)
  then show False by simp
qed

lemma on_env_writeFile:
  assumes "on_env (on_fs (writeFile l n content)) s = (Ok p, t)"
  shows "\<exists>w. t = s\<lparr>env := w\<rparr> \<and> fs_files (fs w) = (fs_files (fs (env s)))(path_join (dir_path l) n \<mapsto> content)"
  using assms writeFile_Ok [of l n content "fs (env s)" p]
  by (auto simp: on_env_def on_fs_def on_part_Ok_iff)

lemma on_env_rest: "on_env m s = (r, t) \<Longrightarrow> \<exists>w. t = s\<lparr>env := w\<rparr>"
  by (auto simp: on_env_def on_part_Ok_iff)

text \<open>The last part of \<open>setupGenesis\<close> writes files only.\<close>

lemma setupGenesis_Ok:
  assumes "setupGenesis V s = (Ok u, t)" and "tranches s = []"
  shows "let cfg = srv_config s in nodes t = nodes s \<and> srv_config t = cfg
    \<and> length (tranches t) = loop_count (int_of_uint64 (NumTranches cfg))
    \<and> fresh_tranches (int_of_uint64 (NumGenesisValidators cfg div NumTranches cfg)) (tranches t)
    \<and> tranches_ok (tranches t) \<and> genesis_of V (eth1HttpAddr t) (Spec cfg) (tranches t) (genesisSSZ t)
    \<and> genesis_files t"
proof -
  let ?cfg = "srv_config s"
  let ?k = "loop_count (int_of_uint64 (NumTranches ?cfg))"
  let ?num = "int_of_uint64 (NumGenesisValidators ?cfg div NumTranches ?cfg)"
  from assms(1) obtain ts x1 a1 x2 b x3 block st ssz x4 a2 a3 where
    ts: "repeat_go ?k (createTranche V ?num False) s = (Ok ts, x1)"
    and client: "on_env (ext_call (NewClient (eth1HttpAddr x1)) (eth_NewClient (sv_eth V) (eth1HttpAddr x1))) x1 = (Ok a1, x2)"
    and block: "on_env (ext_call GetBlockByNumber (eth_GetBlockByNumber (sv_eth V) (eth1HttpAddr x1))) x2 = (Ok b, x3)"
    and b: "b = Some block"
    and gen: "GenerateGenesis (sv_crypto V) (sv_ssz V) (genesis_input (Spec ?cfg) block (concat (map (Accounts \<circ> snd) ts))) = Ok (Some st)"
    and ssz: "ssz_Marshal (sv_ssz V) st = Ok ssz"
    and w1: "on_env (on_fs (writeFile (srv_logDir x3) ''spec.yaml'' (buildConfig (Spec ?cfg)))) (x3\<lparr>genesisSSZ := ssz\<rparr>) = (Ok a2, x4)"
    and w2: "on_env (on_fs (writeFile (srv_logDir x3) ''genesis.ssz'' ssz)) x4 = (Ok a3, t)"
    unfolding setupGenesis_def Let_def by (auto split: option.splits)
  from block obtain y v where answer: "eth_GetBlockByNumber (sv_eth V) (eth1HttpAddr x1) y = (Ok (Some block), v)"
    by (auto simp: on_env_def on_part_Ok_iff ext_call_def b split: prod.splits)
  have "?k < 2 ^ 64"
    using loop_count_small [of "NumTranches ?cfg"] loop_count_wrap [of "NumTranches ?cfg"]
    by (cases "unat (NumTranches ?cfg) < 2 ^ 63") auto
  then have x1: "tranches x1 = ts \<and> fresh_tranches ?num ts \<and> length ts = ?k
      \<and> nodes x1 = nodes s \<and> srv_config x1 = ?cfg \<and> tranches_ok (tranches x1)"
    using repeat_tranches [OF ts] assms(2) tranches_ok_Nil by auto
  have core: "same_core x1 x2" "same_core x2 x3" "same_core (x3\<lparr>genesisSSZ := ssz\<rparr>) x4" "same_core x4 t"
    using client block w1 w2 by (auto dest: withinD [OF on_env_core])
  obtain v1 v2 where "x2 = x1\<lparr>env := v1\<rparr>" "x3 = x2\<lparr>env := v2\<rparr>" using on_env_rest client block by metis
  moreover note w = on_env_writeFile [OF w1] on_env_writeFile [OF w2]
  ultimately have "genesisSSZ t = ssz" "eth1HttpAddr t = eth1HttpAddr x1" "srv_config t = srv_config x1"
    "log_file t ''spec.yaml'' = Some (buildConfig (Spec ?cfg))" "log_file t ''genesis.ssz'' = Some ssz"
    using genesis_file_names by (auto simp: log_file_def)
  with x1 core gen ssz answer show ?thesis
    by (auto simp: same_core_def Let_def genesis_of_def genesis_files_def)
qed

section \<open>NewServer\<close>

text \<open>What holds of a server from its start on.\<close>

definition server_inv :: "'w server \<Rightarrow> bool" where
  "server_inv s \<longleftrightarrow> net_inv (net s)"

lemma base_nodes_named:
  assumes "base_node ''bootnode'' a" and "base_node ''bootnode-v4'' b" and "base_node ''eth1'' c"
  shows "well_named [a, b, c]" and "filter (of_kind ''Validator'') [a, b, c] = []"
  using assms by (simp_all add: well_named_def base_names_def other_kind_def of_kind_def base_node_def)

lemma start_server_Ok:
  assumes "start_server V s = (Ok u, t)" and "nodes s = []" and "tranches s = []"
  shows "server_inv t \<and> map name_of (nodes t) = base_names \<and> consumed (tranches t) = []
    \<and> genesis_params (srv_config t) = genesis_params (srv_config s)
    \<and> length (tranches t) = loop_count (int_of_uint64 (NumTranches (srv_config s)))
    \<and> fresh_tranches (int_of_uint64 (NumGenesisValidators (srv_config s) div NumTranches (srv_config s))) (tranches t)
    \<and> genesis_of V (eth1HttpAddr t) (Spec (srv_config t)) (tranches t) (genesisSSZ t) \<and> genesis_files t"
proof -
  from assms(1) obtain n1 c1 x1 n2 c2 x2 x3 x4 u1 u2 u3 where
    b5: "deployNode V (WithName ''bootnode'' NewBootnodeV5) s = (Ok (n1, c1), x1)"
    and b4: "deployNode V (WithName ''bootnode-v4'' NewBootnodeV4) (x1\<lparr>bootnodeENR := c1\<rparr>) = (Ok (n2, c2), x2)"
    and eth1: "setupEth1Network V (x2\<lparr>bootnodeEC := c2\<rparr>) = (Ok u1, x3)"
    and gen: "setupGenesis V x3 = (Ok u2, x4)" and grpc: "setupGrpcServer V x4 = (Ok u3, t)"
    unfolding start_server_def by auto
  have x1: "nodes x1 = [n1]" "base_node ''bootnode'' n1" "tranches x1 = []" "srv_config x1 = srv_config s"
    using deployNode_base [OF b5] assms(2,3) by auto
  have x2: "nodes x2 = [n1, n2]" "base_node ''bootnode-v4'' n2" "tranches x2 = []" "srv_config x2 = srv_config s"
    using deployNode_base [OF b4] x1 by auto
  obtain n3 where x3: "nodes x3 = [n1, n2, n3]" "base_node ''eth1'' n3" "tranches x3 = []"
    "genesis_params (srv_config x3) = genesis_params (srv_config s)"
    using setupEth1Network_Ok [OF eth1] x2 by auto
  note x4 = setupGenesis_Ok [OF gen x3(3), unfolded Let_def]
  have same: "same_core x4 t" "genesisSSZ t = genesisSSZ x4" "eth1HttpAddr t = eth1HttpAddr x4"
    "log_file t = log_file x4"
    using grpc
    by (auto simp: setupGrpcServer_def on_env_def on_part_Ok_iff same_core_def log_file_def ext_call_def fun_eq_iff
        split: prod.splits)
  then have ns: "nodes t = [n1, n2, n3]" using x4 x3 by (simp add: same_core_def)
  then have "well_named (nodes t)" "filter (of_kind ''Validator'') (nodes t) = []"
    using base_nodes_named [OF x1(2) x2(2) x3(2)] by metis+
  moreover have core: "tranches t = tranches x4" "srv_config t = srv_config x3"
    using same x4 by (simp_all add: same_core_def)
  moreover have consumed: "consumed (tranches t) = []" using x4 fresh_consumed core by metis
  ultimately have "server_inv t"
    using x4 by (auto simp: server_inv_def net_inv_def net_def tranches_used_def filter_empty_conv)
  moreover have "map name_of (nodes t) = base_names"
    using x1 x2 x3 unfolding ns by (simp add: base_node_def base_names_def)
  ultimately show ?thesis
    using x4 x3(4) same consumed core by (simp add: genesis_params_def genesis_files_def)
qed

text \<open>The two checks before anything is started.\<close>

lemma NewServer_cases:
  assumes "NewServer V cfg w = (Ok s, v)"
  shows "NumTranches cfg \<noteq> 0 \<and> NumGenesisValidators cfg mod NumTranches cfg = 0 \<and> v = env s
    \<and> (\<exists>l w'. start_server V (new_server cfg l w') = (Ok (), s))"
  using assms by (auto simp: NewServer_def split: if_splits outcome.splits prod.splits) blast

lemma word_div_mult:
  fixes a b :: uint64
  assumes "a mod b = 0"
  shows "unat (a div b) * unat b = unat a"
proof -
  have "unat a mod unat b = 0" using assms by (metis unat_mod_distrib unat_0)
  then show ?thesis by (simp add: unat_div_distrib div_mult_self_is_m dvd_div_mult_self dvd_eq_mod_eq_0)
qed

lemma NewServer_Ok_genesis:
  assumes "NewServer V cfg w = (Ok s, v)" and "unat (NumGenesisValidators cfg) < 2 ^ 63"
  shows "length (concat (map (Accounts \<circ> snd) (tranches s))) = unat (NumGenesisValidators cfg)
    \<and> (\<forall>(k, tr) \<in> set (tranches s).
        length (Accounts tr) * unat (NumTranches cfg) = unat (NumGenesisValidators cfg))
    \<and> genesis_of V (eth1HttpAddr s) (Spec (srv_config s)) (tranches s) (genesisSSZ s) \<and> genesis_files s"
proof -
  let ?n = "NumGenesisValidators cfg" and ?k = "NumTranches cfg"
  from NewServer_cases [OF assms(1)] obtain l w' where k: "?k \<noteq> 0" and mult: "?n mod ?k = 0"
    and start: "start_server V (new_server cfg l w') = (Ok (), s)"
    by (elim conjE exE)
  have eq: "unat (?n div ?k) * unat ?k = unat ?n" using mult by (rule word_div_mult)
  have "unat (?n div ?k) \<le> unat ?n" by (simp add: unat_div_distrib)
  then have num: "loop_count (int_of_uint64 (?n div ?k)) = unat (?n div ?k)"
    using assms(2) by (simp add: loop_count_small)
  have fresh: "fresh_tranches (int_of_uint64 (?n div ?k)) (tranches s)"
    and len: "length (tranches s) = loop_count (int_of_uint64 ?k)"
    and gen: "genesis_of V (eth1HttpAddr s) (Spec (srv_config s)) (tranches s) (genesisSSZ s)" "genesis_files s"
    using start_server_Ok [OF start] by (simp_all add: new_server_def)
  have "loop_count (int_of_uint64 ?k) * unat (?n div ?k) = unat ?n"
  proof (cases "unat ?k < 2 ^ 63")
    case True
    with eq show ?thesis by (simp add: loop_count_small mult.commute)
  next
    case False
    have "unat ?n = 0"
    proof (rule ccontr)
      assume "unat ?n \<noteq> 0"
      with eq have "unat (?n div ?k) \<noteq> 0" by (metis mult_0)
      with eq have "unat ?k \<le> unat ?n" by (metis mult.commute nat_le_linear mult_le_mono1 One_nat_def Suc_leI le_numeral_extra(4) mult.right_neutral mult_le_mono2 neq0_conv)
      with False assms(2) show False by linarith
    qed
    with eq False show ?thesis by (simp add: loop_count_wrap)
  qed
  with fresh_total [OF fresh] len num have "length (concat (map (Accounts \<circ> snd) (tranches s))) = unat ?n"
    by simp
  moreover have "\<forall>(k, tr) \<in> set (tranches s). length (Accounts tr) * unat ?k = unat ?n"
    using fresh num eq by (fastforce simp: fresh_tranches_def list_all_iff)
  ultimately show ?thesis using gen by blast
qed

text \<open>The services of the sample components.\<close>

definition sample_services :: "(nat, nat) services" where
  "sample_services = \<lparr>sv_docker = sample_docker, sv_crypto = sample_crypto, sv_eth = sample_eth,
     sv_ssz = sample_ssz, sv_listen = (\<lambda>a n. (Ok (), n)), sv_range = (\<lambda>m n. (m, n))\<rparr>"

definition sample_config :: config where
  "sample_config = \<lparr>cfg_Name = ''test'', Spec = DefaultEth2Spec 9, NumTranches = 2, NumGenesisValidators = 4\<rparr>"

lemma Close_no_panic: "fst (Close l f) \<noteq> Panic p"
proof -
  have one: "os_close h g \<noteq> (Panic p, g')" for h g g'
    by (simp add: os_close_def Let_def split: option.split)
  have "for_each hs os_close g \<noteq> (Panic p, g')" for hs g g'
    by (induction hs arbitrary: g) (auto simp: bind_go_Panic_iff one)
  then show ?thesis by (auto simp: Close_def bind_go_def split: outcome.split prod.split)
qed

section \<open>Stopping\<close>

text \<open>Every node is asked to stop, whatever Docker answers.\<close>

lemma stop_each:
  assumes "\<forall>i x p y. dk_ContainerStop (sv_docker V) i x \<noteq> (Panic p, y)"
  shows "\<exists>rs t. for_each ns (\<lambda>n. attempt (on_env (Stop (sv_docker V) n))) s = (Ok rs, t)
    \<and> trace (env t) = trace (env s) @ map (\<lambda>n. ContainerStop (node_id n)) ns \<and> same_core s t"
proof (induction ns arbitrary: s)
  case (Cons n ns)
  have "\<exists>r u. attempt (on_env (Stop (sv_docker V) n)) s = (Ok r, u)
      \<and> trace (env u) = trace (env s) @ [ContainerStop (node_id n)] \<and> same_core s u"
    using assms
    by (auto simp: attempt_def on_env_def on_part_def Stop_def wrap_err_def ext_call_def same_core_def
        split: outcome.split prod.split)
  then obtain r u where "attempt (on_env (Stop (sv_docker V) n)) s = (Ok r, u)"
    "trace (env u) = trace (env s) @ [ContainerStop (node_id n)]" "same_core s u"
    by blast
  with Cons [of u] show ?case by (auto simp: bind_go_def intro: same_core.rel_trans)
qed (simp add: same_core.rel_refl)

lemma StopServer_trace:
  assumes "\<forall>i x p y. dk_ContainerStop (sv_docker V) i x \<noteq> (Panic p, y)"
  shows "\<exists>t. StopServer V s = (Ok (), t)
    \<and> trace (env t) = trace (env s) @ map (\<lambda>n. ContainerStop (node_id n)) (nodes s)
    \<and> nodes t = nodes s"
proof -
  obtain rs u where stops: "for_each (nodes s) (\<lambda>n. attempt (on_env (Stop (sv_docker V) n))) s = (Ok rs, u)"
    "trace (env u) = trace (env s) @ map (\<lambda>n. ContainerStop (node_id n)) (nodes s)" "same_core s u"
    using stop_each [OF assms] by blast
  have "\<exists>r v. attempt (on_env (on_fs (Close l))) u = (Ok r, v) \<and> trace (env v) = trace (env u) \<and> same_core u v" for l
    using Close_no_panic [of l "fs (env u)"]
    by (cases "fst (Close l (fs (env u)))")
       (auto simp: attempt_def on_env_def on_part_def on_fs_def same_core_def split: outcome.split prod.split)
  from this [of "srv_logDir u"] stops show ?thesis
    by (auto simp: StopServer_def bind_go_def same_core_def)
qed

end
