(* ===== verification/ServerSystem.thy ===== *)
theory ServerSystem
  imports ServerStart
begin

text \<open>
  The running server: gRPC requests arrive in any order, and between them the goroutines go on that
  follow containers and finish deposits.  A handler holds the server's lock from its first line to its
  last, so it is one step.  A panic in a handler ends the process, so it leads nowhere.
\<close>

section \<open>Requests and steps\<close>

text \<open>
  A goroutine of a container may belong to any container the server has started, also to one whose
  deployment failed later on.  A goroutine of a deposit is one that an earlier request left behind.
\<close>

inductive server_step :: "('w, 'h) services \<Rightarrow> 'w server \<Rightarrow> 'w server \<Rightarrow> bool" for V where
  Request: "handle V q s = (r, t) \<Longrightarrow> \<forall>p. r \<noteq> Panic p \<Longrightarrow> server_step V s t"
| Output: "on_env (trackOutput (sv_docker V) n) s = (r, t) \<Longrightarrow> \<forall>p. r \<noteq> Panic p \<Longrightarrow> server_step V s t"
| Exit: "on_env (run (sv_docker V) n) s = (r, t) \<Longrightarrow> \<forall>p. r \<noteq> Panic p \<Longrightarrow> server_step V s t"
| Deposit: "srv_depositHandler s = Some e \<Longrightarrow> i < length (dh_threads e) \<Longrightarrow>
     on_deposits (thread_step (sv_eth V) (sv_crypto V) (dh_chans e) i []) s = (r, t) \<Longrightarrow>
     \<forall>p. r \<noteq> Panic p \<Longrightarrow> server_step V s t"

inductive_cases server_stepE: "server_step V s t"

section \<open>The server implements the abstract network\<close>

lemma no_reply_state: "no_reply m s = (r, t) \<Longrightarrow> \<exists>q. m s = (q, t)"
  by (auto simp: no_reply_def bind_go_def split: outcome.splits prod.splits)

lemma createTranche_steps:
  assumes "createTranche V num deposit s = (r, t)"
  shows "net_step\<^sup>*\<^sup>* (net s) (net t)"
proof -
  have "tranches t = tranches s \<or> (\<exists>as p. tranches t = add_tranche (new_tranche as p) (tranches s))"
    and "nodes t = nodes s"
    using createTranche_effect [OF assms] by (auto simp: adds_tranche_def split: outcome.splits)
  then show ?thesis
    using r_into_rtranclp [of net_step, OF net_step.NewTranche] unfolding net_def by fastforce
qed

lemma DepositCreate_steps:
  assumes "DepositCreate V n s = (r, t)"
  shows "net_step\<^sup>*\<^sup>* (net s) (net t)"
proof -
  from assms obtain q where "createTranche V (int_of_uint64 n) True s = (q, t)"
    by (auto simp: DepositCreate_def bind_go_def split: outcome.splits prod.splits)
  then show ?thesis by (rule createTranche_steps)
qed

lemma DepositList_core: "within same_core (DepositList V)"
  unfolding DepositList_def by (intro same_core.within_all core_rules)

lemma NodeStatus_state: "NodeStatus name s = (r, t) \<Longrightarrow> t = s"
  by (auto simp: NodeStatus_def split: if_splits option.splits)

lemma handle_steps:
  assumes "handle V q s = (r, t)"
  shows "net_step\<^sup>*\<^sup>* (net s) (net t)"
proof (cases q)
  case DepositListReq
  with assms obtain r' where "DepositList V s = (r', t)" by (auto dest: no_reply_state)
  then have "same_core s t" by (rule withinD [OF DepositList_core])
  then show ?thesis by (simp add: net_core)
next
  case (DepositCreateReq n)
  with assms show ?thesis by (auto dest!: no_reply_state intro: DepositCreate_steps)
next
  case (NodeDeployReq req)
  with assms show ?thesis by (auto dest!: no_reply_state intro: NodeDeploy_steps)
next
  case NodeListReq
  with assms show ?thesis by (auto dest!: no_reply_state simp: NodeList_def)
next
  case (NodeStatusReq name)
  with assms show ?thesis by (auto dest!: no_reply_state NodeStatus_state)
qed

lemma server_step_steps:
  assumes "server_step V s t"
  shows "net_step\<^sup>*\<^sup>* (net s) (net t)"
  using assms
proof (rule server_stepE)
  fix q r
  assume "handle V q s = (r, t)"
  then show ?thesis by (rule handle_steps)
next
  fix n r
  assume "on_env (trackOutput (sv_docker V) n) s = (r, t)"
  then have "same_core s t" by (rule withinD [OF on_env_core])
  then show ?thesis by (simp add: net_core)
next
  fix n r
  assume "on_env (run (sv_docker V) n) s = (r, t)"
  then have "same_core s t" by (rule withinD [OF on_env_core])
  then show ?thesis by (simp add: net_core)
next
  fix e i r
  assume "on_deposits (thread_step (sv_eth V) (sv_crypto V) (dh_chans e) i []) s = (r, t)"
  then have "same_core s t" by (rule withinD [OF on_deposits_core])
  then show ?thesis by (simp add: net_core)
qed

interpretation server: refined_invariant "server_step V" net_step net net_inv for V :: "('w, 'h) services"
  by unfold_locales (rule server_step_steps)

section \<open>A concrete server\<close>

text \<open>
  The state a start with two tranches leaves, with one of them used by a validator.  The configuration
  file is a constant the evaluation of the examples need not open.
\<close>

definition plain_node :: "string \<Rightarrow> string \<Rightarrow> (string \<times> string) list \<Rightarrow> node" where
  "plain_node i name labels = \<lparr>node_id = i, opts = empty_spec\<lparr>Name := name, Labels := labels\<rparr>,
     ip = ''172.17.0.2'', mountMap = []\<rparr>"

definition sample_nodes :: "node list" where
  "sample_nodes = [plain_node ''c0'' ''bootnode'' [], plain_node ''c1'' ''bootnode-v4'' [],
     plain_node ''c2'' ''eth1'' [],
     plain_node ''c3'' ''beacon-0-teku'' [(NodeClientLabel, ''Teku''), (NodeTypeLabel, ''Beacon'')],
     plain_node ''c4'' ''validator-0-teku'' [(NodeClientLabel, ''Teku''), (NodeTypeLabel, ''Validator'')]]"

definition sample_server :: "nat server" where
  "sample_server = (new_server sample_config \<lparr>dir_path = ''/work'', logFiles = []\<rparr> sample_world)
     \<lparr>eth1HttpAddr := ''http://172.17.0.2:8545'', srv_depositHandler := Some sample_handler,
      nodes := sample_nodes, bootnodeENR := ''enr:-x'',
      tranches := [(0, \<lparr>Accounts = sample_accounts, Filepath = ''/work/tranche_0.txt'', tr_Validator = ''validator-0-teku''\<rparr>),
                   (1, new_tranche sample_accounts ''/work/tranche_1.txt'')]\<rparr>"

definition teku_beacon_request :: node_deploy_request where
  "teku_beacon_request = \<lparr>NodeClient = NodeClient_Teku, Repo = [], req_Tag = [], NodeType = Some (ReqBeacon 1)\<rparr>"

definition teku_validator_request :: node_deploy_request where
  "teku_validator_request = \<lparr>NodeClient = NodeClient_Teku, Repo = [], req_Tag = [], NodeType = Some (ReqValidator
     \<lparr>NumValidators = 0, NumTranch = 1, WithBeacon = False, BeaconCount = 1\<rparr>)\<rparr>"

definition used_tranche_request :: node_deploy_request where
  "used_tranche_request = \<lparr>NodeClient = NodeClient_Teku, Repo = [], req_Tag = [], NodeType = Some (ReqValidator
     \<lparr>NumValidators = 0, NumTranch = 0, WithBeacon = False, BeaconCount = 0\<rparr>)\<rparr>"

lemma sample_server_simps:
  "nodes sample_server = sample_nodes" "length (tranches sample_server) = 2"
  "map name_of sample_nodes = [''bootnode'', ''bootnode-v4'', ''eth1'', ''beacon-0-teku'', ''validator-0-teku'']"
  by (simp_all add: sample_server_def sample_nodes_def plain_node_def name_of_def)

lemma sample_server_inv: "server_inv sample_server"
proof -
  have "well_named sample_nodes" by code_simp
  moreover have "tranches_used sample_nodes (tranches sample_server)"
  proof -
    have "tranches_ok (tranches sample_server)"
      by (simp add: tranches_ok_def sample_server_def)
    moreover have "consumed (tranches sample_server) = [''validator-0-teku'']" by code_simp
    moreover have "map name_of (filter (of_kind ''Validator'') sample_nodes) = [''validator-0-teku'']" by code_simp
    ultimately show ?thesis by (simp add: tranches_used_def)
  qed
  ultimately show ?thesis
    by (simp add: server_inv_def net_inv_def net_def sample_server_simps)
qed

declare buildConfig_def [code del]

lemma teku_beacon_deployed:
  "\<exists>ps t. NodeDeploy sample_services teku_beacon_request sample_server = (Ok ps, t) \<and> map node_Name ps = [''beacon-1-teku'']"
proof -
  have "map_outcome (map node_Name) (fst (NodeDeploy sample_services teku_beacon_request sample_server)) = Ok [''beacon-1-teku'']"
    by code_simp
  then show ?thesis
    by (cases "NodeDeploy sample_services teku_beacon_request sample_server";
        cases "fst (NodeDeploy sample_services teku_beacon_request sample_server)") auto
qed

declare buildConfig_def [code]

lemma teku_beacon_run:
  "\<exists>ps t n. NodeDeploy sample_services teku_beacon_request sample_server = (Ok ps, t)
    \<and> nodes t = sample_nodes @ [n] \<and> name_of n = ''beacon-1-teku'' \<and> tranches t = tranches sample_server"
proof -
  obtain ps t where run: "NodeDeploy sample_services teku_beacon_request sample_server = (Ok ps, t)"
    and ps: "map node_Name ps = [''beacon-1-teku'']"
    using teku_beacon_deployed by (elim exE conjE)
  have req: "NodeType teku_beacon_request = Some (ReqBeacon 1)" by (simp add: teku_beacon_request_def)
  obtain new where "deploys_beacons (client_name sample_services (NodeClient teku_beacon_request))
      (loop_count (int_of_uint64 1)) sample_server t new" and "ps = map specNodeToNode new"
    using NodeDeploy_beacons [OF run req] by blast
  moreover from this ps obtain n where "new = [n]" "name_of n = ''beacon-1-teku''"
    by (auto simp: specNodeToNode_def name_of_def)
  ultimately show ?thesis using run by (simp add: deploys_beacons_def sample_server_simps)
qed

section \<open>Lemmas on single requests\<close>

text \<open>How a successful validator request chooses its tranche.\<close>

definition uses_tranche :: "validator_req \<Rightarrow> tranche_map \<Rightarrow> uint64 \<Rightarrow> tranche \<Rightarrow> tranche_map \<Rightarrow> bool" where
  "uses_tranche d m k tr m' \<longleftrightarrow> map_of m' k = Some tr \<and> \<not> IsConsumed tr
     \<and> (if NumValidators d = 0 then m' = m \<and> k = NumTranch d
        else m' = add_tranche tr m \<and> k = of_nat (length m)
          \<and> length (Accounts tr) = loop_count (int_of_uint64 (NumValidators d)))"

lemma picks_uses:
  assumes "picks_tranche d s u (Ok (k, tr))"
  shows "uses_tranche d (tranches s) k tr (tranches u) \<and> nodes u = nodes s"
proof (cases "NumValidators d = 0")
  case True
  with assms show ?thesis by (auto simp: picks_tranche_def uses_tranche_def)
next
  case False
  with assms picks_steps [OF assms] show ?thesis
    by (auto simp: picks_tranche_def uses_tranche_def)
qed

lemma NodeDeploy_validator_Ok:
  assumes "NodeDeploy V req s = (Ok ps, t)" and "NodeType req = Some (ReqValidator d)"
  defines "clt \<equiv> client_name V (NodeClient req)"
  shows "\<exists>bs v k tr m. nodes t = nodes s @ bs @ [v] \<and> ps = map specNodeToNode (bs @ [v])
    \<and> length bs = (if WithBeacon d then loop_count (int_of_uint64 (BeaconCount d)) else 0)
    \<and> beacons_of clt (kind_count ''Beacon'' (nodes s)) bs
    \<and> new_node ''Validator'' ''validator'' clt (kind_count ''Validator'' (nodes s)) v
    \<and> uses_tranche d (tranches s) k tr m \<and> tranches t = consume_tranche k (name_of v) m"
proof -
  from NodeDeploy_validator_split [OF assms(1,2), folded clt_def] obtain bs u q where
    u: "tranches u = tranches s" "nodes u = nodes s @ bs" "beacons_of clt (kind_count ''Beacon'' (nodes s)) bs"
    and len: "length bs = (if WithBeacon d then loop_count (int_of_uint64 (BeaconCount d)) else 0)"
    and eff: "validator_effect clt d u t q"
    and r: "case q of Ok np \<Rightarrow> Ok ps = Ok (map specNodeToNode bs @ [snd np]) | _ \<Rightarrow> \<forall>qs. Ok ps \<noteq> Ok qs"
    by blast
  from r obtain v p where q: "q = Ok (v, p)" and ps: "ps = map specNodeToNode bs @ [p]"
    by (cases q) auto
  from eff q obtain k tr w where pick: "picks_tranche d u w (Ok (k, tr))" and start: "starts_validator clt k w t (Ok (v, p))"
    by (auto simp: validator_effect_def)
  note picks_uses [OF pick]
  moreover have "kind_count ''Validator'' (nodes s @ bs) = kind_count ''Validator'' (nodes s)"
    using beacons_not_validators [OF u(3)] by (simp add: kind_count_append)
  ultimately have "nodes t = nodes s @ bs @ [v] \<and> p = specNodeToNode v
    \<and> new_node ''Validator'' ''validator'' clt (kind_count ''Validator'' (nodes s)) v
    \<and> uses_tranche d (tranches s) k tr (tranches w) \<and> tranches t = consume_tranche k (name_of v) (tranches w)"
    using start u by (simp add: starts_validator_def name_of_def)
  with ps len u(3) show ?thesis
    by (intro exI [of _ bs] exI [of _ v] exI [of _ k] exI [of _ tr] exI [of _ "tranches w"]) simp
qed

text \<open>A request for a tranche that cannot be used: beacon nodes may be deployed, and that is all.\<close>

lemma NodeDeploy_bad_tranche:
  assumes "NodeDeploy V req s = (r, t)" and "NodeType req = Some (ReqValidator d)" and "NumValidators d = 0"
    and "\<forall>tr. map_of (tranches s) (NumTranch d) = Some tr \<longrightarrow> IsConsumed tr"
  shows "(\<forall>ps. r \<noteq> Ok ps) \<and> tranches t = tranches s
    \<and> (\<exists>bs. nodes t = nodes s @ bs \<and> kind_count ''Validator'' bs = 0)"
proof -
  let ?clt = "client_name V (NodeClient req)"
  from NodeDeploy_validator_split [OF assms(1,2)] obtain bs u where
    u: "tranches u = tranches s" "nodes u = nodes s @ bs" "beacons_of ?clt (kind_count ''Beacon'' (nodes s)) bs"
    and cases: "(\<forall>ps. r \<noteq> Ok ps) \<and> t = u
      \<or> (\<exists>q. validator_effect ?clt d u t q
          \<and> (case q of Ok np \<Rightarrow> r = Ok (map specNodeToNode bs @ [snd np]) | _ \<Rightarrow> \<forall>ps. r \<noteq> Ok ps))"
    by blast
  have "(\<forall>ps. r \<noteq> Ok ps) \<and> tranches t = tranches u \<and> nodes t = nodes u"
    using cases
  proof
    assume "\<exists>q. validator_effect ?clt d u t q
          \<and> (case q of Ok np \<Rightarrow> r = Ok (map specNodeToNode bs @ [snd np]) | _ \<Rightarrow> \<forall>ps. r \<noteq> Ok ps)"
    then obtain q where eff: "validator_effect ?clt d u t q"
      and r: "case q of Ok np \<Rightarrow> r = Ok (map specNodeToNode bs @ [snd np]) | _ \<Rightarrow> \<forall>ps. r \<noteq> Ok ps"
      by blast
    have "\<not> picks_tranche d u w (Ok (k, tr))" for w k tr
      using assms(3,4) u(1) by (auto simp: picks_tranche_def)
    with eff have "\<forall>np. q \<noteq> Ok np" by (auto simp: validator_effect_def)
    with eff r assms(3) show ?thesis
      by (cases q) (auto simp: validator_effect_def picks_untouched_def)
  qed simp
  with u beacons_not_validators [OF u(3)] show ?thesis by auto
qed

end
