(* ===== verification/DepositClaims.thy ===== *)
theory DepositClaims
  imports ServerSystem
begin

text \<open>The deposit requests of the server: what \<open>DepositCreate\<close> and \<open>DepositList\<close> return.\<close>

lemma map_outcome_Ok: "map_outcome g r = Ok z \<longleftrightarrow> (\<exists>y. r = Ok y \<and> z = g y)"
  by (cases r) auto

lemma ToProto_Ok:
  assumes "ToProto C tr = Ok stub"
  shows "Index stub = 0 \<and> stub_Name stub = tr_Validator tr \<and> stub_Path stub = Filepath tr
    \<and> list_all2 (\<lambda>a st. ToStub C a = Ok st) (Accounts tr) (stub_Accounts stub)"
  using assms by (auto simp: ToProto_def bind_out_Ok_iff stubs_of_Ok)

lemma bind_ret_outcome:
  "bind_go (lift_out r) (\<lambda>y. ret (g y)) = lift_out (map_outcome g r)"
  by (cases r) (auto simp: bind_go_def fun_eq_iff)

lemma for_each_outcome:
  "for_each xs (\<lambda>x. bind_go (lift_out (f x)) (\<lambda>y. ret (g x y))) s = (Ok zs, t) \<Longrightarrow>
     t = s \<and> list_all2 (\<lambda>x z. \<exists>y. f x = Ok y \<and> z = g x y) xs zs"
  unfolding bind_ret_outcome for_each_lift_out
  by (auto elim!: list_all2_mono simp: map_outcome_Ok)

text \<open>What a listed stub shows of its tranche.\<close>

definition shows_tranche :: "'w crypto_api \<Rightarrow> uint64 \<times> tranche \<Rightarrow> tranche_stub \<Rightarrow> bool" where
  "shows_tranche C it stub \<longleftrightarrow> Index stub = fst it \<and> stub_Name stub = tr_Validator (snd it)
     \<and> stub_Path stub = Filepath (snd it)
     \<and> list_all2 (\<lambda>a st. ToStub C a = Ok st) (Accounts (snd it)) (stub_Accounts stub)"

lemma DepositList_Ok:
  assumes "DepositList V s = (Ok stubs, t)"
  shows "same_core s t
    \<and> list_all2 (shows_tranche (sv_crypto V)) (fst (sv_range V (tranches s) (ext (env s)))) stubs"
proof -
  from assms obtain order u where order: "on_env (ext_get (sv_range V (tranches s))) s = (Ok order, u)"
    and each: "for_each order (\<lambda>it. bind_go (lift_out (ToProto (sv_crypto V) (snd it)))
        (\<lambda>stub. ret (stub\<lparr>Index := fst it\<rparr>))) u = (Ok stubs, t)"
    unfolding DepositList_def by auto
  have "order = fst (sv_range V (tranches s) (ext (env s)))"
    using order by (auto simp: on_env_def on_part_Ok_iff ext_get_def split: prod.splits)
  moreover have "same_core s u" using order by (rule withinD [OF on_env_core])
  moreover have "t = u \<and> list_all2 (shows_tranche (sv_crypto V)) order stubs"
    using for_each_outcome [OF each]
    by (auto elim!: list_all2_mono dest!: ToProto_Ok simp: shows_tranche_def)
  ultimately show ?thesis by simp
qed

section \<open>Properties\<close>

text \<open>
  C20. DepositList returns one stub for every tranche, with its number, validator, file and
  number of accounts, in whatever order the map is enumerated, and changes no tranche.
\<close>

theorem DepositList_lists_all:
  assumes "mset (fst (sv_range V (tranches s) (ext (env s)))) = mset (tranches s)"
    and "DepositList V s = (Ok stubs, t)"
  shows "tranches t = tranches s
    \<and> mset (map (\<lambda>st. (Index st, stub_Name st, stub_Path st, length (stub_Accounts st))) stubs)
      = mset (map (\<lambda>(k, tr). (k, tr_Validator tr, Filepath tr, length (Accounts tr))) (tranches s))"
proof -
  let ?order = "fst (sv_range V (tranches s) (ext (env s)))"
  let ?shown = "\<lambda>st. (Index st, stub_Name st, stub_Path st, length (stub_Accounts st))"
  let ?kept = "\<lambda>(k, tr). (k, tr_Validator tr, Filepath tr, length (Accounts tr))"
  note listed = DepositList_Ok [OF assms(2)]
  have "map ?shown stubs = map ?kept xs" if "list_all2 (shows_tranche (sv_crypto V)) xs stubs" for xs
    using that by (induction rule: list_all2_induct) (auto simp: shows_tranche_def dest: list_all2_lengthD)
  with listed have "map ?shown stubs = map ?kept ?order" by blast
  moreover have "mset (map ?kept ?order) = mset (map ?kept (tranches s))"
    unfolding mset_map using assms(1) by simp
  ultimately show ?thesis using listed by (simp add: same_core_def)
qed

theorem DepositList_lists_all_witness:
  "\<exists>stubs t. DepositList (sample_services\<lparr>sv_range := (\<lambda>m n. (rev m, n))\<rparr>) sample_server = (Ok stubs, t)
    \<and> mset (map (\<lambda>st. (Index st, stub_Name st, stub_Path st, length (stub_Accounts st))) stubs)
      = {#(0, ''validator-0-teku'', ''/work/tranche_0.txt'', 2), (1, [], ''/work/tranche_1.txt'', 2)#}"
proof -
  let ?V = "sample_services\<lparr>sv_range := (\<lambda>m n. (rev m, n))\<rparr>"
  have "is_ok (fst (DepositList ?V sample_server))" by code_simp
  then obtain stubs t where run: "DepositList ?V sample_server = (Ok stubs, t)"
    using run_ok [of "DepositList ?V sample_server"] by blast
  have "mset (fst (sv_range ?V (tranches sample_server) (ext (env sample_server)))) = mset (tranches sample_server)"
    by simp
  from DepositList_lists_all [OF this run] run show ?thesis
    by (auto simp: sample_server_def sample_accounts_def eval_nat_numeral)
qed

text \<open>
  C19. A successful DepositCreate adds exactly one tranche under the next number, unused, with
  the requested number of accounts, and leaves every other tranche and the nodes alone; the stub
  it returns shows those accounts and the file, but always index 0.
\<close>

theorem DepositCreate_stores_tranche:
  assumes "DepositCreate V n s = (Ok stub, t)"
  shows "Index stub = 0
    \<and> (\<exists>tr. map_of (tranches t) (of_nat (length (tranches s))) = Some tr
        \<and> stub_Path stub = Filepath tr \<and> stub_Name stub = [] \<and> \<not> IsConsumed tr
        \<and> length (Accounts tr) = loop_count (int_of_uint64 n)
        \<and> list_all2 (\<lambda>a st. ToStub (sv_crypto V) a = Ok st) (Accounts tr) (stub_Accounts stub))
    \<and> (\<forall>k. k \<noteq> of_nat (length (tranches s)) \<longrightarrow> map_of (tranches t) k = map_of (tranches s) k)
    \<and> nodes t = nodes s"
proof -
  from assms obtain k tr where new: "createTranche V (int_of_uint64 n) True s = (Ok (k, tr), t)"
    and stub: "ToProto (sv_crypto V) tr = Ok stub"
    unfolding DepositCreate_def by auto
  from createTranche_effect [OF new] obtain as p where tr: "tr = new_tranche as p"
    "length as = loop_count (int_of_uint64 n)" and t: "tranches t = add_tranche tr (tranches s)" "nodes t = nodes s"
    by (auto simp: adds_tranche_def)
  have "map_of (tranches t) = (map_of (tranches s))(of_nat (length (tranches s)) \<mapsto> tr)"
    unfolding t by (simp add: add_tranche_def update_conv')
  with ToProto_Ok [OF stub] tr t show ?thesis by simp
qed

theorem DepositCreate_stores_tranche_witness:
  "\<exists>stub t tr. DepositCreate sample_services 1 sample_server = (Ok stub, t) \<and> Index stub = 0
    \<and> map_of (tranches t) 2 = Some tr \<and> length (Accounts tr) = 1 \<and> map_of (tranches t) 0 = map_of (tranches sample_server) 0"
proof -
  have "is_ok (fst (DepositCreate sample_services 1 sample_server))" by code_simp
  then obtain stub t where run: "DepositCreate sample_services 1 sample_server = (Ok stub, t)"
    using run_ok [of "DepositCreate sample_services 1 sample_server"] by blast
  have "loop_count (int_of_uint64 1) = 1" by (simp add: loop_count_small)
  moreover have "of_nat (length (tranches sample_server)) = (2 :: uint64)" by (simp add: sample_server_simps)
  ultimately show ?thesis
    using DepositCreate_stores_tranche [OF run] run by auto
qed

end
