(* ===== verification/Success.thy ===== *)
theory Success
  imports LogDir
begin

text \<open>
  When an operation returns without an error: \<open>succeeds m Q s\<close> is the weakest precondition of \<open>m\<close> ending
  with \<open>Ok\<close> in a result and a state that satisfy \<open>Q\<close>.  The simplifier evaluates it on the control flow;
  what a file operation needs to succeed is stated on a file system without faults that has the
  directory of the run.
\<close>

named_theorems succeeds_simps \<open>weakest preconditions of the combinators\<close>

definition succeeds :: "('s, 'a) go \<Rightarrow> ('a \<Rightarrow> 's \<Rightarrow> bool) \<Rightarrow> 's \<Rightarrow> bool" where
  "succeeds m Q s \<longleftrightarrow> (\<exists>x t. m s = (Ok x, t) \<and> Q x t)"

lemma succeedsI: "m s = (Ok x, t) \<Longrightarrow> Q x t \<Longrightarrow> succeeds m Q s"
  by (auto simp: succeeds_def)

lemma succeedsE:
  assumes "succeeds m Q s"
  obtains x t where "m s = (Ok x, t)" and "Q x t"
  using assms by (auto simp: succeeds_def)

lemma succeeds_mono: "succeeds m P s \<Longrightarrow> (\<And>x t. P x t \<Longrightarrow> Q x t) \<Longrightarrow> succeeds m Q s"
  by (auto simp: succeeds_def)

lemma succeeds_pure [succeeds_simps]:
  "succeeds (ret x) Q s \<longleftrightarrow> Q x s"
  "succeeds (gets f) Q s \<longleftrightarrow> Q (f s) s"
  "succeeds (modify g) P s \<longleftrightarrow> P () (g s)"
  "succeeds (lift_out (Ok x)) Q s \<longleftrightarrow> Q x s"
  "succeeds (Pair (Ok x)) Q s \<longleftrightarrow> Q x s"
  by (auto simp: succeeds_def)

lemma succeeds_bind [succeeds_simps]:
  "succeeds (bind_go m k) Q s \<longleftrightarrow> succeeds m (\<lambda>x. succeeds (k x) Q) s"
  by (auto simp: succeeds_def bind_go_Ok_iff)

lemma succeeds_wrap [succeeds_simps]: "succeeds (wrap_err e m) Q s \<longleftrightarrow> succeeds m Q s"
  by (simp add: succeeds_def)

lemma succeeds_part [succeeds_simps]:
  "succeeds (on_part get put m) Q s \<longleftrightarrow> succeeds m (\<lambda>x u. Q x (put u s)) (get s)"
  by (auto simp: succeeds_def on_part_Ok_iff)

lemma succeeds_attempt: "succeeds m (\<lambda>x. Q (Inr x)) s \<Longrightarrow> succeeds (attempt m) Q s"
  by (auto simp: succeeds_def attempt_run)

lemma succeeds_lift: "r = Ok x \<Longrightarrow> Q x s \<Longrightarrow> succeeds (lift_out r) Q s"
  by (simp add: succeeds_pure)

lemma succeeds_seq:
  "succeeds m R s \<Longrightarrow> (\<And>x t. R x t \<Longrightarrow> succeeds (k x) Q t) \<Longrightarrow> succeeds (bind_go m k) Q s"
  by (auto simp: succeeds_bind elim: succeeds_mono)

lemma succeeds_wrapI: "succeeds m Q s \<Longrightarrow> succeeds (wrap_err e m) Q s"
  by (simp add: succeeds_wrap)

lemma succeeds_attemptI: "succeeds m (\<lambda>x. R x) s \<Longrightarrow> succeeds (attempt m) (\<lambda>r t. \<exists>x. r = Inr x \<and> R x t) s"
  by (auto simp: succeeds_def attempt_run)

lemma succeeds_for_each:
  assumes "J s" and "\<And>x s. x \<in> set xs \<Longrightarrow> J s \<Longrightarrow> succeeds (f x) (\<lambda>y t. J t \<and> R x y) s"
  shows "succeeds (for_each xs f) (\<lambda>ys t. J t \<and> list_all2 R xs ys) s"
  using assms
proof (induction xs arbitrary: s)
  case (Cons x xs)
  have "succeeds (f x) (\<lambda>y t. J t \<and> R x y) s" using Cons.prems by simp
  then obtain y t where y: "f x s = (Ok y, t)" "J t" "R x y" by (auto elim: succeedsE)
  then have "succeeds (for_each xs f) (\<lambda>ys t. J t \<and> list_all2 R xs ys) t"
    using Cons by simp
  then obtain ys u where "for_each xs f t = (Ok ys, u)" "J u" "list_all2 R xs ys" by (auto elim: succeedsE)
  with y show ?case by (intro succeedsI [of _ _ "y # ys" u]) (simp_all add: bind_go_def)
qed (simp add: succeeds_pure)

lemma succeeds_repeat:
  assumes "J n s" and "\<And>k s. k < n \<Longrightarrow> J (Suc k) s \<Longrightarrow> succeeds m (\<lambda>y. J k) s"
  shows "succeeds (repeat_go n m) (\<lambda>ys t. J 0 t \<and> length ys = n) s"
  using assms
proof (induction n arbitrary: s)
  case (Suc n)
  have "succeeds m (\<lambda>y. J n) s" using Suc.prems by simp
  then obtain y t where y: "m s = (Ok y, t)" "J n t" by (auto elim: succeedsE)
  then have "succeeds (repeat_go n m) (\<lambda>ys t. J 0 t \<and> length ys = n) t" using Suc by simp
  then obtain ys u where "repeat_go n m t = (Ok ys, u)" "J 0 u" "length ys = n" by (auto elim: succeedsE)
  with y show ?case by (intro succeedsI [of _ _ "y # ys" u]) (simp_all add: bind_go_def)
qed (simp add: succeeds_pure)

section \<open>Services\<close>

text \<open>A service that always answers, with an answer in \<open>A\<close>.\<close>

definition answers :: "('a \<Rightarrow> bool) \<Rightarrow> ('w, 'a) go \<Rightarrow> bool" where
  "answers A f \<longleftrightarrow> (\<forall>x. \<exists>a y. f x = (Ok a, y) \<and> A a)"

abbreviation always :: "'a \<Rightarrow> bool" where "always \<equiv> \<lambda>_. True"

text \<open>A request does not touch the file system.\<close>

lemma ext_call_succeeds:
  assumes "answers A f" and "fs u = fs w"
  shows "succeeds (ext_call c f) (\<lambda>a v. A a \<and> fs v = fs w) u"
proof -
  obtain a y where "f (ext u) = (Ok a, y)" "A a" using assms(1) unfolding answers_def by blast
  with assms(2) show ?thesis by (auto intro!: succeedsI simp: ext_call_def)
qed

lemma on_ext_succeeds:
  assumes "answers A f" and "fs u = fs w"
  shows "succeeds (on_ext f) (\<lambda>a v. A a \<and> fs v = fs w) u"
proof -
  obtain a y where "f (ext u) = (Ok a, y)" "A a" using assms(1) unfolding answers_def by blast
  with assms(2) show ?thesis by (auto intro!: succeedsI simp: on_ext_def on_part_def)
qed

lemma ext_get_succeeds:
  assumes "\<And>x. A (fst (f x))" and "fs u = fs w"
  shows "succeeds (ext_get f) (\<lambda>a v. A a \<and> fs v = fs w) u"
  using assms(1) [of "ext u"] assms(2)
  by (cases "f (ext u)") (auto intro!: succeedsI simp: ext_get_def)

section \<open>A file system fit for a run\<close>

text \<open>
  No faults, the directory of the run \<open>d\<close> and \<open>/tmp\<close> are there, and no directory lies below \<open>d\<close>.
\<close>

definition fit :: "string list \<Rightarrow> fsys \<Rightarrow> bool" where
  "fit cs f \<longleftrightarrow> fs_fault f = (\<lambda>_. None) \<and> (\<forall>q \<in> set (ancestors (abs_path cs)). is_dir f q)
     \<and> is_dir f ''/tmp'' \<and> (\<forall>d \<in> set (fs_dirs f). \<not> has_prefix d (abs_path cs @ [slash]))"

text \<open>A path for the run's directory: plain names, not below \<open>/tmp\<close>.\<close>

definition run_path :: "string list \<Rightarrow> bool" where
  "run_path cs \<longleftrightarrow> cs \<noteq> [] \<and> list_all plain_name cs \<and> hd cs \<noteq> ''tmp''"

lemma fit_files [simp]: "fit cs (f\<lparr>fs_files := m\<rparr>) \<longleftrightarrow> fit cs f"
  "fit cs (f\<lparr>fs_open := xs\<rparr>) \<longleftrightarrow> fit cs f" "fit cs (f\<lparr>fs_next_fd := n\<rparr>) \<longleftrightarrow> fit cs f"
  by (simp_all add: fit_def is_dir_def)

lemma first_name: "run_path cs \<Longrightarrow> takeWhile (\<lambda>c. c \<noteq> slash) (tl (abs_path cs @ [slash])) = hd cs"
proof -
  assume "run_path cs"
  then obtain c ds where cs: "cs = c # ds" "slash \<notin> set c"
    by (cases cs) (auto simp: run_path_def plain_name_def)
  show ?thesis
    using cs by (cases ds) (auto simp: abs_path_def takeWhile_append takeWhile_eq_all_conv)
qed

text \<open>A directory made below \<open>/tmp\<close> is not below the run's directory.\<close>

lemma tmp_outside:
  assumes "run_path cs"
  shows "\<not> has_prefix (''/tmp/'' @ p) (abs_path cs @ [slash])"
proof
  assume "has_prefix (''/tmp/'' @ p) (abs_path cs @ [slash])"
  then obtain r where r: "''/tmp/'' @ p = (abs_path cs @ [slash]) @ r" by (auto simp: has_prefix_iff)
  have "slash \<in> set (tl (abs_path cs @ [slash]))" by (simp add: abs_path_def)
  then have "takeWhile (\<lambda>c. c \<noteq> slash) (tl (abs_path cs @ [slash]) @ r)
      = takeWhile (\<lambda>c. c \<noteq> slash) (tl (abs_path cs @ [slash]))"
    by (intro takeWhile_append1) auto
  moreover have "tl (abs_path cs @ [slash]) @ r = tl (''/tmp/'' @ p)"
    unfolding r by (simp add: abs_path_def)
  ultimately have "hd cs = takeWhile (\<lambda>c. c \<noteq> slash) (tl (''/tmp/'' @ p))"
    using first_name [OF assms] by metis
  then show False using assms by (simp add: run_path_def slash_def)
qed

lemma fit_mkdir: "run_path cs \<Longrightarrow> fit cs f \<Longrightarrow> fit cs (f\<lparr>fs_dirs := (''/tmp/'' @ p) # fs_dirs f\<rparr>)"
  using tmp_outside [of cs p] by (auto simp: fit_def is_dir_def)

text \<open>A file in the run's directory can be opened.\<close>

lemma fit_open:
  assumes "run_path cs" and "fit cs f" and "plain_name n"
  shows "path_join (abs_path cs) n = abs_path (cs @ [n])" and "open_problem f (abs_path (cs @ [n])) = None"
    and "path_dir (abs_path (cs @ [n])) = abs_path cs"
proof -
  have cs: "cs \<noteq> []" "list_all plain_name cs" using assms(1) by (simp_all add: run_path_def)
  show "path_join (abs_path cs) n = abs_path (cs @ [n])" using cs assms(3) by (simp add: path_join_abs)
  show dir: "path_dir (abs_path (cs @ [n])) = abs_path cs" using cs assms(3) by (simp add: path_dir_abs)
  have "is_dir f (abs_path cs)" using assms(2) ancestors_abs [OF cs(2,1)] by (simp add: fit_def)
  moreover have "\<not> is_dir f (abs_path (cs @ [n]))"
    using assms(2) cs(1) plain_names_no_slash
    unfolding abs_path_snoc [OF cs(1)] by (auto simp: is_dir_def fit_def has_prefix_iff abs_path_def)
  ultimately show "open_problem f (abs_path (cs @ [n])) = None"
    using assms(2) by (simp add: open_problem_def parent_problem_def dir fit_def)
qed

lemma writeFile_succeeds:
  assumes "run_path cs" and "fit cs f" and "plain_name n" and "dir_path l = abs_path cs"
  shows "succeeds (writeFile l n content) (\<lambda>p g. fit cs g \<and> fs_dirs g = fs_dirs f
     \<and> fs_files g = (fs_files f)(abs_path (cs @ [n]) \<mapsto> content)) f"
proof -
  have "os_mkdir_all (abs_path cs) f = (Ok (), f)"
    using assms(2) by (intro mkdir_all_existing) (simp add: fit_def)
  then show ?thesis
    using fit_open [OF assms(1-3)] assms(2,4)
    by (auto intro!: succeedsI simp: writeFile_def Let_def bind_go_def os_write_file_def)
qed

lemma CreateLogFile_succeeds:
  assumes "run_path cs" and "fit cs f" and "plain_name (n @ ''.log'')" and "dir_path l = abs_path cs"
  shows "succeeds (CreateLogFile n) (\<lambda>h (g, l'). fit cs g \<and> fs_dirs g = fs_dirs f \<and> dir_path l' = dir_path l
     \<and> dom (fs_files g) = insert (abs_path (cs @ [n @ ''.log''])) (dom (fs_files f))) (f, l)"
  using fit_open [OF assms(1-3)] assms(2,4)
  by (auto intro!: succeedsI simp: CreateLogFile_def on_file_system_def on_part_def bind_go_def os_open_append_def)

text \<open>The ancestors of a path are those of its parent and the path itself.\<close>

lemma ancestors_snoc:
  assumes "list_all plain_name cs" and "plain_name n" and "cs \<noteq> []"
  shows "ancestors (abs_path (cs @ [n])) = ancestors (abs_path cs) @ [abs_path (cs @ [n])]"
proof -
  have "filter (\<lambda>c. c \<noteq> []) cs = cs" "n \<noteq> []" "list_all (\<lambda>w. slash \<notin> set w) (cs @ [n])"
    using assms(1,2) by (auto simp: list_all_iff plain_name_def)
  moreover have "prefix_paths acc (as @ [n]) = prefix_paths acc as @ [acc @ join_strings [slash] (as @ [n])]"
    if "as \<noteq> []" for acc as
    using that
  proof (induction acc as rule: prefix_paths.induct)
    case (2 acc a as)
    then show ?case by (cases as) auto
  qed simp
  ultimately show ?thesis
    using assms(3) by (simp add: ancestors_def abs_path_def split_on_join has_prefix_def)
qed

text \<open>Making a directory whose parent is there and whose name is free.\<close>

lemma os_mkdir_succeeds:
  "fs_fault f = (\<lambda>_. None) \<Longrightarrow> \<not> exists_path f p \<Longrightarrow> is_dir f (path_dir p) \<Longrightarrow>
     os_mkdir p f = (Ok (), f\<lparr>fs_dirs := p # fs_dirs f\<rparr>)"
  by (simp add: os_mkdir_def parent_problem_def)

lemma newLogDir_succeeds:
  assumes "fs_fault f = (\<lambda>_. None)" and "fs_cwd f = abs_path cs" and "run_path (cs @ [n])" and "cs \<noteq> []"
    and "\<forall>q \<in> set (ancestors (abs_path cs)). is_dir f q" and "is_dir f ''/tmp''"
    and "\<forall>d \<in> set (fs_dirs f). \<not> has_prefix d (abs_path (cs @ [n]))" and "fs_files f (abs_path (cs @ [n])) = None"
  shows "newLogDir n f = (Ok \<lparr>dir_path = abs_path (cs @ [n]), logFiles = []\<rparr>,
    f\<lparr>fs_dirs := abs_path (cs @ [n]) # fs_dirs f\<rparr>)"
    and "fit (cs @ [n]) (f\<lparr>fs_dirs := abs_path (cs @ [n]) # fs_dirs f\<rparr>)"
proof -
  let ?p = "abs_path (cs @ [n])"
  have names: "list_all plain_name cs" "plain_name n" using assms(3) by (simp_all add: run_path_def)
  have join: "path_join (abs_path cs) n = ?p" and dir: "path_dir ?p = abs_path cs"
    using names assms(4) by (simp_all add: path_join_abs path_dir_abs)
  have "is_dir f (abs_path cs)" using assms(4,5) ancestors_abs [OF names(1)] by blast
  moreover have "\<not> is_dir f ?p"
    using assms(4,7) by (auto simp: is_dir_def has_prefix_iff abs_path_snoc) (simp add: abs_path_def)
  ultimately show "newLogDir n f = (Ok \<lparr>dir_path = ?p, logFiles = []\<rparr>, f\<lparr>fs_dirs := ?p # fs_dirs f\<rparr>)"
    using assms(1,2,8) join
    by (simp add: newLogDir_def os_getwd_def Let_def bind_go_def os_mkdir_succeeds exists_path_def dir)
  have "ancestors ?p = ancestors (abs_path cs) @ [?p]" using names assms(4) by (rule ancestors_snoc)
  with assms show "fit (cs @ [n]) (f\<lparr>fs_dirs := ?p # fs_dirs f\<rparr>)"
    by (auto simp: fit_def is_dir_def has_prefix_iff)
qed

end
