(* ===== verification/DeploySuccess.thy ===== *)
theory DeploySuccess
  imports Docker Success
begin

text \<open>
  When \<open>Deploy\<close> succeeds: with a daemon that answers every request, the two bootnodes and the execution
  node are started.  The execution node needs a directory under \<open>/tmp\<close> for its three files.
\<close>

section \<open>A daemon that answers\<close>

text \<open>
  An image is there or can be pulled; the ticker fires before the timeout and no container stops by
  itself; the order in which a Go map is enumerated is any order of its entries.  \<open>img\<close> tells the im
  of a container's id.  The containers of the two bootnode images log what those programs print when
  they start: an ENR, and a first line without a brace (an enode URL).  Nothing is asked of the logs
  of other containers.
\<close>

definition bootnode_v5_image :: string where
  "bootnode_v5_image = ''gcr.io/prysmaticlabs/prysm/bootnode:latest''"

definition bootnode_v4_image :: string where
  "bootnode_v4_image = ''ethereum/client-go:alltools-release-1.10''"

text \<open>Text without an opening brace, which the template engine copies as it is.\<close>

definition plain_text :: "string \<Rightarrow> bool" where
  "plain_text s \<longleftrightarrow> CHR ''{'' \<notin> set s"

definition bootnode_logs :: "'w docker_api \<Rightarrow> string \<Rightarrow> bytes \<Rightarrow> bool" where
  "bootnode_logs K im out \<longleftrightarrow> (\<exists>l. dk_StdCopy K out = Ok l
     \<and> (im = bootnode_v5_image \<longrightarrow> find_enr l \<noteq> None)
     \<and> (im = bootnode_v4_image \<longrightarrow> plain_text (hd (split_on newline l))))"

definition docker_up :: "(string \<Rightarrow> string) \<Rightarrow> 'w docker_api \<Rightarrow> bool" where
  "docker_up img K \<longleftrightarrow> answers always (dk_NewClient K)
     \<and> (\<forall>i x p y. dk_ImageInspect K i x \<noteq> (Panic p, y))
     \<and> (\<forall>i. answers always (dk_ImagePull K i)) \<and> (\<forall>b. answers always (dk_CopyPull K b))
     \<and> (\<forall>c b. answers (\<lambda>i. img i = cc_image c) (dk_ContainerCreate K c b))
     \<and> (\<forall>i. answers always (dk_ContainerStart K i) \<and> answers always (dk_ContainerInspect K i))
     \<and> (\<forall>i. img i \<in> {bootnode_v5_image, bootnode_v4_image} \<longrightarrow> answers (bootnode_logs K (img i)) (dk_ContainerLogs K i))
     \<and> (\<forall>u. answers always (dk_http_post K u))
     \<and> (\<forall>x. \<exists>d y. dk_select K x = (SelAfter d, y))
     \<and> (\<forall>m x. mset (fst (dk_range K m x)) = mset m)"

lemma docker_upD:
  assumes "docker_up img K"
  shows "answers always (dk_NewClient K)" "dk_ImageInspect K i x \<noteq> (Panic p, y)"
    "answers always (dk_ContainerStart K i)" "answers always (dk_ContainerInspect K i)"
    "img i \<in> {bootnode_v5_image, bootnode_v4_image} \<Longrightarrow> answers (bootnode_logs K (img i)) (dk_ContainerLogs K i)"
    "answers (\<lambda>i. img i = cc_image c) (dk_ContainerCreate K c b)"
    "answers always (dk_http_post K u)" "answers always (dk_ImagePull K i)" "answers always (dk_CopyPull K d)"
  using assms unfolding docker_up_def by blast+

lemma range_up:
  assumes "docker_up img K"
  shows "mset (fst (dk_range K m x)) = mset m"
  using assms by (simp add: docker_up_def)

section \<open>Containers\<close>

lemma ensure_image_succeeds:
  assumes "docker_up img K" and "fs u = fs w"
  shows "succeeds (ensure_image K im) (\<lambda>_ v. fs v = fs w) u"
proof -
  have pull: "succeeds (bind_go (ext_call (ImagePull im) (dk_ImagePull K im)) (\<lambda>reader. on_ext (dk_CopyPull K reader)))
      (\<lambda>_ v. fs v = fs w) v" if "fs v = fs w" for v :: "'a world"
    by (rule succeeds_seq [OF ext_call_succeeds [OF docker_upD(8) [OF assms(1)] that]])
       (auto intro: succeeds_mono [OF on_ext_succeeds [OF docker_upD(9) [OF assms(1)]]])
  have "succeeds (attempt (ext_call (ImageInspect im) (dk_ImageInspect K im))) (\<lambda>_ v. fs v = fs w) u"
    using docker_upD(2) [OF assms(1), of im "ext u"] assms(2)
    by (cases "dk_ImageInspect K im (ext u)"; cases "fst (dk_ImageInspect K im (ext u))")
       (auto simp: succeeds_def attempt_def ext_call_def)
  then show ?thesis
    unfolding ensure_image_def
    by (rule succeeds_seq) (auto simp: succeeds_pure pull split: sum.split)
qed

lemma start_container_succeeds:
  assumes "docker_up img K" and "fs u = fs w" and "\<forall>c \<in> set (Cmd sp). \<exists>a. execCmd (dk_template K) c = Ok a"
  shows "succeeds (start_container K sp mm)
     (\<lambda>n v. opts n = sp \<and> img (node_id n) = image_name sp \<and> fs v = fs w) u"
proof -
  note up = docker_upD [OF assms(1)]
  have cmds: "succeeds (for_each (Cmd sp) (\<lambda>c. lift_out (execCmd (dk_template K) c)))
      (\<lambda>as v. v = u \<and> list_all2 (\<lambda>c a. True) (Cmd sp) as) u"
    using assms(3) by (intro succeeds_for_each) (auto intro: succeeds_lift)
  show ?thesis
    unfolding start_container_def Let_def
    by (rule succeeds_seq [OF cmds],
        rule succeeds_seq [OF ext_get_succeeds [where A = always and w = w]], simp, simp add: assms(2),
        rule succeeds_seq [OF succeeds_wrapI [OF ext_call_succeeds [OF up(6), where w = w]]], simp,
        rule succeeds_seq [OF succeeds_wrapI [OF ext_call_succeeds [OF up(3), where w = w]]], simp,
        rule succeeds_seq [OF ext_call_succeeds [OF up(4), where w = w]], simp)
       (simp add: succeeds_simps)
qed

text \<open>The first tick finds the container ready.\<close>

lemma retryFn_first:
  assumes "\<forall>x. \<exists>d y. sel x = (SelAfter d, y)" and "t + 100 \<le> timeout"
    and "\<And>x. succeeds handler Q (u\<lparr>ext := x\<rparr>)"
  shows "succeeds (retryFn sel timeout handler t) Q u"
proof -
  obtain d y where sel: "sel (ext u) = (SelAfter d, y)" using assms(1) by blast
  from assms(3) [of y] obtain a v where "handler (u\<lparr>ext := y\<rparr>) = (Ok a, v)" "Q a v" by (rule succeedsE)
  with sel assms(2) show ?thesis by (intro succeedsI [of _ _ a v]) (auto simp: retryFn.simps)
qed

text \<open>What a retry closure stores of good logs.\<close>

lemma enr_stored: "find_enr l \<noteq> None \<Longrightarrow> \<exists>e. decodeEnr (Ok l) = Ok e"
  by (auto simp: decodeEnr_def)

lemma enode_stored: "plain_text (hd (split_on newline l)) \<Longrightarrow> \<exists>e. bootnodeV4_retry (Ok l) = Ok e \<and> plain_text e"
  by (cases "split_on newline l") (auto simp: bootnodeV4_retry_def dest: split_on_nonempty [THEN notE])

lemma GetLogs_succeeds:
  assumes "docker_up img K" and "fs u = fs w" and "img (node_id n) \<in> {bootnode_v5_image, bootnode_v4_image}"
  shows "succeeds (GetLogs K n) (\<lambda>l v. (img (node_id n) = bootnode_v5_image \<longrightarrow> find_enr l \<noteq> None)
     \<and> (img (node_id n) = bootnode_v4_image \<longrightarrow> plain_text (hd (split_on newline l))) \<and> fs v = fs w) u"
  unfolding GetLogs_def
  by (rule succeeds_seq [OF succeeds_attemptI [OF ext_call_succeeds [OF docker_upD(5) [OF assms(1,3)] assms(2)]]])
     (auto simp: bootnode_logs_def succeeds_pure)

text \<open>A probe of a known port, or a closure on the image it was written for.\<close>

definition retry_fits :: "retry option \<Rightarrow> string \<Rightarrow> bool" where
  "retry_fits r im \<longleftrightarrow> (\<forall>port. r = Some (RetryHttp port) \<longrightarrow> map_of defPorts port \<noteq> None)
     \<and> (r = Some RetryBootnodeV5 \<longrightarrow> im = bootnode_v5_image)
     \<and> (r = Some RetryBootnodeV4 \<longrightarrow> im = bootnode_v4_image)"

text \<open>The enode that is stored of the v4 bootnode goes into the command of the execution node.\<close>

definition stored_fits :: "retry option \<Rightarrow> string \<Rightarrow> bool" where
  "stored_fits r c \<longleftrightarrow> (r = Some RetryBootnodeV4 \<longrightarrow> plain_text c)"

lemma await_ready_succeeds:
  assumes "docker_up img K" and "fs u = fs w" and "retry_fits (Retry (opts n)) (img (node_id n))"
  shows "succeeds (await_ready K n) (\<lambda>s v. stored_fits (Retry (opts n)) s \<and> fs v = fs w) u"
proof (cases "Retry (opts n)")
  case None
  with assms(2) show ?thesis by (simp add: await_ready_def succeeds_simps stored_fits_def)
next
  case (Some r)
  have "succeeds (retry_handler K n r) (\<lambda>s v. stored_fits (Retry (opts n)) s \<and> fs v = fs w) v" if v: "fs v = fs w" for v
  proof (cases r)
    case (RetryHttp port)
    then obtain p where "map_of defPorts port = Some p" using assms(3) Some by (auto simp: retry_fits_def)
    then show ?thesis
      unfolding retry_handler_def RetryHttp testHTTPEndpoint_def
      by (auto simp: GetAddr_def succeeds_simps stored_fits_def Some RetryHttp
          intro!: succeeds_mono [OF ext_call_succeeds [OF docker_upD(7) [OF assms(1)] v]])
  next
    case RetryBootnodeV5
    then have "img (node_id n) = bootnode_v5_image" using assms(3) Some by (simp add: retry_fits_def)
    then show ?thesis
      unfolding retry_handler_def RetryBootnodeV5 retry.case
      by (intro succeeds_seq [OF succeeds_attemptI [OF GetLogs_succeeds [OF assms(1) v]]])
         (auto dest!: enr_stored simp: succeeds_pure stored_fits_def Some RetryBootnodeV5 simp del: not_None_eq)
  next
    case RetryBootnodeV4
    then have "img (node_id n) = bootnode_v4_image" using assms(3) Some by (simp add: retry_fits_def)
    then show ?thesis
      unfolding retry_handler_def RetryBootnodeV4 retry.case
      by (intro succeeds_seq [OF succeeds_attemptI [OF GetLogs_succeeds [OF assms(1) v]]])
         (auto dest!: enode_stored simp: succeeds_pure stored_fits_def)
  qed
  with Some assms(1,2) show ?thesis
    by (auto simp: await_ready_def docker_up_def defaultTimeoutDuration_def intro!: retryFn_first)
qed

text \<open>A spec whose commands expand and whose probe fits its image.\<close>

definition startable :: "'w docker_api \<Rightarrow> spec \<Rightarrow> bool" where
  "startable K sp \<longleftrightarrow> (\<forall>c \<in> set (Cmd sp). \<exists>a. execCmd (dk_template K) c = Ok a)
     \<and> retry_fits (Retry sp) (image_name (with_default_tag sp))"

lemma startable_simps [simp]:
  "startable K (with_default_tag sp) = startable K sp" "startable K (WithName n sp) = startable K sp"
  "startable K (WithOutput h sp) = startable K sp" "startable K (WithLabel k v sp) = startable K sp"
  by (simp_all add: startable_def with_default_tag_def with_defs image_name_def)

lemma with_default_tag_twice [simp]: "with_default_tag (with_default_tag sp) = with_default_tag sp"
  by (simp add: with_default_tag_def with_defs)

lemma start_and_wait:
  fixes K :: "'w docker_api"
  assumes "docker_up img K" and "fs u = fs w" and "startable K sp" and "with_default_tag sp = sp"
  shows "succeeds (bind_go (ensure_image K im) (\<lambda>_. bind_go (start_container K sp mm) (\<lambda>n.
     bind_go (await_ready K n) (\<lambda>stored. ret (n, stored)))))
     (\<lambda>(n, s) v. opts n = sp \<and> stored_fits (Retry sp) s \<and> fs v = fs w) u"
proof -
  have cmds: "\<forall>c \<in> set (Cmd sp). \<exists>a. execCmd (dk_template K) c = Ok a"
    and fits: "retry_fits (Retry sp) (image_name sp)"
    using assms(3,4) by (simp_all add: startable_def)
  show ?thesis
  proof (rule succeeds_seq [OF ensure_image_succeeds [OF assms(1,2)]])
    fix x and v :: "'w world"
    assume v: "fs v = fs w"
    show "succeeds (bind_go (start_container K sp mm) (\<lambda>n. bind_go (await_ready K n) (\<lambda>stored. ret (n, stored))))
        (\<lambda>(n, s) v. opts n = sp \<and> stored_fits (Retry sp) s \<and> fs v = fs w) v"
    proof (rule succeeds_seq [OF start_container_succeeds [OF assms(1) v cmds]])
      fix n :: node and t :: "'w world"
      assume n: "opts n = sp \<and> img (node_id n) = image_name sp \<and> fs t = fs w"
      show "succeeds (bind_go (await_ready K n) (\<lambda>stored. ret (n, stored)))
          (\<lambda>(n, s) v. opts n = sp \<and> stored_fits (Retry sp) s \<and> fs v = fs w) t"
        by (rule succeeds_seq [OF await_ready_succeeds [OF assms(1), where w = w]])
           (use n fits in \<open>auto simp: succeeds_simps\<close>)
    qed
  qed
qed

text \<open>Without mounts and files nothing is written.\<close>

lemma Deploy_plain_succeeds:
  assumes "docker_up img K" and "fs u = fs w" and "startable K sp" and "Mount sp = []" and "Files sp = []"
  shows "succeeds (Deploy K sp) (\<lambda>(n, s) v. opts n = with_default_tag sp \<and> stored_fits (Retry sp) s \<and> fs v = fs w) u"
proof -
  let ?sp = "with_default_tag sp"
  have sp: "Mount ?sp = []" "Files ?sp = []" "Retry ?sp = Retry sp"
    using assms(4,5) by (simp_all add: with_default_tag_def WithTag_def)
  have ready: "startable K ?sp" using assms(3) by simp
  have files: "succeeds (place_files K [] ?sp) (\<lambda>_ v. fs v = fs w) u"
    unfolding place_files_def sp(2)
    by (rule succeeds_seq [OF ext_get_succeeds [where A = "\<lambda>files. mset files = {#}" and w = w]])
       (auto simp: range_up [OF assms(1)] assms(2) succeeds_simps)
  show ?thesis
    unfolding Deploy_def Let_def make_mounts_def sp(1) fold_go.simps bind_go_pure
    by (rule succeeds_seq [OF files])
       (use start_and_wait [OF assms(1) _ ready with_default_tag_twice] in \<open>simp add: sp(3)\<close>)
qed

section \<open>The files of the execution node\<close>

lemma join_strings_append:
  "cs \<noteq> [] \<Longrightarrow> ds \<noteq> [] \<Longrightarrow> join_strings sep (cs @ ds) = join_strings sep cs @ sep @ join_strings sep ds"
proof (induction sep cs rule: join_strings.induct)
  case (2 sep x)
  then show ?case by (cases ds) auto
qed auto

lemma abs_path_append: "cs \<noteq> [] \<Longrightarrow> ds \<noteq> [] \<Longrightarrow> abs_path (cs @ ds) = abs_path cs @ abs_path ds"
  by (simp add: abs_path_def join_strings_append)

lemma path_join_rooted:
  assumes "list_all plain_name cs" and "cs \<noteq> []" and "list_all plain_name ds" and "ds \<noteq> []"
  shows "path_join (abs_path cs) (abs_path ds) = abs_path (cs @ ds)"
proof -
  have words: "list_all (\<lambda>w. slash \<notin> set w) ([] # cs @ [] # ds)"
    using assms(1,3) plain_names_no_slash by auto
  have "abs_path cs @ [slash] @ abs_path ds = join_strings [slash] ([] # cs @ [] # ds)"
  proof -
    have "join_strings [slash] (cs @ [] # ds) = join_strings [slash] cs @ [slash] @ join_strings [slash] ([] # ds)"
      using assms(2) by (intro join_strings_append) simp_all
    with assms(2,4) show ?thesis by (cases cs; cases ds) (simp_all add: abs_path_def)
  qed
  then have "split_on slash (abs_path cs @ [slash] @ abs_path ds) = [] # cs @ [] # ds"
    using words split_on_join [OF words] by simp
  then have "path_clean (abs_path cs @ [slash] @ abs_path ds) = abs_path (cs @ ds)"
    using assms(1,3)
    by (simp add: path_clean_def Let_def abs_path_def foldl_clean_plain) (simp add: clean_step_def foldl_clean_plain)
  then show ?thesis by (simp add: path_join_def) (simp add: abs_path_def)
qed

lemma abs_path_inj:
  assumes "list_all plain_name cs" and "list_all plain_name ds" and "cs \<noteq> []" and "ds \<noteq> []"
  shows "abs_path cs = abs_path ds \<longleftrightarrow> cs = ds"
proof -
  have "split_on slash (join_strings [slash] cs) = cs" "split_on slash (join_strings [slash] ds) = ds"
    using assms plain_names_no_slash by (auto intro!: split_on_join)
  then show ?thesis unfolding abs_path_def by (metis list.inject)
qed

text \<open>The directory of the execution node, and its files.\<close>

definition eth1_dir :: "nat \<Rightarrow> string list" where
  "eth1_dir k = [''tmp'', ''node-eth1-'' @ itoa k]"

definition eth1_files :: "string list set" where
  "eth1_files = {[''genesis.json''], [''keystore'', ''account.json''], [''keystore-password.txt'']}"

text \<open>Room for the files, and what placing one of them keeps.\<close>

definition eth1_room :: "string list \<Rightarrow> nat \<Rightarrow> fsys \<Rightarrow> bool" where
  "eth1_room cs k f \<longleftrightarrow> fit cs f \<and> is_dir f (abs_path (eth1_dir k))
     \<and> fs_files f (abs_path (eth1_dir k @ [''keystore''])) = None
     \<and> (\<forall>sub \<in> eth1_files. \<not> is_dir f (abs_path (eth1_dir k @ sub)))"

text \<open>No earlier execution node has left a directory.\<close>

definition tmp_free :: "fsys \<Rightarrow> bool" where
  "tmp_free f \<longleftrightarrow> (\<forall>p. has_prefix p ''/tmp/node-eth1-'' \<longrightarrow> \<not> exists_path f p)"

lemma eth1_plain:
  "list_all plain_name (eth1_dir k)" "sub \<in> eth1_files \<Longrightarrow> list_all plain_name sub \<and> sub \<noteq> []"
  "plain_name ''keystore''" "eth1_dir k \<noteq> []"
proof -
  have "slash \<notin> set (itoa k)" by (intro itoa_no_sep) (simp add: digits_def slash_def)
  then show "list_all plain_name (eth1_dir k)" by (auto simp: eth1_dir_def plain_name_def slash_def)
qed (auto simp: eth1_files_def plain_name_def slash_def eth1_dir_def)

lemma eth1_path: "abs_path (eth1_dir k) = ''/tmp/'' @ ''node-eth1-'' @ itoa k"
  by (simp add: eth1_dir_def abs_path_def slash_def)

lemma eth1_ancestors: "ancestors (abs_path (eth1_dir k)) = [''/tmp'', abs_path (eth1_dir k)]"
proof -
  have "list_all plain_name [''tmp'']" "plain_name (''node-eth1-'' @ itoa k)"
    using eth1_plain(1) [of k] by (simp_all add: eth1_dir_def)
  moreover have "ancestors (abs_path [''tmp'']) = [''/tmp'']" by code_simp
  ultimately show ?thesis
    using ancestors_snoc [of "[''tmp'']" "''node-eth1-'' @ itoa k"] by (simp add: eth1_dir_def)
qed

lemma temp_dir_first:
  assumes "rnd (ext u) = (k, x)" and "\<not> exists_path (fs u) (pre @ itoa k @ suf)"
    and "os_mkdir (pre @ itoa k @ suf) (fs u) = (Ok (), f)"
  shows "temp_dir_try (Suc n) rnd pre suf u = (Ok (pre @ itoa k @ suf), u\<lparr>ext := x, fs := f\<rparr>)"
  using assms by (simp add: bind_go_def ext_get_def Let_def on_fs_def on_part_def)

lemma make_mounts_succeeds:
  fixes K :: "'w docker_api"
  assumes "run_path cs" and "fit cs (fs u)" and "tmp_free (fs u)" and "Mount sp = [''/data'']" and "Name sp = ''eth1''"
  shows "succeeds (make_mounts K sp)
     (\<lambda>mm v. \<exists>k. mm = [(''/data'', abs_path (eth1_dir k))] \<and> eth1_room cs k (fs v)) u"
proof -
  obtain k x where rnd: "dk_rand K (ext u) = (k, x)" by (cases "dk_rand K (ext u)")
  let ?p = "abs_path (eth1_dir k)"
  let ?f = "(fs u)\<lparr>fs_dirs := ?p # fs_dirs (fs u)\<rparr>"
  have free: "\<not> exists_path (fs u) (?p @ q)" for q
  proof -
    have "?p @ q = ''/tmp/node-eth1-'' @ (itoa k @ q)" by (simp add: eth1_path)
    then have "has_prefix (?p @ q) ''/tmp/node-eth1-''" by (simp only: has_prefix_append)
    with assms(3) show ?thesis by (simp add: tmp_free_def)
  qed
  have parent: "path_dir ?p = ''/tmp''"
    using path_dir_abs [of "[''tmp'']" "''node-eth1-'' @ itoa k"] eth1_plain(1) [of k]
    by (simp add: eth1_dir_def) (simp add: abs_path_def slash_def)
  have mk: "os_mkdir ?p (fs u) = (Ok (), ?f)"
    using free [of "[]"] assms(2) by (intro os_mkdir_succeeds) (simp_all add: fit_def parent)
  have "star_split ''node-eth1-'' = (''node-eth1-'', [])" "slash \<notin> set ''node-eth1-''"
    by (simp_all add: star_split_def slash_def)
  moreover have path: "(''/tmp'' @ [slash] @ ''node-eth1-'') @ itoa k @ [] = ?p" by (simp add: eth1_path slash_def)
  have "temp_dir_try (Suc 9999) (dk_rand K) (''/tmp'' @ [slash] @ ''node-eth1-'') [] u = (Ok ?p, u\<lparr>ext := x, fs := ?f\<rparr>)"
    using free [of "[]"] unfolding append_Nil2
    by (rule temp_dir_first [where rnd = "dk_rand K" and pre = "''/tmp'' @ [slash] @ ''node-eth1-''" and suf = "[]"
          and k = k and x = x and u = u, unfolded path, OF rnd]) (rule mk)
  then have "temp_dir_try 10000 (dk_rand K) (''/tmp'' @ [slash] @ ''node-eth1-'') [] u = (Ok ?p, u\<lparr>ext := x, fs := ?f\<rparr>)"
    by (simp only: Suc_numeral semiring_norm)
  ultimately have dir: "temp_dir (dk_rand K) ''/tmp'' ''node-eth1-'' u = (Ok ?p, u\<lparr>ext := x, fs := ?f\<rparr>)"
    by (simp only: temp_dir_def if_False prod.case)
  have "eth1_room cs k ?f"
    unfolding eth1_room_def
  proof (intro conjI ballI)
    show "fit cs ?f" using fit_mkdir [OF assms(1,2)] by (simp add: eth1_path)
    show "is_dir ?f ?p" by (simp add: is_dir_def)
    show "fs_files ?f (abs_path (eth1_dir k @ [''keystore''])) = None"
      using free [of "abs_path [''keystore'']"] eth1_plain(4)
      by (simp add: exists_path_def abs_path_append)
    fix sub
    assume "sub \<in> eth1_files"
    then show "\<not> is_dir ?f (abs_path (eth1_dir k @ sub))"
      using free [of "abs_path sub"] eth1_plain(2) [of sub] eth1_plain(4) [of k]
      by (auto simp: exists_path_def abs_path_append is_dir_def) (simp add: abs_path_def)
  qed
  moreover have "make_mounts K sp u = (Ok [(''/data'', ?p)], u\<lparr>ext := x, fs := ?f\<rparr>)"
    using dir by (simp add: make_mounts_def assms(4,5) bind_go_def Let_def)
  ultimately show ?thesis by (auto intro!: succeedsI)
qed

text \<open>Placing one of the files.\<close>

lemma eth1_room_mkdir:
  assumes "run_path cs" and "eth1_room cs k f"
  shows "succeeds (os_mkdir_all (abs_path (eth1_dir k @ [''keystore'']))) (\<lambda>_ g. eth1_room cs k g
     \<and> is_dir g (abs_path (eth1_dir k @ [''keystore'']))) f"
proof -
  let ?p = "abs_path (eth1_dir k @ [''keystore''])"
  let ?make = "\<lambda>q f. if is_dir f q then (Ok (), f)
        else if fs_files f q \<noteq> None then (Fail (path_error ''mkdir'' q enotdir), f)
        else os_mkdir q f"
  have "ancestors ?p = [''/tmp'', abs_path (eth1_dir k), ?p]"
    using ancestors_snoc [OF eth1_plain(1,3,4)] eth1_ancestors by simp
  moreover have "is_dir f ''/tmp''" "is_dir f (abs_path (eth1_dir k))"
    using assms(2) by (simp_all add: eth1_room_def fit_def)
  ultimately have all: "os_mkdir_all ?p f = bind_go (?make ?p) (\<lambda>_. ret ()) f"
    by (simp add: os_mkdir_all_def bind_go_def split: outcome.split prod.split)
  show ?thesis
  proof (cases "is_dir f ?p")
    case True
    with all assms(2) show ?thesis by (intro succeedsI [of _ _ "()" f]) (simp_all add: bind_go_def)
  next
    case False
    let ?g = "f\<lparr>fs_dirs := ?p # fs_dirs f\<rparr>"
    have none: "fs_files f ?p = None" and dir: "path_dir ?p = abs_path (eth1_dir k)"
      using assms(2) path_dir_abs [OF eth1_plain(1,4,3)] by (simp_all add: eth1_room_def)
    then have "os_mkdir ?p f = (Ok (), ?g)"
      using False assms(2) by (intro os_mkdir_succeeds) (simp_all add: exists_path_def eth1_room_def fit_def)
    moreover have "eth1_room cs k ?g"
      unfolding eth1_room_def
    proof (intro conjI ballI)
      have "?p = ''/tmp/'' @ (''node-eth1-'' @ itoa k @ ''/keystore'')"
        by (simp add: abs_path_append eth1_plain(4) eth1_path) (simp add: abs_path_def slash_def)
      then show "fit cs ?g" using fit_mkdir [OF assms(1)] assms(2) by (simp only: eth1_room_def)
      fix sub
      assume sub: "sub \<in> eth1_files"
      have "abs_path (eth1_dir k @ sub) \<noteq> ?p"
        using sub eth1_plain(1) [of k] eth1_plain(2) [OF sub] eth1_plain(3)
        by (subst abs_path_inj) (auto simp: eth1_files_def)
      then show "\<not> is_dir ?g (abs_path (eth1_dir k @ sub))"
        using sub assms(2) by (auto simp: eth1_room_def is_dir_def)
    qed (use assms(2) in \<open>auto simp: eth1_room_def is_dir_def\<close>)
    ultimately show ?thesis
      using all False none by (intro succeedsI [of _ _ "()" ?g]) (simp_all add: bind_go_def is_dir_def)
  qed
qed

lemma eth1_room_write:
  assumes "eth1_room cs k f" and "sub \<in> eth1_files" and "is_dir f (path_dir (abs_path (eth1_dir k @ sub)))"
  shows "succeeds (os_write_file (abs_path (eth1_dir k @ sub)) data) (\<lambda>_ g. eth1_room cs k g) f"
proof -
  let ?p = "abs_path (eth1_dir k @ sub)"
  have "open_problem f ?p = None"
    using assms by (simp add: open_problem_def parent_problem_def eth1_room_def fit_def)
  moreover have "?p \<noteq> abs_path (eth1_dir k @ [''keystore''])"
    using assms(2) eth1_plain(1) [of k] eth1_plain(2) [OF assms(2)] eth1_plain(3)
    by (subst abs_path_inj) (auto simp: eth1_files_def)
  ultimately show ?thesis
    using assms(1)
    by (intro succeedsI [of _ _ "()" "f\<lparr>fs_files := (fs_files f)(?p \<mapsto> data)\<rparr>"])
       (auto simp: os_write_file_def eth1_room_def is_dir_def)
qed

lemma place_file_succeeds:
  fixes K :: "'w docker_api"
  assumes "docker_up img K" and "run_path cs" and "eth1_room cs k (fs u)" and "sub \<in> eth1_files"
    and "has_prefix q ''/data''" and "trim_prefix q ''/data'' = abs_path sub"
  shows "succeeds (place_file K [(''/data'', abs_path (eth1_dir k))] (q, data))
     (\<lambda>_ v. eth1_room cs k (fs v)) u"
proof -
  let ?t = "abs_path (eth1_dir k)" and ?p = "abs_path (eth1_dir k @ sub)"
  have join: "path_join ?t (abs_path sub) = ?p"
    using eth1_plain(1,4) [of k] eth1_plain(2) [OF assms(4)] by (simp add: path_join_rooted)
  have dir: "path_dir ?p = (if sub = [''keystore'', ''account.json''] then abs_path (eth1_dir k @ [''keystore'']) else ?t)"
  proof (cases "sub = [''keystore'', ''account.json'']")
    case True
    have "plain_name ''account.json''" by (simp add: plain_name_def slash_def)
    with True path_dir_abs [of "eth1_dir k @ [''keystore'']" "''account.json''"] eth1_plain(1) [of k] eth1_plain(3)
    show ?thesis by simp
  next
    case False
    then obtain x where "sub = [x]" "plain_name x"
      using assms(4) by (auto simp: eth1_files_def plain_name_def slash_def)
    with eth1_plain(1,4) [of k] show ?thesis by (simp add: path_dir_abs)
  qed
  have mk: "succeeds (os_mkdir_all (path_dir ?p)) (\<lambda>_ g. eth1_room cs k g \<and> is_dir g (path_dir ?p)) f"
    if f: "eth1_room cs k f" for f
  proof (cases "sub = [''keystore'', ''account.json'']")
    case True
    then show ?thesis unfolding dir using eth1_room_mkdir [OF assms(2) f] by simp
  next
    case False
    have "os_mkdir_all ?t f = (Ok (), f)"
      using f by (intro mkdir_all_existing) (simp add: eth1_ancestors eth1_room_def fit_def)
    with f False show ?thesis by (intro succeedsI [of _ _ "()" f]) (simp_all add: dir eth1_room_def)
  qed
  have range: "succeeds (ext_get (dk_range K [(''/data'', ?t)])) (\<lambda>order v. mset order = {#(''/data'', ?t)#} \<and> fs v = fs u) u"
    by (rule ext_get_succeeds) (simp_all add: range_up [OF assms(1)])
  show ?thesis
    unfolding place_file_def
  proof (rule succeeds_seq [OF range])
    fix order and v :: "'w world"
    assume "mset order = {#(''/data'', ?t)#} \<and> fs v = fs u"
    then have "order = [(''/data'', ?t)]" and v: "eth1_room cs k (fs v)" using assms(3) by auto
    then show "succeeds (case find (\<lambda>ml. has_prefix (fst (q, data)) (fst ml)) order of
         None \<Rightarrow> fail (''mount match for '' @ [CHR 0x27] @ fst (q, data) @ [CHR 0x27] @ '' not found'')
       | Some ml \<Rightarrow>
           let localPath = path_join (snd ml) (trim_prefix (fst (q, data)) (fst ml)) in
           bind_go (on_fs (os_mkdir_all (path_dir localPath))) (\<lambda>_.
           on_fs (os_write_file localPath (snd (q, data)))))
        (\<lambda>_ v. eth1_room cs k (fs v)) v"
      using eth1_room_write [OF _ assms(4)]
      by (auto simp: assms(5,6) join Let_def on_fs_def succeeds_simps
          intro!: succeeds_mono [OF mk [OF v]])
  qed
qed

definition eth1_file :: "string \<Rightarrow> bool" where
  "eth1_file q \<longleftrightarrow> has_prefix q ''/data'' \<and> (\<exists>sub \<in> eth1_files. trim_prefix q ''/data'' = abs_path sub)"

lemma place_files_succeeds:
  fixes K :: "'w docker_api"
  assumes "docker_up img K" and "run_path cs" and "eth1_room cs k (fs u)" and "\<forall>q \<in> set (map fst (Files sp)). eth1_file q"
  shows "succeeds (place_files K [(''/data'', abs_path (eth1_dir k))] sp) (\<lambda>_ v. eth1_room cs k (fs v)) u"
  unfolding place_files_def
proof (rule succeeds_seq [OF ext_get_succeeds [where A = "\<lambda>fs. mset fs = mset (Files sp)" and w = u]])
  show "mset (fst (dk_range K (Files sp) x)) = mset (Files sp)" for x by (simp add: range_up [OF assms(1)])
  fix files and v :: "'w world"
  assume "mset files = mset (Files sp) \<and> fs v = fs u"
  then have files: "set files = set (Files sp)" and v: "eth1_room cs k (fs v)"
    using assms(3) by (metis set_mset_mset, simp)
  have "succeeds (for_each files (place_file K [(''/data'', abs_path (eth1_dir k))]))
      (\<lambda>ys v. eth1_room cs k (fs v) \<and> list_all2 (\<lambda>_ _. True) files ys) v"
  proof (rule succeeds_for_each [where J = "\<lambda>v. eth1_room cs k (fs v)" and R = "\<lambda>_ _. True", OF v])
    fix it and w :: "'w world"
    assume "it \<in> set files" and w: "eth1_room cs k (fs w)"
    with assms(4) files have "eth1_file (fst it)" by auto
    then show "succeeds (place_file K [(''/data'', abs_path (eth1_dir k))] it) (\<lambda>_ v. eth1_room cs k (fs v) \<and> True) w"
      using place_file_succeeds [OF assms(1,2) w] by (cases it) (auto simp: eth1_file_def)
  qed
  then show "succeeds (bind_go (for_each files (place_file K [(''/data'', abs_path (eth1_dir k))])) (\<lambda>_. ret ()))
      (\<lambda>_ v. eth1_room cs k (fs v)) v"
    by (rule succeeds_seq) (simp add: succeeds_simps)
qed simp

lemma Deploy_eth1_succeeds:
  fixes K :: "'w docker_api"
  assumes "docker_up img K" and "run_path cs" and "fit cs (fs u)" and "tmp_free (fs u)" and "startable K sp"
    and "Mount sp = [''/data'']" and "Name sp = ''eth1''" and "\<forall>q \<in> set (map fst (Files sp)). eth1_file q"
  shows "succeeds (Deploy K sp) (\<lambda>(n, s) v. opts n = with_default_tag sp \<and> fit cs (fs v)) u"
proof -
  let ?sp = "with_default_tag sp"
  have sp: "Mount ?sp = [''/data'']" "Name ?sp = ''eth1''" "\<forall>q \<in> set (map fst (Files ?sp)). eth1_file q"
    using assms(6-8) by (simp_all add: with_default_tag_def WithTag_def)
  have ready: "startable K ?sp" using assms(5) by simp
  show ?thesis
    unfolding Deploy_def Let_def
  proof (rule succeeds_seq [OF make_mounts_succeeds [OF assms(2-4) sp(1,2)]], elim exE conjE)
    fix mm k and v :: "'w world"
    assume mm: "mm = [(''/data'', abs_path (eth1_dir k))]" and v: "eth1_room cs k (fs v)"
    show "succeeds (bind_go (place_files K mm ?sp) (\<lambda>_. bind_go (ensure_image K (image_name ?sp)) (\<lambda>_.
        bind_go (start_container K ?sp mm) (\<lambda>n. bind_go (await_ready K n) (\<lambda>stored. ret (n, stored))))))
        (\<lambda>(n, s) v. opts n = ?sp \<and> fit cs (fs v)) v"
      unfolding mm
    proof (rule succeeds_seq [OF place_files_succeeds [OF assms(1,2) v sp(3)]])
      fix y and t :: "'w world"
      assume t: "eth1_room cs k (fs t)"
      show "succeeds (bind_go (ensure_image K (image_name ?sp)) (\<lambda>_.
          bind_go (start_container K ?sp [(''/data'', abs_path (eth1_dir k))]) (\<lambda>n.
          bind_go (await_ready K n) (\<lambda>stored. ret (n, stored)))))
          (\<lambda>(n, s) v. opts n = ?sp \<and> fit cs (fs v)) t"
        by (rule succeeds_mono [OF start_and_wait [OF assms(1) refl ready with_default_tag_twice]])
           (use t in \<open>auto simp: eth1_room_def\<close>)
    qed
  qed
qed

text \<open>The specs of the first three nodes.\<close>

lemma bootnode_v5_startable: "startable K NewBootnodeV5" "Mount NewBootnodeV5 = []" "Files NewBootnodeV5 = []"
proof -
  have "CHR ''{'' \<notin> set c \<or> c = port_action NodePortBootnode" if "c \<in> set bootnode_v5_cmd" for c
    using that by (auto simp: bootnode_v5_cmd_def)
  then have "\<exists>a. execCmd other c = Ok a" if "c \<in> set bootnode_v5_cmd" for c other
    using that execCmd_plain execCmd_port_only [OF node_ports(7)] by blast
  then show "startable K NewBootnodeV5"
    by (simp add: startable_def NewBootnodeV5_def with_defs empty_spec_def retry_fits_def with_default_tag_def
        image_name_def bootnode_v5_image_def)
qed (simp_all add: NewBootnodeV5_def with_defs empty_spec_def)

lemma bootnode_v4_startable: "startable K NewBootnodeV4" "Mount NewBootnodeV4 = []" "Files NewBootnodeV4 = []"
proof -
  have "\<exists>ts. list_all2 (expands other) bootnode_v4_cmd ts" for other
  proof (rule list_all2_choice)
    fix c
    assume c: "c \<in> set bootnode_v4_cmd"
    show "\<exists>t. expands other c t"
    proof (cases "c = '':'' @ port_action NodePortBootnode")
      case True
      then show ?thesis
        using expands_append [OF expands_plain [of "'':''"] expands_port [OF node_ports(7)]] by auto
    next
      case False
      with c have "CHR ''{'' \<notin> set c" by (auto simp: bootnode_v4_cmd_def)
      then show ?thesis using expands_plain by blast
    qed
  qed
  then have "\<exists>a. execCmd other (join_strings '' '' bootnode_v4_cmd) = Ok a" for other
    using expands_execCmd [OF expands_join [of "'' ''" other bootnode_v4_cmd]] by auto
  then show "startable K NewBootnodeV4"
    by (simp add: startable_def NewBootnodeV4_def with_defs empty_spec_def retry_fits_def with_default_tag_def
        image_name_def bootnode_v4_image_def)
qed (simp_all add: NewBootnodeV4_def with_defs empty_spec_def)

end
