(* ===== verification/ServerSuccess.thy ===== *)
theory ServerSuccess
  imports ServerStart DeploySuccess
begin

text \<open>
  When \<open>NewServer\<close> succeeds: with services that answer and a file system fit for the run, a server starts.
\<close>

lemma succeeds_also:
  "succeeds m Q s \<Longrightarrow> (\<And>x t. m s = (Ok x, t) \<Longrightarrow> R x t) \<Longrightarrow> succeeds m (\<lambda>x t. Q x t \<and> R x t) s"
  by (auto simp: succeeds_def)

section \<open>Services that answer\<close>

definition crypto_up :: "'w crypto_api \<Rightarrow> bool" where
  "crypto_up C \<longleftrightarrow> answers always (wallet_GenerateKey C)
     \<and> (\<forall>k. \<exists>b. wallet_MarshallPrivateKey C k = Ok b) \<and> (\<forall>k. \<exists>b. bls_Prv_Marshal C k = Ok b)
     \<and> (\<forall>d p. answers (\<lambda>ks. \<exists>m. json_Unmarshal_map C ks = Ok m) (keystore_EncryptV3 C d p))
     \<and> (\<forall>a. plain_text (address_String C a))"

text \<open>The execution node answers, and its latest block is not later than the genesis time.\<close>

definition eth_up :: "uint64 \<Rightarrow> 'w eth_api \<Rightarrow> bool" where
  "eth_up time E \<longleftrightarrow> (\<forall>a. answers always (eth_NewClient E a))
     \<and> (\<forall>n t k. \<exists>b. eth_SignTx E n t k = Ok b) \<and> (\<forall>b. \<exists>r. eth_MarshalRLP E b = Ok r)
     \<and> (\<forall>a b. answers always (eth_SendRawTransaction E a b))
     \<and> (\<forall>a h x. \<exists>r y. eth_GetTransactionReceipt E a h x = ((Some r, None), y))
     \<and> (\<forall>a. answers (\<lambda>r. \<exists>b. r = Some b \<and> blk_Timestamp b \<le> time) (eth_GetBlockByNumber E a))"

definition ssz_up :: "'h ssz_api \<Rightarrow> bool" where
  "ssz_up S \<longleftrightarrow> (\<forall>v h. \<exists>h'. ssz_HashTreeRootWith S v h = (Ok (), h')) \<and> (\<forall>h. \<exists>r. ssz_HashRoot S h = Ok r)
     \<and> (\<exists>r. ssz_BodyPhase0_root S = Ok r) \<and> (\<exists>r. ssz_BodyAltair_root S = Ok r) \<and> (\<forall>st. \<exists>b. ssz_Marshal S st = Ok b)"

definition services_up :: "(string \<Rightarrow> string) \<Rightarrow> uint64 \<Rightarrow> ('w, 'h) services \<Rightarrow> bool" where
  "services_up img time V \<longleftrightarrow> docker_up img (sv_docker V) \<and> crypto_up (sv_crypto V) \<and> eth_up time (sv_eth V)
     \<and> ssz_up (sv_ssz V) \<and> (\<forall>a. answers always (sv_listen V a))"

lemma services_upD:
  "services_up img time V \<Longrightarrow> docker_up img (sv_docker V)" "services_up img time V \<Longrightarrow> crypto_up (sv_crypto V)"
  "services_up img time V \<Longrightarrow> eth_up time (sv_eth V)" "services_up img time V \<Longrightarrow> ssz_up (sv_ssz V)"
  "services_up img time V \<Longrightarrow> answers always (sv_listen V a)"
  by (simp_all add: services_up_def)

section \<open>Before the first tranche\<close>

text \<open>
  The state of a starting server: the file system is fit (and has no directory of an execution node yet,
  if \<open>b\<close>), the log directory is that of the run, and the counts and the genesis time are as configured.
\<close>

definition plan_of :: "config \<Rightarrow> uint64 \<times> uint64 \<times> go_int" where
  "plan_of c = (NumTranches c, NumGenesisValidators c, MinGenesisTime (Spec c))"

definition starting :: "string list \<Rightarrow> config \<Rightarrow> bool \<Rightarrow> 'w server \<Rightarrow> bool" where
  "starting cs cfg b s \<longleftrightarrow> fit cs (fs (env s)) \<and> dir_path (srv_logDir s) = abs_path cs
     \<and> (b \<longrightarrow> tmp_free (fs (env s))) \<and> plan_of (srv_config s) = plan_of cfg"

lemma starting_fields [simp]:
  "starting cs cfg b (s\<lparr>bootnodeENR := x\<rparr>) = starting cs cfg b s" "starting cs cfg b (s\<lparr>bootnodeEC := x\<rparr>) = starting cs cfg b s"
  "starting cs cfg b (s\<lparr>nodes := ns\<rparr>) = starting cs cfg b s" "starting cs cfg b (s\<lparr>eth1HttpAddr := x\<rparr>) = starting cs cfg b s"
  "starting cs cfg b (s\<lparr>srv_depositHandler := d\<rparr>) = starting cs cfg b s"
  "starting cs cfg b (s\<lparr>tranches := m\<rparr>) = starting cs cfg b s" "starting cs cfg b (s\<lparr>genesisSSZ := x\<rparr>) = starting cs cfg b s"
  by (simp_all add: starting_def)

text \<open>An operation on the world that leaves the files alone.\<close>

lemma on_env_succeeds:
  assumes "starting cs cfg b s" and "\<And>w. succeeds m (\<lambda>x v. A x \<and> fs v = fs w) w"
  shows "succeeds (on_env m) (\<lambda>x t. A x \<and> starting cs cfg b t \<and> (\<exists>v. t = s\<lparr>env := v\<rparr>)) s"
  using assms(2) [of "env s"] assms(1)
  by (auto simp: on_env_def succeeds_simps starting_def elim!: succeeds_mono)

lemma log_file_free:
  assumes "run_path cs" and "tmp_free f" and "fs_dirs g = fs_dirs f"
    and "dom (fs_files g) = insert (abs_path (cs @ [n])) (dom (fs_files f))"
  shows "tmp_free g"
  unfolding tmp_free_def
proof (intro allI impI)
  fix p
  assume p: "has_prefix p ''/tmp/node-eth1-''"
  then obtain r where r: "p = ''/tmp/'' @ ''node-eth1-'' @ r" by (auto simp: has_prefix_iff)
  have "cs \<noteq> []" using assms(1) by (simp add: run_path_def)
  then have "has_prefix (abs_path (cs @ [n])) (abs_path cs @ [slash])"
    by (simp add: abs_path_snoc has_prefix_iff)
  then have "p \<noteq> abs_path (cs @ [n])" using tmp_outside [OF assms(1)] r by metis
  moreover have "\<not> exists_path f p" using assms(2) p by (simp add: tmp_free_def)
  ultimately show "\<not> exists_path g p"
    using assms(3,4) by (auto simp: exists_path_def is_dir_def dom_def set_eq_iff)
qed

text \<open>A deployment, given what the runtime does with the spec.\<close>

lemma deploy_with_succeeds:
  fixes deploy :: "spec \<Rightarrow> ('w world, node \<times> string) go"
  assumes "run_path cs" and "starting cs cfg b s" and "plain_name (Name sp @ ''.log'')"
    and run: "\<And>h e w. fit cs (fs w) \<Longrightarrow> (b \<longrightarrow> tmp_free (fs w)) \<Longrightarrow>
      succeeds (deploy (chain sp [WithOutput h, WithLabel ''viewpoint'' ''true'', WithLabel ''env'' e]))
        (\<lambda>(n, c) v. A c \<and> fit cs (fs v) \<and> (b' \<longrightarrow> tmp_free (fs v))) w"
  shows "succeeds (deploy_with deploy sp) (\<lambda>(n, c) t. A c \<and> starting cs cfg b' t
    \<and> bootnodeEC t = bootnodeEC s) s"
proof -
  have log: "succeeds (on_log (CreateLogFile (Name sp))) (\<lambda>h t. starting cs cfg b t \<and> bootnodeEC t = bootnodeEC s) s"
  proof -
    have fit: "fit cs (fs (env s))" and dir: "dir_path (srv_logDir s) = abs_path cs"
      using assms(2) by (simp_all add: starting_def)
    show ?thesis
      unfolding on_log_def succeeds_simps
      by (rule succeeds_mono [OF CreateLogFile_succeeds [OF assms(1) fit assms(3) dir]])
         (use assms(2) log_file_free [OF assms(1)] in \<open>auto simp: starting_def\<close>)
  qed
  show ?thesis
    unfolding deploy_with_def
  proof (rule succeeds_seq [OF log], simp only: bind_go_pure comp_def)
    fix h and t :: "'w server"
    assume t: "starting cs cfg b t \<and> bootnodeEC t = bootnodeEC s"
    let ?sp = "chain sp [WithOutput h, WithLabel ''viewpoint'' ''true'', WithLabel ''env'' (cfg_Name (srv_config t))]"
    have "succeeds (on_env (deploy ?sp)) (\<lambda>(n, c) u. A c \<and> starting cs cfg b' u \<and> bootnodeEC u = bootnodeEC s) t"
      unfolding on_env_def succeeds_simps
      by (rule succeeds_mono [OF run]) (use t in \<open>auto simp: starting_def\<close>)
    then show "succeeds (bind_go (gets (\<lambda>s. cfg_Name (srv_config s))) (\<lambda>name. bind_go (on_env (deploy
          (chain sp [WithOutput h, WithLabel ''viewpoint'' ''true'', WithLabel ''env'' name])))
          (\<lambda>nc. bind_go (modify (\<lambda>s. s\<lparr>nodes := nodes s @ [fst nc]\<rparr>)) (\<lambda>_. ret nc))))
        (\<lambda>(n, c) t. A c \<and> starting cs cfg b' t \<and> bootnodeEC t = bootnodeEC s) t"
      by (auto simp: succeeds_simps elim!: succeeds_mono)
  qed
qed

lemma deploy_bootnode_succeeds:
  assumes "services_up img time V" and "run_path cs" and "starting cs cfg b s" and "plain_name (Name sp @ ''.log'')"
    and "startable (sv_docker V) sp" and "Mount sp = []" and "Files sp = []"
  shows "succeeds (deployNode V sp) (\<lambda>(n, c) t. stored_fits (Retry sp) c \<and> starting cs cfg b t \<and> bootnodeEC t = bootnodeEC s) s"
  unfolding deployNode_def
proof (rule deploy_with_succeeds [OF assms(2-4)])
  fix h e and w :: "'a world"
  assume w: "fit cs (fs w)" "b \<longrightarrow> tmp_free (fs w)"
  let ?sp = "chain sp [WithOutput h, WithLabel ''viewpoint'' ''true'', WithLabel ''env'' e]"
  have sp: "startable (sv_docker V) ?sp" "Mount ?sp = []" "Files ?sp = []" and retry: "Retry ?sp = Retry sp"
    using assms(5-7) by (simp_all, simp_all add: with_defs)
  from Deploy_plain_succeeds [OF services_upD(1) [OF assms(1)] refl sp]
  show "succeeds (Deploy (sv_docker V) ?sp) (\<lambda>(n, c) v. stored_fits (Retry sp) c \<and> fit cs (fs v) \<and> (b \<longrightarrow> tmp_free (fs v))) w"
    unfolding retry by (rule succeeds_mono) (use w in auto)
qed

section \<open>The execution node\<close>

lemma NewDevGenesis_succeeds:
  "crypto_up C \<Longrightarrow> succeeds (NewDevGenesis C) (\<lambda>(g, key) v. Validators g \<noteq> [] \<and> fs v = fs w) w"
  unfolding NewDevGenesis_def
  by (rule succeeds_seq [OF on_ext_succeeds [where A = always and w = w]])
     (auto simp: crypto_up_def succeeds_simps)

text \<open>What the server relies on of the execution node's spec.\<close>

definition eth1_spec :: "'w docker_api \<Rightarrow> spec \<Rightarrow> bool" where
  "eth1_spec K sp \<longleftrightarrow> startable K sp \<and> Mount sp = [''/data''] \<and> Name sp = ''eth1''
     \<and> (\<forall>q \<in> set (map fst (Files sp)). eth1_file q)"

lemma eth1_file_names:
  "eth1_file ''/data/genesis.json''" "eth1_file ''/data/keystore/account.json''" "eth1_file ''/data/keystore-password.txt''"
proof -
  have "trim_prefix ''/data/genesis.json'' ''/data'' = abs_path [''genesis.json'']"
    "trim_prefix ''/data/keystore/account.json'' ''/data'' = abs_path [''keystore'', ''account.json'']"
    "trim_prefix ''/data/keystore-password.txt'' ''/data'' = abs_path [''keystore-password.txt'']"
    by (simp_all add: trim_prefix_def has_prefix_def abs_path_def slash_def)
  then show "eth1_file ''/data/genesis.json''" "eth1_file ''/data/keystore/account.json''" "eth1_file ''/data/keystore-password.txt''"
    by (auto simp: eth1_file_def eth1_files_def has_prefix_def)
qed

lemma toKeystoreV3_succeeds:
  assumes "crypto_up C"
  shows "succeeds (toKeystoreV3 C key) (\<lambda>_ v. fs v = fs w) w"
proof -
  obtain b where b: "wallet_MarshallPrivateKey C key = Ok b" using assms unfolding crypto_up_def by blast
  have enc: "answers (\<lambda>ks. \<exists>m. json_Unmarshal_map C ks = Ok m) (keystore_EncryptV3 C b defWalletPassword)"
    using assms by (simp add: crypto_up_def)
  show ?thesis
    unfolding toKeystoreV3_def b
    by (rule succeeds_seq [OF ext_get_succeeds [where A = always and w = w]], simp, simp,
        simp only: succeeds_simps,
        rule succeeds_mono [OF on_ext_succeeds [OF enc, where w = w]], simp)
       (auto intro!: succeeds_lift simp: succeeds_simps)
qed

lemma NewEth1Server_succeeds:
  assumes "crypto_up C" and "plain_text (ec_Bootnode config)" and "ec_Key config = Some key"
  shows "succeeds (NewEth1Server C config) (\<lambda>sp v. eth1_spec K sp \<and> fs v = fs w) w"
proof -
  have "\<exists>words. list_all2 (expands (dk_template K)) (eth1_cmd C config) words"
    using assms by (intro eth1_words) (auto simp: plain_text_def crypto_up_def)
  then have cmd: "\<exists>a. execCmd (dk_template K) (join_strings '' '' (eth1_cmd C config)) = Ok a"
    using expands_execCmd [OF expands_join [of "'' ''" _ "eth1_cmd C config"]] by auto
  show ?thesis
    unfolding NewEth1Server_def Let_def assms(3) option.case
    by (rule succeeds_seq [OF succeeds_attemptI [OF toKeystoreV3_succeeds [OF assms(1)]]])
       (auto simp: succeeds_simps eth1_spec_def startable_def retry_fits_def with_defs empty_spec_def cmd eth1_file_names)
qed

lemma deploy_eth1_succeeds:
  assumes "services_up img time V" and "run_path cs" and "starting cs cfg True s" and "eth1_spec (sv_docker V) sp"
  shows "succeeds (deployNode V (WithName ''eth1'' sp)) (\<lambda>(n, c) t. starting cs cfg False t) s"
  unfolding deployNode_def
proof (rule succeeds_mono [OF deploy_with_succeeds [OF assms(2,3), where b' = False and A = "\<lambda>_. True"]])
  show "plain_name (Name (WithName ''eth1'' sp) @ ''.log'')" by (simp add: plain_name_def slash_def)
  fix h e and w :: "'a world"
  assume w: "fit cs (fs w)" "True \<longrightarrow> tmp_free (fs w)"
  let ?sp = "chain (WithName ''eth1'' sp) [WithOutput h, WithLabel ''viewpoint'' ''true'', WithLabel ''env'' e]"
  have sp: "startable (sv_docker V) ?sp" "Mount ?sp = [''/data'']" "Name ?sp = ''eth1''"
      "\<forall>q \<in> set (map fst (Files ?sp)). eth1_file q"
    using assms(4) by (simp add: eth1_spec_def, simp_all add: eth1_spec_def with_defs)
  show "succeeds (Deploy (sv_docker V) ?sp) (\<lambda>(n, c) v. True \<and> fit cs (fs v) \<and> (False \<longrightarrow> tmp_free (fs v))) w"
    by (rule succeeds_mono [OF Deploy_eth1_succeeds [OF services_upD(1) [OF assms(1)] assms(2) w(1) _ sp]])
       (use w in auto)
qed auto

text \<open>The deposit contract: the first receipt asked for is there.\<close>

lemma waitForReceipt_succeeds:
  assumes "eth_up time E"
  shows "succeeds (waitForReceipt E hash) (\<lambda>_ t. fs (fst t) = fs (fst s)) s"
proof -
  obtain r y where "eth_GetTransactionReceipt E (dh_client (snd s)) hash (ext (fst s)) = ((Some r, None), y)"
    using assms unfolding eth_up_def by blast
  then have "pollReceipt E hash s = (Ok (Some r), ((fst s)\<lparr>ext := y,
      trace := trace (fst s) @ [GetTransactionReceipt hash]\<rparr>, snd s))"
    by (simp add: pollReceipt_def on_world_def on_part_def ext_call_def bind_go_def)
  then show ?thesis
    by (auto intro!: succeedsI simp: waitForReceipt_def waitForReceipt_from.simps [of E hash 0 s])
qed

lemma sendTransaction_succeeds:
  assumes "eth_up time E"
  shows "succeeds (sendTransaction E txn) (\<lambda>_ t. fs (fst t) = fs (fst s)) s"
proof -
  have prep: "succeeds (prepareTransaction E txn) (\<lambda>_ t. fst t = fst s) s"
    unfolding prepareTransaction_def Let_def
  proof (rule succeeds_seq)
    show "succeeds (if tx_Nonce (with_gas txn) = 0
        then bind_go getNextNonce (\<lambda>n. ret ((with_gas txn)\<lparr>tx_Nonce := n\<rparr>)) else ret (with_gas txn))
      (\<lambda>_ u. fst u = fst s) s"
      by (cases s) (auto simp: getNextNonce_def bind_go_def succeeds_def)
    fix txn' :: transaction and u :: "'a dstate"
    assume u: "fst u = fst s"
    obtain b where sign: "eth_SignTx E 1337 txn' (dh_key (snd u)) = Ok b" using assms unfolding eth_up_def by blast
    obtain r where rlp: "eth_MarshalRLP E b = Ok r" using assms unfolding eth_up_def by blast
    show "succeeds (bind_go (gets (dh_key \<circ> snd)) (\<lambda>key. bind_go (lift_out (eth_SignTx E 1337 txn' key))
        (\<lambda>signedTxn. lift_out (eth_MarshalRLP E signedTxn)))) (\<lambda>_ t. fst t = fst s) u"
      using u by (simp add: succeeds_simps sign rlp)
  qed
  have raw: "succeeds (sendRaw E b) (\<lambda>_ t. fs (fst t) = fs (fst s)) u" if u: "fst u = fst s" for b u
  proof -
    have "answers always (eth_SendRawTransaction E (dh_client (snd u)) b)" using assms by (simp add: eth_up_def)
    from ext_call_succeeds [OF this, where w = "fst s" and u = "fst u"] show ?thesis
      using u by (auto simp: sendRaw_def on_world_def succeeds_simps elim!: succeeds_mono)
  qed
  show ?thesis
    unfolding sendTransaction_def
    by (rule succeeds_seq [OF prep], rule succeeds_seq [OF raw], simp)
       (rule succeeds_mono [OF waitForReceipt_succeeds [OF assms]], simp)
qed

lemma newDepositHandler_succeeds:
  assumes "eth_up time E"
  shows "succeeds (newDepositHandler E addr key) (\<lambda>_ v. True \<and> fs v = fs w) w"
proof -
  let ?h = "\<lparr>dh_deposit = replicate 20 (CHR 0x00), dh_client = addr, dh_key = key, dh_nonce = - 1,
    dh_threads = [], dh_chans = 0\<rparr>"
  have client: "answers always (eth_NewClient E addr)" using assms by (simp add: eth_up_def)
  have "succeeds (deployDeposit E) (\<lambda>_ t. fs (fst t) = fs v) (v, ?h)" for v
    unfolding deployDeposit_def
    by (rule succeeds_seq [OF sendTransaction_succeeds [OF assms]]) (auto simp: succeeds_simps)
  then have "\<exists>x v' e'. deployDeposit E (v, ?h) = (Ok x, (v', e')) \<and> fs v' = fs v" for v
    unfolding succeeds_def by (metis prod.collapse)
  note deployed = this
  show ?thesis
    unfolding newDepositHandler_def
  proof (rule succeeds_seq [OF ext_call_succeeds [OF client, where w = w]])
    fix x and v :: "'a world"
    assume v: "True \<and> fs v = fs w"
    obtain y v' e where "deployDeposit E (v, ?h) = (Ok y, (v', e))" "fs v' = fs v" using deployed by blast
    with v show "succeeds (\<lambda>w. case deployDeposit E (w, ?h) of
        (Ok _, (v, e)) \<Rightarrow> (Ok e, v) | (Fail err, (v, e)) \<Rightarrow> (Fail err, v) | (Panic p, (v, e)) \<Rightarrow> (Panic p, v))
      (\<lambda>_ v. True \<and> fs v = fs w) v"
      by (intro succeedsI [of _ _ e v']) simp_all
  qed simp
qed

end
