(* ===== verification/StartSuccess.thy ===== *)
theory StartSuccess
  imports ServerSuccess
begin

text \<open>
  The rest of a start that succeeds: the deposit contract, the first tranches, the genesis state and the
  two files of the log directory.  The services and the file system of the samples are an instance.
\<close>

section \<open>The execution network\<close>

lemma Build_Ok: "Validators g \<noteq> [] \<Longrightarrow> \<exists>raw. fst (Build C g) = Ok raw"
  by (simp add: Build_def Let_def)

lemma GetAddr_http: "\<exists>a. GetAddr n NodePortEth1Http = Ok a"
  by (simp add: node_addr.get_addr_known program_ports_def)

lemma deposit_handler_starting:
  assumes "eth_up time E" and "starting cs cfg b s"
  shows "succeeds (bind_go (on_env (newDepositHandler E addr key)) (\<lambda>e.
    modify (\<lambda>s. s\<lparr>srv_depositHandler := Some e, srv_config := (srv_config s)\<lparr>Spec :=
       (Spec (srv_config s))\<lparr>DepositContract := f e\<rparr>\<rparr>\<rparr>))) (\<lambda>_ t. starting cs cfg b t) s"
proof -
  have "succeeds (newDepositHandler E addr key) (\<lambda>x v. always x \<and> fs v = fs w) w" for w
    using newDepositHandler_succeeds [OF assms(1)] by simp
  from on_env_succeeds [OF assms(2) this] show ?thesis
    by (rule succeeds_seq) (simp add: succeeds_simps starting_def plan_of_def)
qed

lemma setupEth1Network_succeeds:
  assumes "services_up img time V" and "run_path cs" and "starting cs cfg True s" and "plain_text (bootnodeEC s)"
  shows "succeeds (setupEth1Network V) (\<lambda>_ t. starting cs cfg False t) s"
proof -
  have crypto: "crypto_up (sv_crypto V)" and eth: "eth_up time (sv_eth V)"
    using assms(1) by (simp_all add: services_upD)
  have gen: "succeeds (on_env (NewDevGenesis (sv_crypto V))) (\<lambda>gk t. Validators (fst gk) \<noteq> []
      \<and> starting cs cfg True t \<and> bootnodeEC t = bootnodeEC s) s"
    by (rule succeeds_mono [OF on_env_succeeds [OF assms(3), where A = "\<lambda>gk. Validators (fst gk) \<noteq> []"]])
       (auto intro: succeeds_mono [OF NewDevGenesis_succeeds [OF crypto]])
  have spec: "succeeds (on_env (NewEth1Server (sv_crypto V) \<lparr>ec_Bootnode = bootnodeEC s, ec_Genesis = raw, ec_Key = Some key\<rparr>))
      (\<lambda>sp u. eth1_spec (sv_docker V) sp \<and> starting cs cfg True u) t" if "starting cs cfg True t" for t raw key
    by (rule succeeds_mono [OF on_env_succeeds [OF that, where A = "eth1_spec (sv_docker V)"]],
        rule NewEth1Server_succeeds [OF crypto]) (simp_all add: assms(4))
  show ?thesis
    unfolding setupEth1Network_def
  proof (rule succeeds_seq [OF gen], clarsimp simp: succeeds_simps, goal_cases)
    case (1 g key t)
    then obtain raw where raw: "fst (Build (sv_crypto V) g) = Ok raw" using Build_Ok by metis
    from 1 show ?case
      apply (simp add: raw succeeds_simps)
      apply (rule succeeds_mono [OF spec], assumption)
      apply (clarify, rule succeeds_seq [OF deploy_eth1_succeeds [OF assms(1,2)]], assumption, assumption)
      subgoal for sp u nc v
        using GetAddr_http [of "fst nc"] deposit_handler_starting [OF eth, where s = "v\<lparr>eth1HttpAddr := _\<rparr>"]
        by (cases nc) (auto simp: succeeds_simps)
      done
  qed
qed

section \<open>The first tranches\<close>

lemma NewAccounts_succeeds:
  assumes "crypto_up C"
  shows "succeeds (NewAccounts C num) (\<lambda>_ v. always () \<and> fs v = fs w) w"
proof -
  have key: "answers always (wallet_GenerateKey C)" using assms by (simp add: crypto_up_def)
  have bls: "succeeds (bind_go (ext_get (bls_NewRandomKey C)) (\<lambda>b. ret \<lparr>Bls = b, Ecdsa = k\<rparr>)) (\<lambda>_ v. fs v = fs w) u"
    if "fs u = fs w" for k and u :: "'a world"
    by (rule succeeds_seq [OF ext_get_succeeds [where A = always and w = w]]) (simp_all add: succeeds_simps that)
  have "succeeds (NewAccount C) (\<lambda>_ v. fs v = fs w) u" if "fs u = fs w" for u
    unfolding NewAccount_def
    by (rule succeeds_seq [OF succeeds_attemptI [OF on_ext_succeeds [OF key that]]]) (auto intro: bls)
  then have "succeeds (repeat_go (loop_count num) (NewAccount C)) (\<lambda>as v. fs v = fs w \<and> length as = loop_count num) w"
    by (intro succeeds_repeat [where J = "\<lambda>_ v. fs v = fs w"]) auto
  then show ?thesis
    unfolding NewAccounts_def by (rule succeeds_mono) simp
qed

lemma writeFile_starting:
  assumes "run_path cs" and "starting cs cfg False s" and "plain_name n"
  shows "succeeds (on_env (on_fs (writeFile (srv_logDir s) n content))) (\<lambda>_ t. starting cs cfg False t
     \<and> srv_logDir t = srv_logDir s) s"
proof -
  have "fit cs (fs (env s))" "dir_path (srv_logDir s) = abs_path cs"
    using assms(2) by (simp_all add: starting_def)
  from writeFile_succeeds [OF assms(1) this(1) assms(3) this(2), of content] show ?thesis
    using assms(2) unfolding on_env_def on_fs_def succeeds_simps
    by (elim succeeds_mono) (simp add: starting_def)
qed

lemma tranche_name: "plain_name (tranche_file_name n)"
proof -
  have "slash \<notin> set (itoa n)" using itoa_digits [of n] by (auto simp: slash_def digits_def simp del: itoa.simps)
  then show ?thesis by (simp add: plain_name_def tranche_file_name_def slash_def del: itoa.simps)
qed

lemma createTranche_succeeds:
  assumes "crypto_up (sv_crypto V)" and "run_path cs" and "starting cs cfg False s"
  shows "succeeds (createTranche V num False) (\<lambda>_ t. starting cs cfg False t) s"
proof -
  have accts: "succeeds (tranche_accounts V num False) (\<lambda>_ t. starting cs cfg False t) s"
    unfolding tranche_accounts_def
    by (rule succeeds_seq [OF on_env_succeeds [OF assms(3), where A = always]])
       (auto simp: succeeds_simps intro: succeeds_mono [OF NewAccounts_succeeds [OF assms(1)]])
  have keys: "succeeds (for_each accounts (\<lambda>acct. lift_out (bls_Prv_Marshal (sv_crypto V) (Bls acct))))
      (\<lambda>bs t. t = u \<and> list_all2 (\<lambda>_ _. True) accounts bs) u" for accounts and u :: "'a server"
  proof (rule succeeds_for_each)
    fix acct and v :: "'a server"
    assume v: "v = u"
    obtain b where "bls_Prv_Marshal (sv_crypto V) (Bls acct) = Ok b" using assms(1) unfolding crypto_up_def by blast
    with v show "succeeds (lift_out (bls_Prv_Marshal (sv_crypto V) (Bls acct))) (\<lambda>y t. t = u \<and> True) v"
      by (simp add: succeeds_simps)
  qed simp
  show ?thesis
    unfolding createTranche_def
    by (rule succeeds_seq [OF accts], rule succeeds_seq [OF keys])
       (auto simp: succeeds_simps Let_def comp_def intro!: succeeds_mono [OF writeFile_starting [OF assms(2) _ tranche_name]])
qed

section \<open>The genesis state\<close>

lemma HashTreeRoot_succeeds:
  assumes "ssz_up S" and "length vs \<le> 2 ^ 40"
  shows "\<exists>r. HashTreeRoot S vs = Ok r"
proof -
  have not_above: "\<not> (of_nat (length vs) :: uint64) > set_limit"
    using assms(2) by (simp add: set_limit_def word_less_nat_alt unat_of_nat take_bit_nat_eq_self)
  have fed: "succeeds (for_each vs (ssz_HashTreeRootWith S)) (\<lambda>ys t. True \<and> list_all2 (\<lambda>_ _. True) vs ys) h" for h
  proof (rule succeeds_for_each)
    fix v h
    obtain h' where "ssz_HashTreeRootWith S v h = (Ok (), h')" using assms(1) unfolding ssz_up_def by blast
    then show "succeeds (ssz_HashTreeRootWith S v) (\<lambda>y t. True \<and> True) h" by (rule succeedsI) simp
  qed simp
  have "\<exists>r. ssz_HashRoot S h = Ok r" for h using assms(1) by (simp add: ssz_up_def)
  then have root: "succeeds (lift_out (ssz_HashRoot S h)) (\<lambda>_ _. True) t" for h and t :: 'a
    by (metis succeeds_lift)
  have "succeeds (hash_validator_set S vs) (\<lambda>_ _. True) (ssz_NewHasher S)"
    unfolding hash_validator_set_def Let_def succeeds_simps if_not_P [OF not_above]
    by (intro succeeds_mono [OF fed]) (simp add: succeeds_simps root)
  then show ?thesis by (auto simp: HashTreeRoot_def elim!: succeedsE)
qed

lemma GenerateGenesis_succeeds:
  assumes "ssz_up S" and "length accounts \<le> 2 ^ 40" and "blk_Timestamp block \<le> MinGenesisTime sp"
  shows "\<exists>st ssz. GenerateGenesis C S (genesis_input sp block accounts) = Ok (Some st) \<and> ssz_Marshal S st = Ok ssz"
proof -
  let ?i = "genesis_input sp block accounts"
  have i: "in_InitialValidator ?i = accounts" "in_GenesisTime ?i = MinGenesisTime sp" "in_Eth1Block ?i = block"
    "in_Fork ?i = Fork_Phase0 \<or> in_Fork ?i = Fork_Altair"
    by (simp_all add: genesis_input_def Let_def)
  obtain r where "HashTreeRoot S (map (genesis_validator C) accounts) = Ok r"
    using HashTreeRoot_succeeds [OF assms(1)] assms(2) by fastforce
  moreover obtain p a where "ssz_BodyPhase0_root S = Ok p" "ssz_BodyAltair_root S = Ok a"
    using assms(1) unfolding ssz_up_def by blast
  ultimately have "\<exists>st. GenerateGenesis C S ?i = Ok (Some st)"
    using i assms(3) by (auto simp: GenerateGenesis_def add_validators_eq)
  then show ?thesis using assms(1) unfolding ssz_up_def by blast
qed

text \<open>The genesis accounts are as many as configured, so the list of validators stays below its limit.\<close>

lemma genesis_accounts:
  assumes "repeat_go (loop_count (int_of_uint64 (NumTranches cfg)))
      (createTranche V (int_of_uint64 (NumGenesisValidators cfg div NumTranches cfg)) False) s = (Ok ts, t)"
    and "tranches s = []" and "NumGenesisValidators cfg mod NumTranches cfg = 0"
    and "unat (NumGenesisValidators cfg) \<le> 2 ^ 40"
  shows "length (concat (map (Accounts \<circ> snd) ts)) \<le> 2 ^ 40"
proof -
  let ?n = "NumGenesisValidators cfg" and ?k = "NumTranches cfg"
  have "unat (?n div ?k) \<le> unat ?n" by (simp add: unat_div_distrib)
  then have num: "loop_count (int_of_uint64 (?n div ?k)) = unat (?n div ?k)"
    using assms(4) by (simp add: loop_count_small)
  have k: "loop_count (int_of_uint64 ?k) \<le> unat ?k"
    using loop_count_small [of ?k] loop_count_wrap [of ?k] by (cases "unat ?k < 2 ^ 63") auto
  then have "length (tranches s) + loop_count (int_of_uint64 ?k) < 2 ^ 64"
    using assms(2) unsigned_less [of ?k, where 'a = nat] by simp
  with repeat_tranches [OF assms(1)] assms(2) tranches_ok_Nil
  have "fresh_tranches (int_of_uint64 (?n div ?k)) ts" "length ts = loop_count (int_of_uint64 ?k)" by auto
  then have "length (concat (map (Accounts \<circ> snd) ts)) \<le> unat ?k * unat (?n div ?k)"
    using fresh_total num k by (metis mult_le_mono1)
  with word_div_mult [OF assms(3)] assms(4) show ?thesis by (simp add: mult.commute)
qed

lemma setupGenesis_succeeds:
  assumes "services_up img (MinGenesisTime (Spec cfg)) V" and "run_path cs" and "starting cs cfg False s"
    and "tranches s = []" and "NumGenesisValidators cfg mod NumTranches cfg = 0"
    and "unat (NumGenesisValidators cfg) \<le> 2 ^ 40"
  shows "succeeds (setupGenesis V) (\<lambda>_ t. starting cs cfg False t) s"
proof -
  let ?time = "MinGenesisTime (Spec cfg)"
  let ?num = "int_of_uint64 (NumGenesisValidators cfg div NumTranches cfg)"
  let ?k = "loop_count (int_of_uint64 (NumTranches cfg))"
  note up = services_upD [OF assms(1)]
  have client: "answers always (eth_NewClient (sv_eth V) a)"
    and block: "answers (\<lambda>r. \<exists>b. r = Some b \<and> blk_Timestamp b \<le> ?time) (eth_GetBlockByNumber (sv_eth V) a)" for a
    using up(3) by (simp_all add: eth_up_def)
  have plan: "NumTranches (srv_config s) = NumTranches cfg" "NumGenesisValidators (srv_config s) = NumGenesisValidators cfg"
    "MinGenesisTime (Spec (srv_config s)) = ?time"
    using assms(3) by (simp_all add: starting_def plan_of_def)
  have tranches: "succeeds (repeat_go ?k (createTranche V ?num False)) (\<lambda>ts t. starting cs cfg False t
      \<and> length (concat (map (Accounts \<circ> snd) ts)) \<le> 2 ^ 40) s"
    by (rule succeeds_also, rule succeeds_mono [OF succeeds_repeat [where J = "\<lambda>_. starting cs cfg False"]])
       (use genesis_accounts [OF _ assms(4-6)] in \<open>auto intro: assms(3) createTranche_succeeds [OF up(2) assms(2)]\<close>)
  have reqs: "succeeds (on_env (ext_call (NewClient a) (eth_NewClient (sv_eth V) a))) (\<lambda>_ u. starting cs cfg False u) t"
    "succeeds (on_env (ext_call GetBlockByNumber (eth_GetBlockByNumber (sv_eth V) a)))
       (\<lambda>r u. (\<exists>b. r = Some b \<and> blk_Timestamp b \<le> ?time) \<and> starting cs cfg False u) t" if "starting cs cfg False t" for a t
    by (rule succeeds_mono [OF on_env_succeeds [OF that ext_call_succeeds [OF client refl]]], simp)
       (rule succeeds_mono [OF on_env_succeeds [OF that ext_call_succeeds [OF block refl]]], simp)
  have names: "plain_name ''spec.yaml''" "plain_name ''genesis.ssz''" by (simp_all add: plain_name_def slash_def)
  have files: "succeeds (on_env (on_fs (writeFile (srv_logDir v) ''spec.yaml'' yaml)))
      (\<lambda>_. succeeds (on_env (on_fs (writeFile (srv_logDir v) ''genesis.ssz'' ssz))) (\<lambda>_. starting cs cfg False)) v"
    if "starting cs cfg False v" for yaml ssz v
    by (rule succeeds_mono [OF writeFile_starting [OF assms(2) that names(1)]], clarify)
       (metis (no_types, lifting) succeeds_mono [OF writeFile_starting [OF assms(2) _ names(2)]])
  show ?thesis
    unfolding setupGenesis_def succeeds_bind succeeds_pure Let_def plan
    apply (rule succeeds_mono [OF tranches], clarify)
    apply (rule succeeds_mono [OF reqs(1)], assumption)
    apply (rule succeeds_mono [OF reqs(2)], assumption, clarify)
    subgoal for ts t u b x v blk
      using GenerateGenesis_succeeds [OF up(4), where sp = "Spec (srv_config s)" and accounts = "concat (map (Accounts \<circ> snd) ts)"
          and block = blk and C = "sv_crypto V"] files [of "v\<lparr>genesisSSZ := _\<rparr>"]
      by (auto simp: succeeds_simps plan)
    done
qed

section \<open>The server\<close>

lemma setupGrpcServer_succeeds:
  assumes "services_up img time V" and "starting cs cfg b s"
  shows "succeeds (setupGrpcServer V) (\<lambda>_ t. starting cs cfg b t) s"
  unfolding setupGrpcServer_def
  by (rule succeeds_mono [OF on_env_succeeds [OF assms(2) ext_call_succeeds [OF services_upD(5) [OF assms(1)] refl]]]) simp

lemma bootnode_v4_retry: "Retry NewBootnodeV4 = Some RetryBootnodeV4"
  by (simp add: NewBootnodeV4_def with_defs empty_spec_def)

lemma startable_named: "Retry (WithName n sp) = Retry sp" "Mount (WithName n sp) = Mount sp"
  "Files (WithName n sp) = Files sp"
  by (simp_all add: WithName_def)

lemma start_server_succeeds:
  assumes "services_up img (MinGenesisTime (Spec cfg)) V" and "run_path cs" and "starting cs cfg True s"
    and "tranches s = []" and "nodes s = []" and "NumGenesisValidators cfg mod NumTranches cfg = 0"
    and "unat (NumGenesisValidators cfg) \<le> 2 ^ 40"
  shows "succeeds (start_server V) (\<lambda>_ t. starting cs cfg False t) s"
proof -
  have deploy: "succeeds (deployNode V (WithName n sp)) (\<lambda>(m, c) t. stored_fits (Retry sp) c \<and> starting cs cfg True t
      \<and> bootnodeEC t = bootnodeEC u \<and> tranches t = []) u"
    if "starting cs cfg True u" "tranches u = []" "n \<in> {''bootnode'', ''bootnode-v4''}"
      "sp \<in> {NewBootnodeV5, NewBootnodeV4}" for n sp u
  proof (rule succeeds_mono [OF succeeds_also [where R = "\<lambda>_ t. tranches t = []"]])
    have sp: "startable (sv_docker V) sp" "Mount sp = []" "Files sp = []" "map_get (Labels sp) NodeTypeLabel = []"
      using that(4) bootnode_v5_startable bootnode_v4_startable bootnode_labels by auto
    have "plain_name (Name (WithName n sp) @ ''.log'')" using that(3) by (auto simp: plain_name_def slash_def)
    then show "succeeds (deployNode V (WithName n sp)) (\<lambda>(m, c) t. stored_fits (Retry sp) c \<and> starting cs cfg True t
        \<and> bootnodeEC t = bootnodeEC u) u"
      using sp deploy_bootnode_succeeds [OF assms(1,2) that(1), of "WithName n sp"] by (simp add: startable_named)
    fix x t
    assume "deployNode V (WithName n sp) u = (Ok x, t)"
    then show "tranches t = []" using deployNode_base [of V "WithName n sp" u] that(2) sp(4) by (cases x) auto
  qed auto
  have eth1: "succeeds (setupEth1Network V) (\<lambda>_ t. starting cs cfg False t \<and> tranches t = []) u"
    if "starting cs cfg True u" "tranches u = []" "plain_text (bootnodeEC u)" for u
    by (rule succeeds_also [OF setupEth1Network_succeeds [OF assms(1,2) that(1,3)]])
       (use that(2) setupEth1Network_Ok in force)
  show ?thesis
    unfolding start_server_def succeeds_bind succeeds_wrap
    apply (rule succeeds_mono [OF deploy [OF assms(3,4)]], simp, simp, clarify)
    apply (simp only: succeeds_pure succeeds_bind)
    apply (rule succeeds_mono [OF deploy], simp, simp, simp, simp, clarify)
    apply (simp only: succeeds_pure succeeds_bind)
    apply (rule succeeds_mono [OF eth1], simp, simp, simp add: stored_fits_def bootnode_v4_retry, clarify)
    apply (simp only: succeeds_wrap succeeds_bind)
    apply (rule succeeds_mono [OF setupGenesis_succeeds [OF assms(1,2) _ _ assms(6,7)]], assumption, assumption)
    apply (simp only: succeeds_wrap)
    apply (rule setupGrpcServer_succeeds [OF assms(1)], assumption)
    done
qed

text \<open>A configuration and a world from which the server starts.\<close>

definition sound_config :: "config \<Rightarrow> bool" where
  "sound_config cfg \<longleftrightarrow> NumTranches cfg \<noteq> 0 \<and> NumGenesisValidators cfg mod NumTranches cfg = 0
     \<and> unat (NumGenesisValidators cfg) \<le> 2 ^ 40 \<and> slash \<notin> set (cfg_Name cfg)"

text \<open>
  No faults; the working directory is \<open>cs\<close>, not below \<open>/tmp\<close>; nothing is there under the name of the log
  directory, nor under \<open>/tmp/node-eth1-\<close>.
\<close>

definition sound_files :: "string list \<Rightarrow> string \<Rightarrow> fsys \<Rightarrow> bool" where
  "sound_files cs name f \<longleftrightarrow> fs_fault f = (\<lambda>_. None) \<and> run_path cs \<and> fs_cwd f = abs_path cs
     \<and> (\<forall>q \<in> set (ancestors (abs_path cs)). is_dir f q) \<and> is_dir f ''/tmp''
     \<and> (\<forall>d \<in> set (fs_dirs f). \<not> has_prefix d (abs_path (cs @ [''e2e-'' @ name])))
     \<and> fs_files f (abs_path (cs @ [''e2e-'' @ name])) = None \<and> tmp_free f"

lemma NewServer_succeeds:
  assumes "services_up img (MinGenesisTime (Spec cfg)) V" and "sound_config cfg" and "sound_files cs (cfg_Name cfg) (fs w)"
  shows "\<exists>s v. NewServer V cfg w = (Ok s, v)"
proof -
  let ?n = "''e2e-'' @ cfg_Name cfg"
  let ?cs = "cs @ [?n]"
  let ?l = "\<lparr>dir_path = abs_path ?cs, logFiles = []\<rparr>"
  have fs: "run_path cs" "tmp_free (fs w)" using assms(3) by (simp_all add: sound_files_def)
  have path: "run_path ?cs" "cs \<noteq> []"
    using assms(2) fs(1) by (auto simp: run_path_def sound_config_def plain_name_def slash_def)
  have "answers always (dk_NewClient (sv_docker V))" using assms(1) by (simp add: services_up_def docker_up_def)
  from on_ext_succeeds [OF this refl, of w] obtain c u where
    u: "NewDocker (sv_docker V) w = (Ok c, u)" "fs u = fs w" by (auto simp: NewDocker_def wrap_err_def elim!: succeedsE)
  let ?f = "(fs w)\<lparr>fs_dirs := abs_path ?cs # fs_dirs (fs w)\<rparr>"
  have dir: "newLogDir ?n (fs u) = (Ok ?l, ?f)" "fit ?cs ?f"
    using newLogDir_succeeds [of "fs w" cs ?n] assms(3) path u(2) by (simp_all add: sound_files_def)
  have "\<not> has_prefix (abs_path ?cs) ''/tmp/node-eth1-''"
  proof
    assume "has_prefix (abs_path ?cs) ''/tmp/node-eth1-''"
    then obtain r where r: "abs_path ?cs = ''/tmp/'' @ (''node-eth1-'' @ r)" by (auto simp: has_prefix_iff)
    have "has_prefix (abs_path ?cs) (abs_path cs @ [slash])" using path(2) by (simp add: abs_path_snoc has_prefix_iff)
    with r tmp_outside [OF fs(1)] show False by metis
  qed
  then have "tmp_free ?f" using fs(2) by (auto simp: tmp_free_def exists_path_def is_dir_def)
  then have "starting ?cs cfg True (new_server cfg ?l (u\<lparr>fs := ?f\<rparr>))"
    using dir(2) by (simp add: starting_def new_server_def)
  from start_server_succeeds [OF assms(1) path(1) this] assms(2)
  obtain x s where "start_server V (new_server cfg ?l (u\<lparr>fs := ?f\<rparr>)) = (Ok x, s)"
    by (auto simp: new_server_def sound_config_def elim!: succeedsE)
  then show ?thesis
    using u(1) dir(1) assms(2) by (simp add: NewServer_def sound_config_def bind_go_def on_fs_def on_part_def)
qed

section \<open>The samples\<close>

text \<open>
  A daemon whose containers carry their image in their id, and whose other containers log JSON.
\<close>

definition live_image :: "string \<Rightarrow> string" where
  "live_image i = tl (dropWhile (\<lambda>c. c \<noteq> CHR ''-'') i)"

definition live_logs :: "string \<Rightarrow> bytes" where
  "live_logs i =
     (if live_image i = bootnode_v5_image then enr_marker @ ''-x{{'' @ [dquote, newline]
      else if live_image i = bootnode_v4_image then ''enode://x@y:30301'' @ [newline] @ ''{}''
      else ''{{}}'')"

definition live_docker :: "nat docker_api" where
  "live_docker = sample_docker\<lparr>
     dk_ImageInspect := (\<lambda>i n. (Fail ''no such image'', n)),
     dk_ContainerCreate := (\<lambda>c b n. (Ok (itoa n @ ''-'' @ cc_image c), Suc n)),
     dk_ContainerLogs := (\<lambda>i n. (Ok (live_logs i), n))\<rparr>"

definition live_services :: "(nat, nat) services" where
  "live_services = sample_services\<lparr>sv_docker := live_docker\<rparr>"

lemma live_image_of: "live_image (itoa n @ ''-'' @ m) = m"
proof -
  have "CHR ''-'' \<notin> set (itoa n)" by (intro itoa_no_sep) (simp add: digits_def)
  then have "dropWhile (\<lambda>c. c \<noteq> CHR ''-'') (itoa n @ CHR ''-'' # m) = CHR ''-'' # m"
    by (subst dropWhile_append2) auto
  then show ?thesis by (simp add: live_image_def del: itoa.simps)
qed

lemma live_docker_up: "docker_up live_image live_docker"
proof -
  have "find_enr (enr_marker @ ''-x{{'' @ [dquote, newline]) \<noteq> None" by code_simp
  moreover have "hd (split_on newline (''enode://x@y:30301'' @ [newline] @ ''{}'')) = ''enode://x@y:30301''"
    by code_simp
  moreover have "bootnode_v5_image \<noteq> bootnode_v4_image"
    by (simp add: bootnode_v5_image_def bootnode_v4_image_def)
  ultimately have logs: "live_image i \<in> {bootnode_v5_image, bootnode_v4_image} \<Longrightarrow>
      bootnode_logs live_docker (live_image i) (live_logs i)" for i
    by (auto simp: bootnode_logs_def live_logs_def live_docker_def sample_docker_def plain_text_def)
  then have "live_image i \<in> {bootnode_v5_image, bootnode_v4_image} \<Longrightarrow>
      answers (bootnode_logs live_docker (live_image i)) (dk_ContainerLogs live_docker i)" for i
    by (simp add: answers_def live_docker_def [THEN arg_cong [where f = dk_ContainerLogs]])
  then show ?thesis
    unfolding docker_up_def
    by (intro conjI allI impI; blast?)
       (simp_all add: answers_def live_docker_def sample_docker_def live_image_of [simplified] del: itoa.simps)
qed

lemma sample_crypto_up: "crypto_up sample_crypto"
proof -
  have "CHR ''{'' \<notin> hex_chars" by (simp add: hex_chars_def)
  then have "plain_text (address_String sample_crypto a)" for a
    using hex_encode_chars [of a] by (auto simp: sample_crypto_def plain_text_def)
  then show ?thesis
    by (auto simp: crypto_up_def answers_def sample_crypto_def split: wallet_key.split bls_key.split)
qed

lemma live_services_up: "5 \<le> time \<Longrightarrow> services_up live_image time live_services"
  using live_docker_up sample_crypto_up
  by (simp add: services_up_def live_services_def sample_services_def eth_up_def ssz_up_def answers_def sample_eth_def sample_ssz_def)

lemma sample_sound:
  "sound_config sample_config" "sound_files [''work''] (cfg_Name sample_config) (fs sample_world)"
proof -
  show "sound_config sample_config"
    by (simp add: sound_config_def sample_config_def slash_def)
  have "ancestors (abs_path [''work'']) = [''/work'']" by code_simp
  then show "sound_files [''work''] (cfg_Name sample_config) (fs sample_world)"
    by (simp add: sound_files_def sample_config_def sample_world_def sample_fs_def run_path_def plain_name_def
        slash_def abs_path_def is_dir_def has_prefix_def tmp_free_def exists_path_def) auto
qed

lemma sample_starts: "\<exists>s v. NewServer live_services sample_config sample_world = (Ok s, v)"
proof -
  have "MinGenesisTime (Spec sample_config) = 19" by (simp add: sample_config_def DefaultEth2Spec_def)
  then show ?thesis using NewServer_succeeds [OF live_services_up sample_sound] by simp
qed

end
