(* ===== verification/StartClaims.thy ===== *)
theory StartClaims
  imports StartSuccess
begin

text \<open>
  The properties of starting and stopping the server.
\<close>

section \<open>Properties\<close>

text \<open>
  C10. NewServer returns a server whose nodes are bootnode, bootnode-v4 and eth1, with no
  tranche used and the invariant of the reachable states, under these hypotheses. Docker answers
  every request, has or can pull each image and gives each container an id that tells its image;
  no container stops by itself and each readiness ticker fires before its timeout; Go enumerates
  a map in some order of its entries; the logs of the prysm bootnode hold an ENR when first read
  and the first line of the logs of the v4 bootnode has no opening brace (other logs are
  arbitrary); the HTTP endpoint of the execution node answers. The execution node accepts the
  deposit contract, has its receipt at the first poll, and its latest block is not later than
  the genesis time. The key and SSZ libraries return no errors and addresses are written without
  a brace. The validator count is a multiple of the tranche count, which is not zero, and at
  most 2^40, and the name of the round has no slash. The file system has no faults; the working
  directory exists with its parents, is not the root and is not /tmp or below it; no file has
  the path of the log directory and no directory a path that starts with it; /tmp exists and
  nothing in it has a name that starts with node-eth1-. The gRPC port can be listened on.
\<close>

theorem NewServer_starts:
  assumes "services_up img (MinGenesisTime (Spec cfg)) V" and "sound_config cfg"
    and "sound_files cs (cfg_Name cfg) (fs w)"
  shows "\<exists>s. NewServer V cfg w = (Ok s, env s) \<and> server_inv s
    \<and> map name_of (nodes s) = [''bootnode'', ''bootnode-v4'', ''eth1''] \<and> consumed (tranches s) = []"
proof -
  obtain s v where run: "NewServer V cfg w = (Ok s, v)" using NewServer_succeeds [OF assms] by blast
  from NewServer_cases [OF this] obtain l w' where "start_server V (new_server cfg l w') = (Ok (), s)" "v = env s"
    by blast
  with start_server_Ok [OF this(1)] run show ?thesis by (simp add: new_server_def base_names_def)
qed

theorem NewServer_starts_witness:
  "\<exists>s. NewServer live_services sample_config sample_world = (Ok s, env s) \<and> server_inv s"
proof -
  have "services_up live_image (MinGenesisTime (Spec sample_config)) live_services"
    by (rule live_services_up) (simp add: sample_config_def DefaultEth2Spec_def)
  from NewServer_starts [OF this sample_sound] show ?thesis by blast
qed

text \<open>
  C9. When NewServer returns a server and the configured number of genesis validators is below
  2^63, the server satisfies the invariant of the reachable states and has split exactly that
  number of accounts evenly over its tranches; the genesis state it keeps is the SSZ encoding of
  the state generated from a block that GetBlockByNumber answers at the address of the execution
  node and from the accounts of all tranches in order; and the files genesis.ssz and spec.yaml
  of its log directory hold that encoding and the rendered configuration.
\<close>

theorem NewServer_genesis:
  assumes "NewServer V cfg w = (Ok s, v)" and "unat (NumGenesisValidators cfg) < 2 ^ 63"
  shows "length (concat (map (Accounts \<circ> snd) (tranches s))) = unat (NumGenesisValidators cfg)
    \<and> (\<forall>(k, tr) \<in> set (tranches s).
        length (Accounts tr) * unat (NumTranches cfg) = unat (NumGenesisValidators cfg))
    \<and> genesis_of V (eth1HttpAddr s) (Spec (srv_config s)) (tranches s) (genesisSSZ s)
    \<and> log_file s ''genesis.ssz'' = Some (genesisSSZ s)
    \<and> log_file s ''spec.yaml'' = Some (buildConfig (Spec (srv_config s)))
    \<and> server_inv s \<and> v = env s"
proof -
  from NewServer_cases [OF assms(1)] obtain l w' where "start_server V (new_server cfg l w') = (Ok (), s)" "v = env s"
    by blast
  with start_server_Ok [OF this(1)] NewServer_Ok_genesis [OF assms] show ?thesis
    by (simp add: new_server_def genesis_files_def)
qed

theorem NewServer_genesis_witness:
  "\<exists>s v. NewServer live_services sample_config sample_world = (Ok s, v)
     \<and> length (concat (map (Accounts \<circ> snd) (tranches s))) = 4
     \<and> (\<forall>(k, tr) \<in> set (tranches s). length (Accounts tr) = 2)
     \<and> log_file s ''genesis.ssz'' = Some (genesisSSZ s)"
proof -
  obtain s v where run: "NewServer live_services sample_config sample_world = (Ok s, v)"
    using sample_starts by blast
  have "unat (NumGenesisValidators sample_config) = 4" "unat (NumTranches sample_config) = 2"
    by (simp_all add: sample_config_def)
  with NewServer_genesis [OF run] run show ?thesis by fastforce
qed

theorem NewServer_rejects:
  assumes "NumTranches cfg = 0 \<or> NumGenesisValidators cfg mod NumTranches cfg \<noteq> 0"
  shows "snd (NewServer V cfg w) = w
    \<and> (if NumTranches cfg = 0
       then fst (NewServer V cfg w) = Panic ''runtime error: integer divide by zero''
       else \<exists>e. fst (NewServer V cfg w) = Fail e)"
  using assms unfolding NewServer_def by (cases "NumTranches cfg = 0") simp_all

theorem NewServer_rejects_witness:
  "\<exists>e. NewServer sample_services (sample_config\<lparr>NumGenesisValidators := 5\<rparr>) sample_world = (Fail e, sample_world)"
proof -
  let ?cfg = "sample_config\<lparr>NumGenesisValidators := 5\<rparr>"
  have bad: "NumTranches ?cfg \<noteq> 0" "NumGenesisValidators ?cfg mod NumTranches ?cfg \<noteq> 0"
    by code_simp+
  obtain r v where run: "NewServer sample_services ?cfg sample_world = (r, v)"
    by (cases "NewServer sample_services ?cfg sample_world")
  from bad run show ?thesis
    using NewServer_rejects [of ?cfg sample_services sample_world] by auto
qed

text \<open>
  C15. Stop asks Docker to stop every node, in order, even if stopping some of them or closing a
  log file fails, and always returns.
\<close>

theorem StopServer_stops_all:
  assumes "\<forall>i x p y. dk_ContainerStop (sv_docker V) i x \<noteq> (Panic p, y)"
  shows "\<exists>t. StopServer V s = (Ok (), t)
    \<and> trace (env t) = trace (env s) @ map (\<lambda>n. ContainerStop (node_id n)) (nodes s)
    \<and> nodes t = nodes s"
  using assms by (rule StopServer_trace)

theorem StopServer_stops_all_witness:
  "\<exists>t. StopServer (sample_services\<lparr>sv_docker := sample_docker\<lparr>dk_ContainerStop := (\<lambda>i n. (Fail ''gone'', n))\<rparr>\<rparr>)
      ((new_server sample_config \<lparr>dir_path = ''/work'', logFiles = []\<rparr> sample_world)
        \<lparr>nodes := [\<lparr>node_id = ''c0'', opts = empty_spec, ip = [], mountMap = []\<rparr>,
                 \<lparr>node_id = ''c1'', opts = empty_spec, ip = [], mountMap = []\<rparr>]\<rparr>) = (Ok (), t)
    \<and> trace (env t) = [ContainerStop ''c0'', ContainerStop ''c1'']"
proof -
  let ?V = "sample_services\<lparr>sv_docker := sample_docker\<lparr>dk_ContainerStop := (\<lambda>i n. (Fail ''gone'', n))\<rparr>\<rparr>"
  let ?s = "(new_server sample_config \<lparr>dir_path = ''/work'', logFiles = []\<rparr> sample_world)
        \<lparr>nodes := [\<lparr>node_id = ''c0'', opts = empty_spec, ip = [], mountMap = []\<rparr>,
                 \<lparr>node_id = ''c1'', opts = empty_spec, ip = [], mountMap = []\<rparr>]\<rparr>"
  have "\<forall>i x p y. dk_ContainerStop (sv_docker ?V) i x \<noteq> (Panic p, y)" by simp
  from StopServer_stops_all [OF this, of ?s] show ?thesis
    by (auto simp: new_server_def sample_world_def)
qed

end
