(* ===== verification/ServerClaims.thy ===== *)
theory ServerClaims
  imports ServerSystem
begin

text \<open>
  The properties of the running server: it implements the abstract network, names and tranches stay
  consistent in every reachable state, nothing is lost or reused, and what each request returns.
\<close>

lemma sample_run:
  "\<exists>t n. server_step sample_services sample_server t \<and> nodes t = sample_nodes @ [n] \<and> name_of n = ''beacon-1-teku''
    \<and> tranches t = tranches sample_server"
proof -
  obtain ps t n where run: "NodeDeploy sample_services teku_beacon_request sample_server = (Ok ps, t)"
    and t: "nodes t = sample_nodes @ [n]" "name_of n = ''beacon-1-teku''" "tranches t = tranches sample_server"
    using teku_beacon_run by (elim exE conjE)
  have "handle sample_services (NodeDeployReq teku_beacon_request) sample_server = (Ok (), t)"
    using run by (simp add: no_reply_def bind_go_def)
  then have "server_step sample_services sample_server t"
    by (rule server_step.Request) simp
  with t show ?thesis by blast
qed

section \<open>Runs of the server\<close>

text \<open>
  C1. Every run of the server, any sequence of requests and of the goroutines beside them, is a
  run of the abstract network: it only ever adds a beacon node with the next number, adds an
  empty-handed tranche with the next index, or adds a validator that takes over an unused
  tranche, all or nothing.
\<close>

theorem server_implements_network:
  assumes "(server_step V)\<^sup>*\<^sup>* s t"
  shows "net_step\<^sup>*\<^sup>* (nodes s, tranches s) (nodes t, tranches t)"
  using server.run_sim [OF assms] by (simp add: net_def)

theorem server_implements_network_witness:
  "\<exists>n. net_step\<^sup>*\<^sup>* (sample_nodes, tranches sample_server) (sample_nodes @ [n], tranches sample_server)
    \<and> name_of n = ''beacon-1-teku''"
proof -
  obtain t n where "server_step sample_services sample_server t" and t: "nodes t = sample_nodes @ [n]"
    "name_of n = ''beacon-1-teku''" "tranches t = tranches sample_server"
    using sample_run by (elim exE conjE)
  then have "(server_step sample_services)\<^sup>*\<^sup>* sample_server t" by blast
  from server_implements_network [OF this] t show ?thesis by (auto simp: sample_server_simps)
qed

text \<open>
  C2. In every state the server can reach from one that satisfies its invariant, node names are
  distinct, the only nodes that are neither beacons nor validators are the two bootnodes and
  eth1, tranches are numbered without gaps, and the names written on used tranches are exactly
  the names of the validator nodes.
\<close>

theorem server_reachable_invariant:
  assumes "server_inv s" and "(server_step V)\<^sup>*\<^sup>* s t"
  shows "distinct (map name_of (nodes t)) \<and> map name_of (filter other_kind (nodes t)) = base_names
    \<and> (length (tranches t) < 2 ^ 64 \<longrightarrow> map fst (tranches t) = map of_nat [0..<length (tranches t)]
        \<and> mset (consumed (tranches t)) = mset (map name_of (filter (of_kind ''Validator'') (nodes t))))"
proof -
  have inv: "net_inv (net t)"
    using server.concrete.reach_inv [OF assms(2)] assms(1) by (simp add: server_inv_def)
  then have "well_named (nodes t)" by (simp add: net_inv_def net_def)
  with well_named_distinct inv show ?thesis
    by (auto simp: net_inv_def net_def tranches_used_def tranches_ok_def well_named_def)
qed

theorem server_reachable_invariant_witness:
  "\<exists>t. (server_step sample_services)\<^sup>*\<^sup>* sample_server t \<and> length (nodes t) = 6
    \<and> distinct (map name_of (nodes t)) \<and> mset (consumed (tranches t)) = {#''validator-0-teku''#}"
proof -
  obtain t n where step: "server_step sample_services sample_server t" and t: "nodes t = sample_nodes @ [n]"
    "tranches t = tranches sample_server"
    using sample_run by (elim exE conjE)
  then have run: "(server_step sample_services)\<^sup>*\<^sup>* sample_server t" by blast
  note inv = server_reachable_invariant [OF sample_server_inv run]
  have "consumed (tranches t) = [''validator-0-teku'']" unfolding t by code_simp
  moreover have "length (nodes t) = 6" using t by (simp add: sample_nodes_def)
  ultimately show ?thesis using run inv by (intro exI [of _ t]) simp
qed

text \<open>
  C3. Along every run no node is lost or changed, every tranche keeps its number, accounts and
  file, and a tranche once given to a validator is never given to another.
\<close>

theorem server_history:
  assumes "server_inv s" and "(server_step V)\<^sup>*\<^sup>* s t"
  shows "(\<exists>new. nodes t = nodes s @ new)
    \<and> (length (tranches t) < 2 ^ 64 \<longrightarrow> (\<forall>k tr. map_of (tranches s) k = Some tr \<longrightarrow>
        (\<exists>tr'. map_of (tranches t) k = Some tr' \<and> Accounts tr' = Accounts tr \<and> Filepath tr' = Filepath tr
          \<and> (IsConsumed tr \<longrightarrow> tr' = tr))))"
proof -
  have "net_evolves (net s) (net t)"
    using net_reach_evolves [OF server.run_sim [OF assms(2)]] assms(1) by (simp add: server_inv_def)
  then show ?thesis by (simp add: net_evolves_def net_def tranches_kept_def)
qed

theorem server_history_witness:
  "\<exists>t tr'. (server_step sample_services)\<^sup>*\<^sup>* sample_server t \<and> length (nodes t) = 6
    \<and> map_of (tranches t) 0 = Some tr' \<and> tr_Validator tr' = ''validator-0-teku''"
proof -
  obtain t n where "server_step sample_services sample_server t" and t: "nodes t = sample_nodes @ [n]"
    "tranches t = tranches sample_server"
    using sample_run by (elim exE conjE)
  then have run: "(server_step sample_services)\<^sup>*\<^sup>* sample_server t" by blast
  have "length (tranches t) < 2 ^ 64" using t sample_server_simps(2) by simp
  moreover have "\<exists>tr. map_of (tranches sample_server) 0 = Some tr \<and> IsConsumed tr \<and> tr_Validator tr = ''validator-0-teku''"
    by (simp add: sample_server_def IsConsumed_def)
  ultimately have "\<exists>tr'. map_of (tranches t) 0 = Some tr' \<and> tr_Validator tr' = ''validator-0-teku''"
    using server_history [OF sample_server_inv run] by blast
  moreover have "length (nodes t) = 6" using t by (simp add: sample_nodes_def)
  ultimately show ?thesis using run by blast
qed

section \<open>Requests\<close>

lemma deployBeacon_known:
  assumes "deployBeacon V req s = (Ok np, t)"
  shows "known_client (NodeClient req)"
  using assms
  by (auto simp: deployBeacon_def Let_def beaconFactory_def NodeClient_name_def enum_defs split: if_splits)

lemma repeat_known:
  assumes "repeat_go k (deployBeacon V req) s = (Ok bs, t)" and "bs \<noteq> []"
  shows "known_client (NodeClient req)"
  using assms by (cases k) (auto dest: deployBeacon_known)

lemma shown_client:
  "known_client c \<Longrightarrow> client_of n = NodeClient_String unk c \<Longrightarrow> node_Client (specNodeToNode n) = c"
  using node_client.dec_enc [of c unk] by (simp add: specNodeToNode_def client_of_def)

lemma shown_type:
  "type_of n = ''Beacon'' \<Longrightarrow> node_Type (specNodeToNode n) = NodeType_Beacon"
  "type_of n = ''Validator'' \<Longrightarrow> node_Type (specNodeToNode n) = NodeType_Validator"
  by (simp_all add: specNodeToNode_def type_of_def)

lemma shown_name [simp]: "node_Name (specNodeToNode n) = name_of n"
  by (simp add: specNodeToNode_def name_of_def)

lemma numbered_nth:
  "numbered typ kind i ns \<Longrightarrow> j < length ns \<Longrightarrow> new_node typ kind (client_of (ns ! j)) (i + j) (ns ! j)"
proof (induction ns arbitrary: i j)
  case (Cons n ns)
  then show ?case using Cons.IH [of "Suc i" "j - 1"] by (cases j) auto
qed simp

text \<open>
  C8. A successful beacon request appends exactly the requested number of beacon nodes of the
  requested client, numbered on from the beacon nodes there are, reports them in order, and
  leaves the tranches alone.
\<close>

theorem NodeDeploy_deploys_beacons:
  assumes "NodeDeploy V req s = (Ok ps, t)" and "NodeType req = Some (ReqBeacon n)"
  shows "tranches t = tranches s \<and> length ps = loop_count (int_of_uint64 n)
    \<and> (\<exists>new. nodes t = nodes s @ new \<and> ps = map specNodeToNode new)
    \<and> (\<forall>j < length ps.
        node_Name (ps ! j) = node_name ''beacon'' (numOfNodes V NodeType_Beacon s + j) (client_name V (NodeClient req))
        \<and> node_Type (ps ! j) = NodeType_Beacon \<and> node_Client (ps ! j) = NodeClient req)"
proof -
  let ?clt = "client_name V (NodeClient req)"
  obtain new where eff: "deploys_beacons ?clt (loop_count (int_of_uint64 n)) s t new"
    and ps: "ps = map specNodeToNode new"
    using NodeDeploy_beacons [OF assms] by (elim exE conjE)
  have known: "known_client (NodeClient req)" if "new \<noteq> []"
  proof -
    obtain bs where "repeat_go (loop_count (int_of_uint64 n)) (deployBeacon V req) s = (Ok bs, t)" "ps = map snd bs"
      using assms by (auto simp: NodeDeploy_def beaconCount_def)
    with that ps repeat_known show ?thesis by fastforce
  qed
  have shown: "node_Name (ps ! j) = node_name ''beacon'' (numOfNodes V NodeType_Beacon s + j) ?clt
      \<and> node_Type (ps ! j) = NodeType_Beacon \<and> node_Client (ps ! j) = NodeClient req" if j: "j < length ps" for j
  proof -
    have "new_node ''Beacon'' ''beacon'' (client_of (new ! j)) (kind_count ''Beacon'' (nodes s) + j) (new ! j)"
      using eff j ps by (intro numbered_nth) (simp_all add: deploys_beacons_def beacons_of_def)
    moreover have "client_of (new ! j) = ?clt"
      using eff j ps by (simp add: deploys_beacons_def beacons_of_def list_all_length)
    moreover have "known_client (NodeClient req)" using known j ps by (cases new) auto
    ultimately show ?thesis
      using j ps shown_client [of "NodeClient req" "new ! j"] shown_type(1) [of "new ! j"]
      by (simp add: new_node_def name_of_def numOfNodes_kind kind_count_def)
  qed
  with eff ps show ?thesis by (auto simp: deploys_beacons_def)
qed

theorem NodeDeploy_deploys_beacons_witness:
  "\<exists>p t. NodeDeploy sample_services teku_beacon_request sample_server = (Ok [p], t)
    \<and> node_Name p = ''beacon-1-teku'' \<and> node_Type p = NodeType_Beacon \<and> node_Client p = NodeClient_Teku
    \<and> tranches t = tranches sample_server"
proof -
  obtain ps t where run: "NodeDeploy sample_services teku_beacon_request sample_server = (Ok ps, t)"
    and name: "map node_Name ps = [''beacon-1-teku'']"
    using teku_beacon_deployed by (elim exE conjE)
  have req: "NodeType teku_beacon_request = Some (ReqBeacon 1)" "NodeClient teku_beacon_request = NodeClient_Teku"
    by (simp_all add: teku_beacon_request_def)
  from name obtain p where ps: "ps = [p]" "node_Name p = ''beacon-1-teku''" by auto
  show ?thesis
    using NodeDeploy_deploys_beacons [OF run req(1)] run ps req(2) by auto
qed

text \<open>
  C12. A validator request for a tranche that does not exist or is already used fails, starts no
  validator and changes no tranche (beacon nodes it deployed first stay).
\<close>

theorem NodeDeploy_refuses_used_tranche:
  assumes "NodeType req = Some (ReqValidator d)" and "NumValidators d = 0"
    and "case map_of (tranches s) (NumTranch d) of None \<Rightarrow> True | Some tr \<Rightarrow> IsConsumed tr"
  shows "(\<forall>ps. fst (NodeDeploy V req s) \<noteq> Ok ps) \<and> tranches (snd (NodeDeploy V req s)) = tranches s
    \<and> filter (of_kind ''Validator'') (nodes (snd (NodeDeploy V req s))) = filter (of_kind ''Validator'') (nodes s)"
proof -
  obtain r t where run: "NodeDeploy V req s = (r, t)" by (cases "NodeDeploy V req s")
  have "\<forall>tr. map_of (tranches s) (NumTranch d) = Some tr \<longrightarrow> IsConsumed tr"
    using assms(3) by (auto split: option.splits)
  from NodeDeploy_bad_tranche [OF run assms(1,2) this] obtain bs where
    "(\<forall>ps. r \<noteq> Ok ps) \<and> tranches t = tranches s" "nodes t = nodes s @ bs" "kind_count ''Validator'' bs = 0"
    by (elim exE conjE) simp
  then show ?thesis by (simp add: run kind_count_def)
qed

theorem NodeDeploy_refuses_used_tranche_witness:
  "(\<forall>ps. fst (NodeDeploy sample_services used_tranche_request sample_server) \<noteq> Ok ps)
    \<and> tranches (snd (NodeDeploy sample_services used_tranche_request sample_server)) = tranches sample_server"
proof -
  obtain d where "NodeType used_tranche_request = Some (ReqValidator d)" "NumValidators d = 0" "NumTranch d = 0"
    by (simp add: used_tranche_request_def)
  moreover from this have "case map_of (tranches sample_server) (NumTranch d) of None \<Rightarrow> True | Some tr \<Rightarrow> IsConsumed tr"
    by (simp add: sample_server_def IsConsumed_def)
  ultimately show ?thesis
    using NodeDeploy_refuses_used_tranche [of used_tranche_request d sample_server sample_services] by blast
qed

theorem NodeDeploy_empty_requests:
  "(NodeType req = None \<longrightarrow>
      (\<exists>p. NodeDeploy V req s = (Panic p, s)))
    \<and> (NodeType req = Some (ReqBeacon n) \<and> 2 ^ 63 \<le> unat n \<longrightarrow> NodeDeploy V req s = (Ok [], s))"
  by (auto simp: NodeDeploy_def beaconCount_def loop_count_wrap bind_go_def)

theorem NodeDeploy_empty_requests_witness:
  "(\<exists>p. NodeDeploy sample_services (teku_beacon_request\<lparr>NodeType := None\<rparr>) sample_server = (Panic p, sample_server))
    \<and> NodeDeploy sample_services (teku_beacon_request\<lparr>NodeType := Some (ReqBeacon (- 1))\<rparr>) sample_server = (Ok [], sample_server)"
proof
  show "\<exists>p. NodeDeploy sample_services (teku_beacon_request\<lparr>NodeType := None\<rparr>) sample_server = (Panic p, sample_server)"
    using NodeDeploy_empty_requests [of "teku_beacon_request\<lparr>NodeType := None\<rparr>"] by simp
  have "2 ^ 63 \<le> unat (- 1 :: uint64)" by code_simp
  then show "NodeDeploy sample_services (teku_beacon_request\<lparr>NodeType := Some (ReqBeacon (- 1))\<rparr>) sample_server = (Ok [], sample_server)"
    using NodeDeploy_empty_requests [of "teku_beacon_request\<lparr>NodeType := Some (ReqBeacon (- 1))\<rparr>" sample_services sample_server "- 1"]
    by simp
qed

text \<open>A validator deployed on the sample server, step by step.\<close>

declare buildConfig_def [code del]

definition sample_vcfg :: validator_config where
  "sample_vcfg = \<lparr>vc_Spec = buildConfig (Spec sample_config), vc_Accounts = sample_accounts,
     vc_Beacon_GetAddr = GetAddr (sample_nodes ! 3)\<rparr>"

definition sample_validator_spec :: spec where
  "sample_validator_spec = (case fst (NewTekuValidator sample_crypto sample_vcfg sample_world) of
     Ok sp \<Rightarrow> sp | _ \<Rightarrow> empty_spec)"

lemma sample_validator_spec:
  "NewTekuValidator sample_crypto sample_vcfg w = (Ok sample_validator_spec, w)"
  unfolding sample_validator_spec_def
  by (simp add: NewTekuValidator_def sample_vcfg_def sample_nodes_def plain_node_def GetAddr_def
      sample_accounts_def sample_crypto_def teku_add_key_def on_ext_def on_part_def bind_go_def Let_def)

lemma sample_validator_deploys:
  "is_ok (fst (deployRequested sample_services teku_validator_request ''validator-1-teku''
     sample_validator_spec sample_server))"
  by code_simp

declare buildConfig_def [code]

lemma bind_deploy:
  "m s = (Ok x, t) \<Longrightarrow> f x t = (Ok y, u) \<Longrightarrow> bind_go m (\<lambda>x. bind_go (f x) g) s = g y u"
  by (simp add: bind_go_def)

lemma teku_validator_deployed:
  "\<exists>ps t. NodeDeploy sample_services teku_validator_request sample_server = (Ok ps, t)"
proof -
  let ?req = "teku_validator_request"
  let ?d = "\<lparr>NumValidators = 0, NumTranch = 1, WithBeacon = False, BeaconCount = 1\<rparr>"
  let ?tr = "new_tranche sample_accounts ''/work/tranche_1.txt''"
  let ?vcfg = "\<lparr>vc_Spec = buildConfig (Spec (srv_config sample_server)), vc_Accounts = Accounts ?tr,
     vc_Beacon_GetAddr = GetAddr (sample_nodes ! 3)\<rparr>"
  note dep = run_ok [OF sample_validator_deploys]
  have req: "NodeType ?req = Some (ReqValidator ?d)" "NodeClient ?req = NodeClient_Teku"
    by (simp_all add: teku_validator_request_def)
  have target: "pickTarget sample_services ?req None sample_server = (Ok (sample_nodes ! 3), sample_server)"
    by (simp add: pickTarget_def filterLocked_def sample_server_simps sample_nodes_def plain_node_def
        HasLabel_def map_get_def req(2) empty_spec_def)
  have picked: "pickTranche sample_services ?d sample_server = (Ok (1, ?tr), sample_server)"
    by (simp add: pickTranche_def sample_server_def)
  have name: "node_name ''validator'' (numOfNodes sample_services NodeType_Validator sample_server)
      (client_name sample_services NodeClient_Teku) = ''validator-1-teku''"
    by code_simp
  have vcfg: "?vcfg = sample_vcfg"
    by (simp add: sample_vcfg_def sample_server_def new_server_def)
  have factory: "map_of (validatorsFactory (sv_crypto sample_services)) NodeClient_Teku = Some (NewTekuValidator sample_crypto)"
    by (simp add: validatorsFactory_def sample_services_def)
  have spec: "on_env (NewTekuValidator sample_crypto sample_vcfg) sample_server = (Ok sample_validator_spec, sample_server)"
    by (simp add: on_env_def on_part_def sample_validator_spec)
  have "\<exists>np t. startValidator sample_services ?req (sample_nodes ! 3) (1, ?tr) sample_server = (Ok np, t)"
    unfolding startValidator_def req(2) Let_def bind_go_pure snd_conv fst_conv vcfg name factory option.case
    by (subst bind_deploy [where m = "on_env (NewTekuValidator sample_crypto sample_vcfg)" and s = sample_server
          and f = "deployRequested sample_services ?req ''validator-1-teku''", OF spec dep]) simp
  then show ?thesis
    using target picked req by (auto simp: NodeDeploy_def beaconCount_def deployValidator_def bind_go_def)
qed

text \<open>
  C7. A successful validator request appends the requested beacon nodes and one validator, named
  with the next validator number, and marks exactly one tranche with its name: the requested
  one, which existed and was unused, or a new one with the requested number of accounts.
\<close>

theorem NodeDeploy_deploys_validator:
  assumes "NodeDeploy V req s = (Ok ps, t)" and "NodeType req = Some (ReqValidator d)"
  shows "\<exists>bs v k tr m. nodes t = nodes s @ bs @ [v] \<and> ps = map specNodeToNode (bs @ [v])
    \<and> length bs = (if WithBeacon d then loop_count (int_of_uint64 (BeaconCount d)) else 0)
    \<and> list_all (\<lambda>b. type_of b = ''Beacon'') bs
    \<and> name_of v = node_name ''validator'' (numOfNodes V NodeType_Validator s) (client_name V (NodeClient req))
    \<and> type_of v = ''Validator''
    \<and> map_of m k = Some tr \<and> \<not> IsConsumed tr
    \<and> (if NumValidators d = 0 then m = tranches s \<and> k = NumTranch d
       else m = add_tranche tr (tranches s) \<and> k = of_nat (length (tranches s))
         \<and> length (Accounts tr) = loop_count (int_of_uint64 (NumValidators d)))
    \<and> tranches t = consume_tranche k (name_of v) m"
proof -
  have beacons: "list_all (\<lambda>b. type_of b = ''Beacon'') bs" if "numbered ''Beacon'' ''beacon'' i bs" for bs i
    using that by (induction bs arbitrary: i) (auto simp: new_node_def)
  from NodeDeploy_validator_Ok [OF assms] obtain bs v k tr m where
    "nodes t = nodes s @ bs @ [v]" "ps = map specNodeToNode (bs @ [v])"
    "length bs = (if WithBeacon d then loop_count (int_of_uint64 (BeaconCount d)) else 0)"
    "tranches t = consume_tranche k (name_of v) m"
    and bs: "beacons_of (client_name V (NodeClient req)) (kind_count ''Beacon'' (nodes s)) bs"
    and v: "new_node ''Validator'' ''validator'' (client_name V (NodeClient req)) (kind_count ''Validator'' (nodes s)) v"
    and m: "uses_tranche d (tranches s) k tr m"
    by (elim exE conjE)
  moreover have "list_all (\<lambda>b. type_of b = ''Beacon'') bs" using bs unfolding beacons_of_def by (blast intro: beacons)
  moreover have "name_of v = node_name ''validator'' (numOfNodes V NodeType_Validator s) (client_name V (NodeClient req))"
    "type_of v = ''Validator''"
    using v by (simp_all add: new_node_def name_of_def numOfNodes_kind kind_count_def)
  ultimately show ?thesis
    unfolding uses_tranche_def
    by (intro exI [of _ bs] exI [of _ v] exI [of _ k] exI [of _ tr] exI [of _ m]) simp
qed

theorem NodeDeploy_deploys_validator_witness:
  "\<exists>ps t v. NodeDeploy sample_services teku_validator_request sample_server = (Ok ps, t)
    \<and> nodes t = sample_nodes @ [v] \<and> name_of v = ''validator-1-teku''
    \<and> tranches t = consume_tranche 1 ''validator-1-teku'' (tranches sample_server)"
proof -
  obtain ps t where run: "NodeDeploy sample_services teku_validator_request sample_server = (Ok ps, t)"
    using teku_validator_deployed by (elim exE)
  have req: "NodeType teku_validator_request = Some (ReqValidator
      \<lparr>NumValidators = 0, NumTranch = 1, WithBeacon = False, BeaconCount = 1\<rparr>)"
    "NodeClient teku_validator_request = NodeClient_Teku"
    by (simp_all add: teku_validator_request_def)
  have name: "node_name ''validator'' (numOfNodes sample_services NodeType_Validator sample_server)
      (client_name sample_services NodeClient_Teku) = ''validator-1-teku''"
    by code_simp
  from NodeDeploy_deploys_validator [OF run req(1)] name req(2) run show ?thesis
    by (auto simp: sample_server_simps)
qed

text \<open>
  C30. NodeStatus returns the last node of the name it is asked for; for an unknown name it
  panics on a nil node and for the empty name it fails.
\<close>

theorem NodeStatus_last_of_name:
  "(name \<noteq> [] \<and> (\<forall>n \<in> set (nodes s). name_of n \<noteq> name) \<longrightarrow>
      (\<exists>p. NodeStatus name s = (Panic p, s)))
    \<and> (name \<noteq> [] \<and> nodes s = xs @ n # ys \<and> name_of n = name \<and> (\<forall>m \<in> set ys. name_of m \<noteq> name) \<longrightarrow>
      NodeStatus name s = (Ok (specNodeToNode n), s))
    \<and> (\<exists>e. NodeStatus [] s = (Fail e, s))"
proof -
  let ?pick = "foldl (\<lambda>target n. if Name (opts n) = name then Some n else target)"
  have skip: "?pick a ms = a" if "\<forall>m \<in> set ms. name_of m \<noteq> name" for a ms
    using that by (induction ms arbitrary: a) (auto simp: name_of_def)
  have "?pick a (us @ n # ys) = Some n" if "name_of n = name" "\<forall>m \<in> set ys. name_of m \<noteq> name" for a us
    using that skip [of ys "Some n"] by (simp add: name_of_def)
  with skip [of "nodes s" None] show ?thesis by (auto simp: NodeStatus_def)
qed

theorem NodeStatus_last_of_name_witness:
  "(\<exists>p. NodeStatus ''beacon-7-prysm'' sample_server = (Panic p, sample_server))
    \<and> NodeStatus ''eth1'' sample_server = (Ok (specNodeToNode (sample_nodes ! 2)), sample_server)"
proof -
  have split: "nodes sample_server = take 2 sample_nodes @ sample_nodes ! 2 # drop 3 sample_nodes"
    "\<forall>n \<in> set (nodes sample_server). name_of n \<noteq> ''beacon-7-prysm''"
    "name_of (sample_nodes ! 2) = ''eth1''" "\<forall>m \<in> set (drop 3 sample_nodes). name_of m \<noteq> ''eth1''"
    by (simp_all add: sample_server_simps sample_nodes_def plain_node_def name_of_def)
  then show ?thesis
    using NodeStatus_last_of_name [of "''beacon-7-prysm''" sample_server]
      NodeStatus_last_of_name [of "''eth1''" sample_server "take 2 sample_nodes" "sample_nodes ! 2" "drop 3 sample_nodes"]
    by blast
qed

end
