(* ===== verification/Shutdown.thy ===== *)
theory Shutdown
  imports ServerClaims
begin

text \<open>
  Stopping the server while requests still arrive: \<open>Stop\<close> (internal/server/server.go) takes no lock and
  does not close the gRPC server, so its loop runs beside the handlers.  While the server serves, nothing
  asks Docker to stop a container.
\<close>

section \<open>Serving stops no container\<close>

definition quiet :: "'w server \<Rightarrow> 'w server \<Rightarrow> bool" where
  "quiet s t \<longleftrightarrow> calls_in no_stop (env s) (env t)"

interpretation quiet: trans_rel quiet
  by unfold_locales (auto simp: quiet_def calls_in.rel_refl intro: calls_in.rel_trans)

definition dep_quiet :: "'w dstate \<Rightarrow> 'w dstate \<Rightarrow> bool" where
  "dep_quiet s t \<longleftrightarrow> calls_in no_stop (fst s) (fst t)"

interpretation dep_quiet: trans_rel dep_quiet
  by unfold_locales (auto simp: dep_quiet_def calls_in.rel_refl intro: calls_in.rel_trans)

named_theorems quiet_rules \<open>operations that stop no container\<close>

lemma on_env_quiet [quiet_rules]: "within (calls_in no_stop) m \<Longrightarrow> within quiet (on_env m)"
  by (intro withinI) (auto simp: quiet_def on_env_def on_part_def dest: withinD split: prod.split)

lemma on_log_quiet [quiet_rules]: "within quiet (on_log m)"
  by (auto simp: within_def quiet_def on_log_def on_part_def split: prod.split)

lemma modify_quiet: "(\<And>s. env (f s) = env s) \<Longrightarrow> within quiet (modify f)"
  by (auto simp: within_def quiet_def)

lemma on_deposits_quiet [quiet_rules]: "within dep_quiet m \<Longrightarrow> within quiet (on_deposits m)"
  by (intro withinI) (auto simp: quiet_def dep_quiet_def on_deposits_def calls_in.rel_refl
      dest!: withinD split: option.split prod.split)

text \<open>The deposit handler.\<close>

lemma on_world_quiet [quiet_rules]: "within (calls_in no_stop) m \<Longrightarrow> within dep_quiet (on_world m)"
  by (intro withinI) (auto simp: dep_quiet_def on_world_def on_part_def dest: withinD split: prod.split)

lemma getNextNonce_quiet [quiet_rules]: "within dep_quiet getNextNonce"
  by (auto simp: within_def dep_quiet_def getNextNonce_def)

lemma deposit_steps_quiet [quiet_rules]:
  "within dep_quiet (prepareTransaction E txn)" "within dep_quiet (sendRaw E raw)"
  "within dep_quiet (pollReceipt E hash)" "within dep_quiet (buildDeposit E acct)"
  "within dep_quiet (doDeposit E n)" "within dep_quiet (finishDeposit E n)"
  unfolding prepareTransaction_def sendRaw_def pollReceipt_def buildDeposit_def doDeposit_def
    finishDeposit_def Let_def
  by (intro dep_quiet.within_all quiet_rules calls_rules; simp add: no_stop_def)+

lemma pc_step_quiet: "within dep_quiet (pc_step E C acct pc)"
  by (cases pc)
     (auto simp: or_deliver_def split: option.split intro!: dep_quiet.within_all quiet_rules)

lemma thread_step_quiet: "within dep_quiet (thread_step E C c i buf)"
proof (rule withinI)
  fix s :: "'a dstate"
  have threads: "within dep_quiet (modify (\<lambda>t. set_threads (g t) t))" for g :: "'a dstate \<Rightarrow> thread list"
    by (auto simp: within_def dep_quiet_def set_threads_def)
  let ?th = "dh_threads (snd s) ! i"
  have "within dep_quiet (bind_go (pc_step E C (th_acct ?th) pc) (\<lambda>pc'.
      bind_go (modify (\<lambda>t. set_threads ((dh_threads (snd t))[i := ?th\<lparr>th_pc := pc'\<rparr>]) t)) (\<lambda>_. ret buf)))" for pc
    by (intro dep_quiet.within_all pc_step_quiet threads)
  note move = this [unfolded within_def, rule_format]
  show "dep_quiet s (snd (thread_step E C c i buf s))"
  proof (cases "th_pc ?th")
    case (DoDeliver r)
    then show ?thesis
      by (simp add: thread_step_def Let_def) (simp add: dep_quiet_def set_threads_def calls_in.rel_refl)
  qed (use move [of s "th_pc ?th"] in \<open>simp_all add: thread_step_def Let_def del: pc_step.simps\<close>)
qed

lemma deposits_loop_quiet: "dep_quiet s (snd (deposits_loop E C c left buf s))"
proof (induction E C c left buf s rule: deposits_loop.induct)
  case (1 E C c left buf s)
  obtain choice x where sched: "eth_sched E (length (dh_threads (snd s))) (ext (fst s)) = (choice, x)"
    by (cases "eth_sched E (length (dh_threads (snd s))) (ext (fst s))")
  let ?t = "((fst s)\<lparr>ext := x\<rparr>, snd s)" and ?ts = "dh_threads (snd s)"
  have t: "dep_quiet s ?t" by (simp add: dep_quiet_def calls_in_same)
  obtain r u where step: "thread_step E C c (pick choice (length ?ts)) buf ?t = (r, u)"
    by (cases "thread_step E C c (pick choice (length ?ts)) buf ?t")
  have u: "dep_quiet s u" using dep_quiet.rel_trans [OF t withinD [OF thread_step_quiet step]] .
  show ?case
  proof (cases "left = 0 \<or> (buf \<noteq> [] \<and> (choice = None \<or> ?ts = [])) \<or> ?ts = []")
    case True
    then show ?thesis
      using t 1(1) [OF _ sched [symmetric] refl refl] dep_quiet.rel_refl [of s]
      by (auto simp: deposits_loop.simps [of E C c left buf s] sched Let_def split: option.split
          intro: dep_quiet.rel_trans [OF t])
  next
    case False
    then show ?thesis
      using step u 1(2) [OF _ sched [symmetric] refl refl _ _ step [symmetric]]
      by (auto simp: deposits_loop.simps [of E C c left buf s] sched Let_def split: outcome.split
          intro: dep_quiet.rel_trans [OF u])
  qed
qed

text \<open>The factories and the handlers.\<close>

lemma NewAccounts_quiet: "within (calls_in no_stop) (NewAccounts C n)"
  unfolding NewAccounts_def NewAccount_def by (intro calls_in.within_all calls_rules)

lemma factories_quiet:
  "within (calls_in no_stop) (NewLighthouseBeacon C b)" "within (calls_in no_stop) (NewPrysmBeacon C b)"
  "within (calls_in no_stop) (NewTekuBeacon C b)" "within (calls_in no_stop) (NewLighthouseValidator C v)"
  "within (calls_in no_stop) (NewTekuValidator C v)" "within (calls_in no_stop) (NewPrysmValidator C v)"
  unfolding NewLighthouseBeacon_def NewPrysmBeacon_def NewTekuBeacon_def NewLighthouseValidator_def
    NewTekuValidator_def NewPrysmValidator_def lighthouse_add_key_def teku_add_key_def ToKeystore_def Let_def
  by (intro calls_in.within_all calls_rules)+

lemma factory_quiet:
  "map_of (beaconFactory C) c = Some f \<Longrightarrow> within (calls_in no_stop) (f b)"
  "map_of (validatorsFactory C) c = Some g \<Longrightarrow> within (calls_in no_stop) (g v)"
  by (auto simp: beaconFactory_def validatorsFactory_def factories_quiet split: if_splits)

lemma MakeDeposits_quiet [quiet_rules]: "within dep_quiet (MakeDeposits E C accounts)"
proof (rule withinI)
  fix s :: "'a dstate"
  have "dep_quiet s (start_deposits accounts s)"
    by (simp add: dep_quiet_def start_deposits_def calls_in.rel_refl)
  then show "dep_quiet s (snd (MakeDeposits E C accounts s))"
    unfolding MakeDeposits_def using deposits_loop_quiet by (rule dep_quiet.rel_trans)
qed

lemma createTranche_quiet [quiet_rules]: "within quiet (createTranche V num deposit)"
  unfolding createTranche_def tranche_accounts_def Let_def
  by (intro quiet.within_all quiet_rules calls_rules NewAccounts_quiet modify_quiet) simp

lemma deployRequested_quiet [quiet_rules]: "within quiet (deployRequested V req name sp)"
  unfolding deployRequested_def deployNode_def deploy_with_def Let_def
  by (intro quiet.within_all quiet_rules docker.deploy_no_stop modify_quiet) simp

lemma NodeDeploy_quiet: "within quiet (NodeDeploy V req)"
proof -
  have make: "within quiet (case map_of fs c of None \<Rightarrow> fail e | Some f \<Rightarrow> bind_go (on_env (f cfg)) k)"
    if "\<And>f. map_of fs c = Some f \<Longrightarrow> within (calls_in no_stop) (f cfg)" and "\<And>x. within quiet (k x)"
    for fs :: "(node_client \<times> ('cfg \<Rightarrow> ('a world, spec) go)) list" and c e cfg and k :: "spec \<Rightarrow> ('a, 'x) srv"
    using that by (auto split: option.split intro!: quiet.within_all on_env_quiet)
  have "within quiet (case bs of [] \<Rightarrow> fail e | n # _ \<Rightarrow> ret n)" for bs :: "node list" and e
    by (cases bs) (simp_all add: quiet.within_pure)
  note lists = this
  have beacon: "within quiet (deployBeacon V req)"
    unfolding deployBeacon_def Let_def
    by (intro quiet.within_bind quiet.within_pure make quiet_rules factory_quiet(1))
  have start: "within quiet (startValidator V req n kt)" for n kt
    unfolding startValidator_def Let_def
    by (intro quiet.within_bind quiet.within_pure make quiet_rules factory_quiet(2) modify_quiet) simp_all
  have validator: "within quiet (deployValidator V req d target)" for d target
    unfolding deployValidator_def pickTarget_def pickTranche_def
    by (intro quiet.within_all lists start quiet_rules)
  show ?thesis
    unfolding NodeDeploy_def
    by (cases "NodeType req"; cases "the (NodeType req)")
       (auto intro!: quiet.within_all beacon validator)
qed

lemma handle_quiet: "within quiet (handle V q)"
proof (cases q)
  case (NodeDeployReq req)
  then show ?thesis by (auto simp: no_reply_def intro!: quiet.within_all NodeDeploy_quiet)
next
  case (NodeStatusReq name)
  show ?thesis
    unfolding NodeStatusReq handle.simps no_reply_def NodeStatus_def
    by (intro quiet.within_all)
qed (auto simp: no_reply_def DepositList_def DepositCreate_def NodeList_def
    intro!: quiet.within_all quiet_rules calls_rules)

lemma server_step_quiet: "server_step V s t \<Longrightarrow> quiet s t"
proof (erule server_stepE)
  fix q r
  assume "handle V q s = (r, t)"
  then show ?thesis by (rule withinD [OF handle_quiet])
next
  fix n r
  assume run: "on_env (trackOutput (sv_docker V) n) s = (r, t)"
  have "within (calls_in no_stop) (trackOutput (sv_docker V) n)"
    unfolding trackOutput_def by (intro calls_in.within_all calls_rules) (simp add: no_stop_def)
  then show ?thesis using withinD [OF on_env_quiet run] by blast
next
  fix n r
  assume run: "on_env (run (sv_docker V) n) s = (r, t)"
  have "within (calls_in no_stop) (Docker.run (sv_docker V) n)"
    unfolding Docker.run_def by (intro calls_in.within_all calls_rules) (simp add: no_stop_def)
  then show ?thesis using withinD [OF on_env_quiet run] by blast
next
  fix e i r
  assume "on_deposits (thread_step (sv_eth V) (sv_crypto V) (dh_chans e) i []) s = (r, t)"
  then show ?thesis by (rule withinD [OF on_deposits_quiet [OF thread_step_quiet]])
qed

section \<open>Stop beside the handlers\<close>

text \<open>
  The signal starts a goroutine that calls \<open>Stop\<close>; some time later that goroutine evaluates
  \<open>range s.nodes\<close>, which takes the slice as it is at that moment.  \<open>Signalled\<close> is the time between the
  two; \<open>Stopping ns\<close> has the nodes the loop has left.  The handlers go on in every phase, until the
  process exits.
\<close>

datatype phase = Serving | Signalled | Stopping "node list" | Stopped

inductive shutdown_step :: "('w, 'h) services \<Rightarrow> 'w server \<times> phase \<Rightarrow> 'w server \<times> phase \<Rightarrow> bool" for V where
  Serve: "server_step V s t \<Longrightarrow> shutdown_step V (s, p) (t, p)"
| Signal: "shutdown_step V (s, Serving) (s, Signalled)"
| Snapshot: "shutdown_step V (s, Signalled) (s, Stopping (nodes s))"
| StopNode: "attempt (on_env (Stop (sv_docker V) n)) s = (Ok r, t) \<Longrightarrow>
     shutdown_step V (s, Stopping (n # ns)) (t, Stopping ns)"
| CloseLogs: "attempt (on_env (on_fs (Close (srv_logDir s)))) s = (Ok r, t) \<Longrightarrow>
     shutdown_step V (s, Stopping []) (t, Stopped)"

inductive_simps shutdown_phase_simps:
  "shutdown_step V (s, Serving) (t, p)" "shutdown_step V (s, Signalled) (t, Stopping ns)"

text \<open>With nothing in between, the steps of \<open>Stop\<close> are its sequential model.\<close>

lemma stop_loop:
  "for_each ns (\<lambda>n. attempt (on_env (Stop (sv_docker V) n))) s = (Ok rs, t) \<Longrightarrow>
     (shutdown_step V)\<^sup>*\<^sup>* (s, Stopping ns) (t, Stopping [])"
proof (induction ns arbitrary: s rs)
  case (Cons n ns)
  from Cons.prems obtain r u us where one: "attempt (on_env (Stop (sv_docker V) n)) s = (Ok r, u)"
    and rest: "for_each ns (\<lambda>n. attempt (on_env (Stop (sv_docker V) n))) u = (Ok us, t)" by auto
  from one have "shutdown_step V (s, Stopping (n # ns)) (u, Stopping ns)" by (rule StopNode)
  with Cons.IH [OF rest] show ?case by (rule converse_rtranclp_into_rtranclp [rotated])
qed simp

lemma StopServer_run:
  assumes "StopServer V s = (Ok (), t)"
  shows "(shutdown_step V)\<^sup>*\<^sup>* (s, Serving) (t, Stopped)"
proof -
  from assms obtain rs u r where
    stops: "for_each (nodes s) (\<lambda>n. attempt (on_env (Stop (sv_docker V) n))) s = (Ok rs, u)"
    and close: "attempt (on_env (on_fs (Close (srv_logDir u)))) u = (Ok r, t)"
    unfolding StopServer_def by auto
  have "(shutdown_step V)\<^sup>*\<^sup>* (s, Signalled) (u, Stopping [])"
    using Snapshot stop_loop [OF stops] by (rule converse_rtranclp_into_rtranclp)
  with Signal have "(shutdown_step V)\<^sup>*\<^sup>* (s, Serving) (u, Stopping [])"
    by (rule converse_rtranclp_into_rtranclp)
  then show ?thesis using CloseLogs [OF close] by (rule rtranclp.rtrancl_into_rtrancl)
qed

text \<open>What has been asked of Docker so far.\<close>

definition stop_requests :: "call list \<Rightarrow> call list" where
  "stop_requests cs = filter (\<lambda>c. \<not> no_stop c) cs"

lemma stop_requests_simps [simp]:
  "stop_requests [] = []" "stop_requests (cs @ ds) = stop_requests cs @ stop_requests ds"
  "stop_requests [ContainerStop i] = [ContainerStop i]" "list_all no_stop cs \<Longrightarrow> stop_requests cs = []"
  by (auto simp: stop_requests_def no_stop_def list_all_iff filter_empty_conv)

definition requested :: "'w server \<Rightarrow> 'w server \<Rightarrow> node list \<Rightarrow> bool" where
  "requested s t ns \<longleftrightarrow> (\<exists>cs. trace (env t) = trace (env s) @ cs
     \<and> stop_requests cs = map (\<lambda>n. ContainerStop (node_id n)) ns)"

lemma requested_quiet: "requested s t ns \<Longrightarrow> quiet t u \<Longrightarrow> requested s u ns"
  by (fastforce simp: requested_def quiet_def calls_in_def)

text \<open>
  Before the loop starts: a run of the server that stops nothing.  From then on, relative to the state
  \<open>u\<close> the loop started in: the nodes of \<open>u\<close> that are no longer to do have been asked to stop.
\<close>

fun serving_inv :: "('w, 'h) services \<Rightarrow> 'w server \<Rightarrow> 'w server \<times> phase \<Rightarrow> bool" where
  "serving_inv V s (t, p) \<longleftrightarrow> (p = Serving \<or> p = Signalled \<longrightarrow> (server_step V)\<^sup>*\<^sup>* s t \<and> requested s t [])"

fun stop_inv :: "'w server \<Rightarrow> 'w server \<times> phase \<Rightarrow> bool" where
  "stop_inv u (t, Stopping ns) \<longleftrightarrow> (\<exists>ms new. nodes u = ms @ ns \<and> nodes t = nodes u @ new \<and> requested u t ms)"
| "stop_inv u (t, Stopped) \<longleftrightarrow> (\<exists>new. nodes t = nodes u @ new \<and> requested u t (nodes u))"
| "stop_inv u (t, p) \<longleftrightarrow> False"

lemma server_step_appends: "server_step V s t \<Longrightarrow> \<exists>new. nodes t = nodes s @ new"
proof -
  assume "server_step V s t"
  then have "net_step\<^sup>*\<^sup>* (net s) (net t)" by (rule server_step_steps)
  then have "\<exists>new. fst (net t) = fst (net s) @ new"
    by (induction rule: rtranclp_induct) (auto elim!: net_step.cases)
  then show ?thesis by (simp add: net_def)
qed

lemma stop_one:
  assumes "attempt (on_env (Stop K n)) s = (Ok r, t)"
  shows "nodes t = nodes s \<and> trace (env t) = trace (env s) @ [ContainerStop (node_id n)]"
  using assms
  by (auto simp: attempt_def on_env_def on_part_def Stop_def wrap_err_def ext_call_def
      split: outcome.splits prod.splits)

lemma close_logs:
  assumes "attempt (on_env (on_fs m)) s = (r, t)"
  shows "nodes t = nodes s \<and> trace (env t) = trace (env s)"
  using assms
  by (auto simp: attempt_def on_env_def on_part_def on_fs_def split: outcome.splits prod.splits)

interpretation serving: invariant_system "shutdown_step V" "serving_inv V s" for V :: "('w, 'h) services" and s
proof unfold_locales
  fix x y :: "'w server \<times> phase"
  assume "shutdown_step V x y" and "serving_inv V s x"
  then show "serving_inv V s y"
  proof (induction rule: shutdown_step.induct)
    case (Serve t u p)
    with requested_quiet [OF _ server_step_quiet [OF Serve(1)]] show ?case
      by (auto intro: rtranclp.rtrancl_into_rtrancl)
  qed simp_all
qed

interpretation stopping: invariant_system "shutdown_step V" "stop_inv u" for V :: "('w, 'h) services" and u
proof unfold_locales
  fix x y :: "'w server \<times> phase"
  assume "shutdown_step V x y" and "stop_inv u x"
  then show "stop_inv u y"
  proof (induction rule: shutdown_step.induct)
    case (Serve t v p)
    have quiet: "quiet t v" using Serve(1) by (rule server_step_quiet)
    obtain new where new: "nodes v = nodes t @ new" using server_step_appends [OF Serve(1)] by blast
    show ?case
    proof (cases p)
      case (Stopping ns)
      with Serve(2) obtain ms new' where "nodes u = ms @ ns" "nodes t = nodes u @ new'" "requested u t ms" by auto
      with Stopping new requested_quiet [OF _ quiet] show ?thesis by fastforce
    next
      case Stopped
      with Serve(2) obtain new' where "nodes t = nodes u @ new'" "requested u t (nodes u)" by auto
      with Stopped new requested_quiet [OF _ quiet] show ?thesis by auto
    qed (use Serve(2) in simp_all)
  next
    case (StopNode n t r v ns)
    then obtain ms new where t: "nodes u = ms @ n # ns" "nodes t = nodes u @ new" "requested u t ms" by auto
    from stop_one [OF StopNode(1)] t(2,3) have "nodes v = nodes u @ new" "requested u v (ms @ [n])"
      by (auto simp: requested_def)
    moreover have "nodes u = (ms @ [n]) @ ns" using t(1) by simp
    ultimately show ?case unfolding stop_inv.simps by blast
  next
    case (CloseLogs t r v)
    with close_logs [OF CloseLogs(1)] show ?case by (auto simp: requested_def)
  qed simp_all
qed

text \<open>Every run that ends in \<open>Stopped\<close> has the moment at which the loop takes the nodes.\<close>

definition took :: "('w, 'h) services \<Rightarrow> 'w server \<Rightarrow> 'w server \<times> phase \<Rightarrow> bool" where
  "took V s x \<longleftrightarrow> snd x \<noteq> Serving \<and> snd x \<noteq> Signalled \<longrightarrow> (\<exists>u. (shutdown_step V)\<^sup>*\<^sup>* (s, Serving) (u, Signalled)
     \<and> (shutdown_step V)\<^sup>*\<^sup>* (u, Stopping (nodes u)) x)"

lemma run_takes_nodes:
  assumes "(shutdown_step V)\<^sup>*\<^sup>* (s, Serving) x"
  shows "took V s x"
  using assms
proof (induction rule: rtranclp_induct)
  case (step y z)
  have "took V s z" if "snd y \<noteq> Serving" "snd y \<noteq> Signalled"
    using step that by (auto simp: took_def intro: rtranclp.rtrancl_into_rtrancl)
  moreover have "took V s z" if "snd y = Serving \<or> snd y = Signalled"
    using step(2) that
  proof (cases rule: shutdown_step.cases)
    case (Snapshot v)
    with step(1) show ?thesis by (auto simp: took_def)
  qed (use that in \<open>auto simp: took_def\<close>)
  ultimately show ?case by blast
qed (simp add: took_def)

text \<open>
  C16. Stop runs beside the handlers, without the lock. Take any run in which the signal
  arrives, the goroutine of Stop evaluates range s.nodes in a state u, and Stop returns, with
  requests and goroutines served at any point before, between and after these steps. The nodes
  the loop takes are those of u; up to u nothing has asked Docker to stop a container; from u on
  Docker has been asked to stop exactly the nodes of u, each once and in order; and a node that
  a request adds after u is in the list of nodes but is never stopped.
\<close>

theorem Stop_reaches_nodes_it_took:
  assumes "(shutdown_step V)\<^sup>*\<^sup>* (s, Serving) (u, Signalled)"
    and "shutdown_step V (u, Signalled) (u', Stopping ns)"
    and "(shutdown_step V)\<^sup>*\<^sup>* (u', Stopping ns) (t, Stopped)"
  shows "(server_step V)\<^sup>*\<^sup>* s u \<and> ns = nodes u \<and> (\<exists>new before during. nodes t = nodes u @ new
    \<and> trace (env u) = trace (env s) @ before \<and> stop_requests before = []
    \<and> trace (env t) = trace (env u) @ during
    \<and> stop_requests during = map (\<lambda>n. ContainerStop (node_id n)) (nodes u))"
proof -
  have "serving_inv V s (s, Serving)" by (simp add: requested_def)
  with assms(1) have before: "serving_inv V s (u, Signalled)" by (rule serving.reach_inv)
  have now: "u' = u" "ns = nodes u" using assms(2) by (auto simp: shutdown_phase_simps)
  have "stop_inv u (u, Stopping (nodes u))" by (simp add: requested_def)
  with assms(3) have "stop_inv u (t, Stopped)" unfolding now by (rule stopping.reach_inv)
  with before now show ?thesis by (auto simp: requested_def)
qed

text \<open>A beacon node deployed once the loop of \<open>Stop\<close> has taken the nodes is not stopped.\<close>

lemma late_node_run:
  "\<exists>(u :: nat server) t. (shutdown_step sample_services)\<^sup>*\<^sup>* (u, Stopping sample_nodes) (t, Stopped)
     \<and> u = sample_server \<and> length (nodes t) = 6"
proof -
  let ?V = "sample_services" and ?stop = "\<lambda>n. attempt (on_env (Stop (sv_docker sample_services) n))"
  obtain t n where step: "server_step ?V sample_server t" and t: "nodes t = sample_nodes @ [n]"
    using sample_run by (elim exE conjE)
  have no_panic: "\<forall>i x p y. dk_ContainerStop (sv_docker ?V) i x \<noteq> (Panic p, y)"
    by (simp add: sample_services_def sample_docker_def)
  obtain rs u where stops: "for_each sample_nodes ?stop t = (Ok rs, u)" and u: "same_core t u"
    using stop_each [OF no_panic] by blast
  obtain r v where close: "attempt (on_env (on_fs (Close (srv_logDir u)))) u = (Ok r, v)"
    using Close_no_panic [of "srv_logDir u" "fs (env u)"]
    by (cases "Close (srv_logDir u) (fs (env u))"; cases "fst (Close (srv_logDir u) (fs (env u)))")
       (auto simp: attempt_def on_env_def on_part_def on_fs_def)
  have "(shutdown_step ?V)\<^sup>*\<^sup>* (sample_server, Stopping sample_nodes) (t, Stopping sample_nodes)"
    using Serve [OF step] by (rule r_into_rtranclp)
  with stop_loop [OF stops] CloseLogs [OF close]
  have run: "(shutdown_step ?V)\<^sup>*\<^sup>* (sample_server, Stopping sample_nodes) (v, Stopped)"
    by (meson rtranclp_trans rtranclp.rtrancl_into_rtrancl)
  have "length (nodes v) = 6"
    using t u close_logs [OF close] by (simp add: same_core_def sample_nodes_def)
  with run show ?thesis by blast
qed

theorem Stop_reaches_nodes_it_took_witness:
  "\<exists>(t :: nat server) n during. (shutdown_step sample_services)\<^sup>*\<^sup>* (sample_server, Serving) (t, Stopped)
     \<and> nodes t = sample_nodes @ [n] \<and> trace (env t) = trace (env sample_server) @ during
     \<and> stop_requests during = map ContainerStop [''c0'', ''c1'', ''c2'', ''c3'', ''c4'']"
proof -
  let ?V = "sample_services"
  obtain t :: "nat server" where run: "(shutdown_step ?V)\<^sup>*\<^sup>* (sample_server, Stopping sample_nodes) (t, Stopped)"
    and len: "length (nodes t) = 6"
    using late_node_run by blast
  have one: "(shutdown_step ?V)\<^sup>*\<^sup>* (sample_server, Serving) (sample_server, Signalled)"
    using Signal by (rule r_into_rtranclp)
  have two: "shutdown_step ?V (sample_server, Signalled) (sample_server, Stopping sample_nodes)"
    using Snapshot [of ?V sample_server] by (simp add: sample_server_simps)
  have all: "(shutdown_step ?V)\<^sup>*\<^sup>* (sample_server, Serving) (t, Stopped)"
    using rtranclp_trans [OF rtranclp.rtrancl_into_rtrancl [OF one two] run] .
  obtain new during where t: "nodes t = sample_nodes @ new" "trace (env t) = trace (env sample_server) @ during"
      "stop_requests during = map (\<lambda>n. ContainerStop (node_id n)) sample_nodes"
    using Stop_reaches_nodes_it_took [OF one two run] by (auto simp: sample_server_simps)
  have "length sample_nodes = 5" "map (\<lambda>n. ContainerStop (node_id n)) sample_nodes
      = map ContainerStop [''c0'', ''c1'', ''c2'', ''c3'', ''c4'']"
    by (simp_all add: sample_nodes_def plain_node_def)
  with len t obtain n where "new = [n]" by (cases new) auto
  with all t \<open>map _ sample_nodes = _\<close> show ?thesis by metis
qed

end
