(* ===== verification/GoFlag.thy ===== *)
theory GoFlag
  imports GoStrings
begin

text \<open>
  The part of Go's packages \<open>strconv\<close> and \<open>flag\<close> the command line uses: integers in any base Go
  accepts, booleans, and \<open>FlagSet.Parse\<close> with its four kinds of flags.  What \<open>Parse\<close> itself prints on
  the error stream is left out; the commands print the error it returns.
\<close>

section \<open>strconv\<close>

definition errParse :: string where "errParse = ''parse error''"
definition errRange :: string where "errRange = ''value out of range''"

text \<open>The value of a digit or letter; \<open>ParseUint\<close> compares it with the base.\<close>

definition digit_of :: "char \<Rightarrow> nat option" where
  "digit_of c = (let n = of_char (lower_char c) :: nat in
     if 48 \<le> n \<and> n \<le> 57 then Some (n - 48)
     else if 97 \<le> n \<and> n \<le> 122 then Some (n - 97 + 10)
     else None)"

text \<open>
  The loop of \<open>ParseUint\<close> with base argument 0, which allows underscores: it stops at the first byte
  that is no digit and at the first digit that leaves 64 bits.
\<close>

fun parse_digits :: "nat \<Rightarrow> nat \<Rightarrow> string \<Rightarrow> nat outcome" where
  "parse_digits base n [] = Ok n"
| "parse_digits base n (c # cs) =
     (if c = CHR ''_'' then parse_digits base n cs
      else case digit_of c of
        None \<Rightarrow> Fail errParse
      | Some d \<Rightarrow>
          if base \<le> d then Fail errParse
          else if 2 ^ 64 \<le> n * base + d then Fail errRange
          else parse_digits base (n * base + d) cs)"

text \<open>The base a prefix announces, and what follows it.\<close>

definition number_base :: "string \<Rightarrow> nat \<times> string" where
  "number_base s =
     (if s = [] \<or> hd s \<noteq> CHR ''0'' then (10, s)
      else if 3 \<le> length s \<and> lower_char (s ! 1) = CHR ''b'' then (2, drop 2 s)
      else if 3 \<le> length s \<and> lower_char (s ! 1) = CHR ''o'' then (8, drop 2 s)
      else if 3 \<le> length s \<and> lower_char (s ! 1) = CHR ''x'' then (16, drop 2 s)
      else (8, tl s))"

text \<open>\<open>underscoreOK\<close>: underscores stand between digits, or after a base prefix.\<close>

datatype seen = SeenNothing | SeenDigit | SeenUnderscore | SeenOther

fun underscore_scan :: "bool \<Rightarrow> seen \<Rightarrow> string \<Rightarrow> bool" where
  "underscore_scan hex saw [] = (saw \<noteq> SeenUnderscore)"
| "underscore_scan hex saw (c # cs) =
     (if c \<in> digits \<or> hex \<and> lower_char c \<in> set ''abcdef'' then underscore_scan hex SeenDigit cs
      else if c = CHR ''_'' then saw = SeenDigit \<and> underscore_scan hex SeenUnderscore cs
      else saw \<noteq> SeenUnderscore \<and> underscore_scan hex SeenOther cs)"

definition underscore_ok :: "string \<Rightarrow> bool" where
  "underscore_ok s =
     (let s = (if s \<noteq> [] \<and> hd s \<in> {CHR ''-'', CHR ''+''} then tl s else s) in
      if 2 \<le> length s \<and> hd s = CHR ''0'' \<and> lower_char (s ! 1) \<in> {CHR ''b'', CHR ''o'', CHR ''x''}
      then underscore_scan (lower_char (s ! 1) = CHR ''x'') SeenDigit (drop 2 s)
      else underscore_scan False SeenNothing s)"

definition ParseUint :: "string \<Rightarrow> nat outcome" where
  "ParseUint s =
     (if s = [] then Fail errParse
      else case number_base s of (base, ds) \<Rightarrow>
        bind_out (parse_digits base 0 ds) (\<lambda>n.
        if CHR ''_'' \<in> set ds \<and> \<not> underscore_ok s then Fail errParse else Ok n))"

definition ParseInt :: "string \<Rightarrow> int outcome" where
  "ParseInt s =
     (if s = [] then Fail errParse
      else let neg = (hd s = CHR ''-'');
               ds = (if hd s \<in> {CHR ''-'', CHR ''+''} then tl s else s)
           in bind_out (ParseUint ds) (\<lambda>n.
              if \<not> neg \<and> 2 ^ 63 \<le> n \<or> neg \<and> 2 ^ 63 < n then Fail errRange
              else Ok (if neg then - int n else int n)))"

definition ParseBool :: "string \<Rightarrow> bool outcome" where
  "ParseBool s =
     (if s \<in> {''1'', ''t'', ''T'', ''true'', ''TRUE'', ''True''} then Ok True
      else if s \<in> {''0'', ''f'', ''F'', ''false'', ''FALSE'', ''False''} then Ok False
      else Fail errParse)"

text \<open>The verb \<open>%q\<close> on ASCII; other bytes pass through.\<close>

definition quote_char :: "char \<Rightarrow> string" where
  "quote_char c =
     (let n = of_char c :: nat; esc = CHR 0x5C in
      if n = 34 \<or> n = 92 then [esc, c]
      else if n = 7 then [esc, CHR ''a''] else if n = 8 then [esc, CHR ''b'']
      else if n = 12 then [esc, CHR ''f''] else if n = 10 then [esc, CHR ''n'']
      else if n = 13 then [esc, CHR ''r''] else if n = 9 then [esc, CHR ''t'']
      else if n = 11 then [esc, CHR ''v'']
      else if n < 32 \<or> n = 127 then esc # CHR ''x'' # hex_encode [c]
      else [c])"

definition go_quote :: "string \<Rightarrow> string" where
  "go_quote s = [CHR 0x22] @ concat (map quote_char s) @ [CHR 0x22]"

section \<open>flag\<close>

datatype flag_value = FString string | FUint uint64 | FInt "64 word" | FBool bool

type_synonym flag_set = "(string \<times> flag_value) list"

fun set_flag :: "flag_value \<Rightarrow> string \<Rightarrow> flag_value outcome" where
  "set_flag (FString _) v = Ok (FString v)"
| "set_flag (FUint _) v = bind_out (ParseUint v) (\<lambda>n. Ok (FUint (of_nat n)))"
| "set_flag (FInt _) v = bind_out (ParseInt v) (\<lambda>i. Ok (FInt (word_of_int i)))"
| "set_flag (FBool _) v = bind_out (ParseBool v) (\<lambda>b. Ok (FBool b))"

fun is_bool_flag :: "flag_value \<Rightarrow> bool" where
  "is_bool_flag (FBool _) = True"
| "is_bool_flag _ = False"

text \<open>An argument without its dashes: the name up to the first equals sign after its first byte.\<close>

definition split_flag :: "string \<Rightarrow> string \<times> string option" where
  "split_flag body =
     (let name = hd body # takeWhile (\<lambda>c. c \<noteq> CHR ''='') (tl body);
          r = dropWhile (\<lambda>c. c \<noteq> CHR ''='') (tl body)
      in (name, if r = [] then None else Some (tl r)))"

definition assign :: "flag_set \<Rightarrow> string \<Rightarrow> flag_value \<Rightarrow> string \<Rightarrow> flag_set outcome" where
  "assign fls name v value =
     (case set_flag v value of
        Ok v' \<Rightarrow> Ok (AList.update name v' fls)
      | Fail e \<Rightarrow> Fail ((if is_bool_flag v
           then ''invalid boolean value '' @ go_quote value @ '' for -''
           else ''invalid value '' @ go_quote value @ '' for flag -'') @ name @ '': '' @ e)
      | Panic p \<Rightarrow> Panic p)"

text \<open>\<open>parseOne\<close>: nothing when the flags are over, with the arguments that are left.\<close>

definition parse_one :: "flag_set \<Rightarrow> string \<Rightarrow> string list \<Rightarrow> ((flag_set \<times> string list) option \<times> string list) outcome" where
  "parse_one fls s rest =
     (if length s < 2 \<or> hd s \<noteq> CHR ''-'' then Ok (None, s # rest)
      else if s = ''--'' then Ok (None, rest)
      else let body = (if s ! 1 = CHR ''-'' then drop 2 s else drop 1 s) in
        if body = [] \<or> hd body \<in> {CHR ''-'', CHR ''=''} then Fail (''bad flag syntax: '' @ s)
        else case split_flag body of (name, value) \<Rightarrow>
          (case map_of fls name of
             None \<Rightarrow> Fail (if name \<in> {''help'', ''h''} then ''flag: help requested''
                          else ''flag provided but not defined: -'' @ name)
           | Some v \<Rightarrow>
               (case (value, is_bool_flag v, rest) of
                  (Some x, _, _) \<Rightarrow> bind_out (assign fls name v x) (\<lambda>fls'. Ok (Some (fls', rest), rest))
                | (None, True, _) \<Rightarrow> bind_out (assign fls name v ''true'') (\<lambda>fls'. Ok (Some (fls', rest), rest))
                | (None, False, []) \<Rightarrow> Fail (''flag needs an argument: -'' @ name)
                | (None, False, x # more) \<Rightarrow>
                    bind_out (assign fls name v x) (\<lambda>fls'. Ok (Some (fls', more), more)))))"

lemma parse_one_shorter:
  "parse_one fls s rest = Ok (Some (fls', args), left) \<Longrightarrow> length args \<le> length rest"
  by (auto simp: parse_one_def Let_def bind_out_Ok_iff split: if_splits option.splits prod.splits bool.splits list.splits)

text \<open>The flags with their values, and the arguments after the flags.\<close>

function parse_flags :: "flag_set \<Rightarrow> string list \<Rightarrow> (flag_set \<times> string list) outcome" where
  "parse_flags fls [] = Ok (fls, [])"
| "parse_flags fls (s # rest) =
     (case parse_one fls s rest of
        Ok (None, left) \<Rightarrow> Ok (fls, left)
      | Ok (Some (fls', args), left) \<Rightarrow> parse_flags fls' args
      | Fail e \<Rightarrow> Fail e
      | Panic p \<Rightarrow> Panic p)"
  by pat_completeness auto
termination
  by (relation "measure (length \<circ> snd)") (auto dest!: parse_one_shorter [OF sym] parse_one_shorter simp: less_Suc_eq_le)

definition string_flag :: "flag_set \<Rightarrow> string \<Rightarrow> string" where
  "string_flag fls name = (case map_of fls name of Some (FString s) \<Rightarrow> s | _ \<Rightarrow> [])"

definition uint_flag :: "flag_set \<Rightarrow> string \<Rightarrow> uint64" where
  "uint_flag fls name = (case map_of fls name of Some (FUint n) \<Rightarrow> n | _ \<Rightarrow> 0)"

definition int_flag :: "flag_set \<Rightarrow> string \<Rightarrow> 64 word" where
  "int_flag fls name = (case map_of fls name of Some (FInt i) \<Rightarrow> i | _ \<Rightarrow> 0)"

definition bool_flag :: "flag_set \<Rightarrow> string \<Rightarrow> bool" where
  "bool_flag fls name = (case map_of fls name of Some (FBool b) \<Rightarrow> b | _ \<Rightarrow> False)"

section \<open>Round trips\<close>

lemma digits_props:
  assumes "c \<in> digits"
  shows "digit_of c = Some (digit_val c)" and "digit_val c < 10" and "c \<noteq> CHR ''_''" and "c \<noteq> CHR ''-''" and "c \<noteq> CHR ''+''"
  using assms by (auto simp: digits_def digit_of_def digit_val_def lower_char_def Let_def)

lemma foldl_decimal_ge: "m \<le> foldl (\<lambda>a c. 10 * a + digit_val c) m ds"
proof (induction ds arbitrary: m)
  case (Cons c ds)
  have "m \<le> 10 * m + digit_val c" by simp
  also have "\<dots> \<le> foldl (\<lambda>a c. 10 * a + digit_val c) (10 * m + digit_val c) ds" by (rule Cons)
  finally show ?case by simp
qed simp

lemma parse_decimal:
  "set ds \<subseteq> digits \<Longrightarrow> foldl (\<lambda>a c. 10 * a + digit_val c) m ds < 2 ^ 64 \<Longrightarrow>
     parse_digits 10 m ds = Ok (foldl (\<lambda>a c. 10 * a + digit_val c) m ds)"
proof (induction ds arbitrary: m)
  case (Cons c ds)
  have "10 * m + digit_val c < 2 ^ 64"
    using Cons.prems(2) foldl_decimal_ge [of "10 * m + digit_val c" ds] by simp
  with Cons digits_props [of c] show ?case by (simp add: mult.commute not_le)
qed simp

lemma itoa_no_leading_zero: "0 < n \<Longrightarrow> hd (itoa n) \<noteq> CHR ''0''"
proof (induction n rule: itoa.induct)
  case (1 n)
  show ?case
  proof (cases "n < 10")
    case True
    with 1 have "n \<in> {1, 2, 3, 4, 5, 6, 7, 8, 9}" by auto
    then show ?thesis by (auto simp: itoa.simps [of n] digit_char_def)
  next
    case False
    then have "hd (itoa (n div 10)) \<noteq> CHR ''0''" using 1 by simp
    with False show ?thesis by (simp add: itoa.simps [of n])
  qed
qed

lemma ParseUint_itoa:
  assumes "n < 2 ^ 64"
  shows "ParseUint (itoa n) = Ok n"
proof (cases "n = 0")
  case True
  have "ParseUint (itoa 0) = Ok 0" by code_simp
  with True show ?thesis by simp
next
  case False
  then have "number_base (itoa n) = (10, itoa n)"
    by (simp add: number_base_def itoa_no_leading_zero)
  moreover have "parse_digits 10 0 (itoa n) = Ok n"
    using parse_decimal [OF itoa_digits, of 0 n] assms atoi_itoa [of n] by (simp add: atoi_def)
  moreover have "CHR ''_'' \<notin> set (itoa n)" by (intro itoa_no_sep) (simp add: digits_def)
  ultimately show ?thesis by (simp add: ParseUint_def)
qed

lemma ParseInt_itoa_int:
  assumes "- (2 ^ 63) \<le> i" and "i < 2 ^ 63"
  shows "ParseInt (itoa_int i) = Ok i"
proof (cases "i < 0")
  case True
  then have "ParseUint (itoa (nat (- i))) = Ok (nat (- i))" using assms by (intro ParseUint_itoa) simp
  with True assms show ?thesis by (simp add: ParseInt_def itoa_int_def nat_less_iff Let_def)
next
  case False
  obtain c cs where c: "itoa (nat i) = c # cs" by (cases "itoa (nat i)") auto
  then have "c \<in> digits" using itoa_digits [of "nat i"] by simp
  moreover have "ParseUint (itoa (nat i)) = Ok (nat i)" using assms by (intro ParseUint_itoa) simp
  ultimately show ?thesis
    using False assms c digits_props [of c] by (simp add: ParseInt_def itoa_int_def Let_def)
qed

interpretation decimal_uint: codec itoa "\<lambda>s. case ParseUint s of Ok n \<Rightarrow> Some n | _ \<Rightarrow> None" "\<lambda>n. n < 2 ^ 64"
  by unfold_locales (simp add: ParseUint_itoa)

interpretation decimal_int: codec itoa_int "\<lambda>s. case ParseInt s of Ok i \<Rightarrow> Some i | _ \<Rightarrow> None"
    "\<lambda>i. - (2 ^ 63) \<le> i \<and> i < 2 ^ 63"
  by unfold_locales (simp add: ParseInt_itoa_int)

text \<open>An argument that sets a flag which is not a boolean, written as two words.\<close>

lemma parse_flags_word:
  assumes "map_of fls name = Some v" and "\<not> is_bool_flag v" and "set_flag v value = Ok v'"
    and "name \<noteq> []" and "CHR ''='' \<notin> set name" and "hd name \<noteq> CHR ''-''"
  shows "parse_flags fls ((''--'' @ name) # value # rest) = parse_flags (AList.update name v' fls) rest"
proof -
  obtain c cs where name: "name = c # cs" using assms(4) by (cases name) auto
  have "\<forall>x \<in> set cs. x \<noteq> CHR ''=''" using assms(5) name by auto
  then have "split_flag name = (name, None)"
    using name by (simp add: split_flag_def takeWhile_eq_all_conv dropWhile_eq_Nil_conv)
  moreover have "hd name \<noteq> CHR ''=''" using assms(5) name by auto
  ultimately have "parse_one fls (''--'' @ name) (value # rest) = Ok (Some (AList.update name v' fls, rest), rest)"
    using assms name by (simp add: parse_one_def Let_def assign_def)
  then show ?thesis by simp
qed

end
