(* ===== verification/Cli.thy ===== *)
theory Cli
  imports GoFlag Server
begin

text \<open>
  The command line: packages internal/cmd and internal/cmd/server, cmd/main.go and internal/version.

  A command runs in the state of its process: the lines it has shown, the world it runs in (the server
  command starts the server there) and whatever is behind the network, of arbitrary type \<open>'r\<close>.  The
  gRPC library, the table formatter columnize, the argument dispatcher of mitchellh/cli, the signals and
  the parsing of a duration (floating point) are parameters.
\<close>

section \<open>The process\<close>

datatype ui_line = UiOutput string | UiError string | StdErr string

record ('w, 'r) proc =
  ui :: "ui_line list"
  here :: "'w world"
  remote :: 'r

type_synonym ('w, 'r, 'a) cmd = "(('w, 'r) proc, 'a) go"

text \<open>The client of the gRPC service: a call acts on what is behind the network.\<close>

record 'r rpc_client =
  rpc_DepositList :: "('r, tranche_stub list) go"
  rpc_DepositCreate :: "uint64 \<Rightarrow> ('r, tranche_stub) go"
  rpc_NodeDeploy :: "node_deploy_request \<Rightarrow> ('r, proto_node list) go"
  rpc_NodeList :: "('r, proto_node list) go"
  rpc_NodeStatus :: "string \<Rightarrow> ('r, proto_node) go"

text \<open>\<open>col_Glue\<close> is \<open>None\<close> for the default of columnize.\<close>

record column_config =
  col_Empty :: string
  col_Glue :: "string option"

text \<open>
  \<open>cli_dispatch\<close> is the outcome of the CLI library on the command names and the arguments: an exit code
  of its own (help, unknown commands) or the command to run with its arguments.  \<open>sig_events\<close> is what the
  server does until a signal arrives, \<open>sig_first\<close> is the signal that ends the server, \<open>sig_again\<close> tells how many nodes have been stopped when another signal
  arrives, if one arrives before the end.
\<close>

record ('w, 'r) cli_api =
  grpc_Dial :: "string \<Rightarrow> ('r, 'r rpc_client) go"
  columnize_Format :: "string list \<Rightarrow> column_config \<Rightarrow> string"
  cli_dispatch :: "string list \<Rightarrow> string list \<Rightarrow> (int + string \<times> string list) outcome"
  sig_events :: "'w \<Rightarrow> turn list \<times> 'w"
  sig_first :: "'w \<Rightarrow> string \<times> 'w"
  sig_again :: "'w \<Rightarrow> nat option \<times> 'w"
  time_now :: "'w \<Rightarrow> go_int \<times> 'w"
  parse_seconds :: "string \<Rightarrow> go_int outcome"
  type_text :: "int32 \<Rightarrow> string"

definition show_line :: "ui_line \<Rightarrow> ('w, 'r, unit) cmd" where
  "show_line l = modify (\<lambda>p. p\<lparr>ui := ui p @ [l]\<rparr>)"

definition on_remote :: "('r, 'a) go \<Rightarrow> ('w, 'r, 'a) cmd" where
  "on_remote m = on_part remote (\<lambda>r p. p\<lparr>remote := r\<rparr>) m"

definition on_here :: "('w world, 'a) go \<Rightarrow> ('w, 'r, 'a) cmd" where
  "on_here m = on_part here (\<lambda>w p. p\<lparr>here := w\<rparr>) m"

text \<open>\<open>if err != nil { c.UI.Error(err.Error()); return 1 }\<close>\<close>

definition exit_error :: "string \<Rightarrow> ('w, 'r, int) cmd" where
  "exit_error e = bind_go (show_line (UiError e)) (\<lambda>_. ret 1)"

definition or_exit :: "('w, 'r, 'a) cmd \<Rightarrow> ('a \<Rightarrow> ('w, 'r, int) cmd) \<Rightarrow> ('w, 'r, int) cmd" where
  "or_exit m k = bind_go (attempt m) (\<lambda>r. case r of Inl e \<Rightarrow> exit_error e | Inr x \<Rightarrow> k x)"

definition exit_output :: "string \<Rightarrow> ('w, 'r, int) cmd" where
  "exit_output s = bind_go (show_line (UiOutput s)) (\<lambda>_. ret 0)"

section \<open>Shared by the client commands\<close>

text \<open>\<open>(*Meta).FlagSet\<close>: the flag every client command has.\<close>

definition meta_flags :: flag_set where
  "meta_flags = [(''address'', FString ''localhost:5555'')]"

definition Conn :: "('w, 'r) cli_api \<Rightarrow> flag_set \<Rightarrow> ('w, 'r, 'r rpc_client) cmd" where
  "Conn A fls = wrap_err ''failed to connect to server: '' (on_remote (grpc_Dial A (string_flag fls ''address'')))"

definition formatList :: "('w, 'r) cli_api \<Rightarrow> string list \<Rightarrow> string" where
  "formatList A rows = columnize_Format A rows \<lparr>col_Empty = ''<none>'', col_Glue = None\<rparr>"

definition formatKV :: "('w, 'r) cli_api \<Rightarrow> string list \<Rightarrow> string" where
  "formatKV A rows = columnize_Format A rows \<lparr>col_Empty = ''<none>'', col_Glue = Some '' = ''\<rparr>"

section \<open>Deposits\<close>

definition tranche_rows :: "tranche_stub \<Rightarrow> string list" where
  "tranche_rows tranche =
     (let name = (if stub_Name tranche = [] then ''-'' else stub_Name tranche) in
      [''Index|'' @ itoa (unat (Index tranche)),
       ''Path|'' @ stub_Path tranche,
       ''Validator|'' @ name,
       ''Num accounts|'' @ itoa (length (stub_Accounts tranche))])"

definition formatTranche :: "('w, 'r) cli_api \<Rightarrow> tranche_stub \<Rightarrow> string" where
  "formatTranche A tranche = formatKV A (tranche_rows tranche)"

text \<open>The row shows the tranche's name, not the dash the code computes for an empty one.\<close>

definition tranche_row :: "tranche_stub \<Rightarrow> string" where
  "tranche_row d = itoa (unat (Index d)) @ ''|'' @ stub_Name d @ ''|'' @ itoa (length (stub_Accounts d))"

definition formatTranches :: "('w, 'r) cli_api \<Rightarrow> tranche_stub list \<Rightarrow> string" where
  "formatTranches A ts =
     (if ts = [] then ''No tranches found''
      else formatList A (''Index|Validator|Num accounts'' # map tranche_row ts))"

definition DepositCreateCommand_Run :: "('w, 'r) cli_api \<Rightarrow> string list \<Rightarrow> ('w, 'r, int) cmd" where
  "DepositCreateCommand_Run A args =
     or_exit (lift_out (parse_flags (meta_flags @ [(''num-validators'', FUint 0)]) args)) (\<lambda>(fls, _).
     or_exit (Conn A fls) (\<lambda>clt.
     or_exit (on_remote (rpc_DepositCreate clt (uint_flag fls ''num-validators''))) (\<lambda>tranche.
     exit_output (formatTranche A tranche))))"

definition DepositListCommand_Run :: "('w, 'r) cli_api \<Rightarrow> string list \<Rightarrow> ('w, 'r, int) cmd" where
  "DepositListCommand_Run A args =
     or_exit (lift_out (parse_flags meta_flags args)) (\<lambda>(fls, _).
     or_exit (Conn A fls) (\<lambda>clt.
     or_exit (on_remote (rpc_DepositList clt)) (\<lambda>ts.
     exit_output (formatTranches A ts))))"

section \<open>Nodes\<close>

definition beacon_flags :: flag_set where
  "beacon_flags = meta_flags @
     [(''type'', FString []), (''count'', FUint 1), (''repo'', FString []), (''tag'', FString [])]"

definition beacon_request :: "flag_set \<Rightarrow> node_client \<Rightarrow> node_deploy_request" where
  "beacon_request fls clt = \<lparr>NodeClient = clt, Repo = string_flag fls ''repo'', req_Tag = string_flag fls ''tag'',
     NodeType = Some (ReqBeacon (uint_flag fls ''count''))\<rparr>"

definition NodeDeployBeaconCommand_Run :: "('w, 'r) cli_api \<Rightarrow> string list \<Rightarrow> ('w, 'r, int) cmd" where
  "NodeDeployBeaconCommand_Run A args =
     or_exit (lift_out (parse_flags beacon_flags args)) (\<lambda>(fls, _).
     or_exit (Conn A fls) (\<lambda>clt.
     case StringToNodeClient (string_flag fls ''type'') of
       None \<Rightarrow> exit_error (''node type '' @ string_flag fls ''type'' @ '' not found'')
     | Some t \<Rightarrow>
         if uint_flag fls ''count'' = 0 then exit_error ''--count cannot be zero''
         else or_exit (on_remote (rpc_NodeDeploy clt (beacon_request fls t))) (\<lambda>_. ret 0)))"

definition validator_flags :: flag_set where
  "validator_flags = meta_flags @
     [(''type'', FString []), (''num-validators'', FUint 0), (''tranche'', FUint 0), (''beacon'', FBool False),
      (''beacon-count'', FUint 1), (''repo'', FString []), (''tag'', FString [])]"

definition validator_request :: "flag_set \<Rightarrow> node_client \<Rightarrow> node_deploy_request" where
  "validator_request fls clt = \<lparr>NodeClient = clt, Repo = string_flag fls ''repo'', req_Tag = string_flag fls ''tag'',
     NodeType = Some (ReqValidator \<lparr>NumValidators = uint_flag fls ''num-validators'',
       NumTranch = uint_flag fls ''tranche'', WithBeacon = bool_flag fls ''beacon'',
       BeaconCount = uint_flag fls ''beacon-count''\<rparr>)\<rparr>"

definition NodeDeployValidatorCommand_Run :: "('w, 'r) cli_api \<Rightarrow> string list \<Rightarrow> ('w, 'r, int) cmd" where
  "NodeDeployValidatorCommand_Run A args =
     or_exit (lift_out (parse_flags validator_flags args)) (\<lambda>(fls, _).
     or_exit (Conn A fls) (\<lambda>clt.
     case StringToNodeClient (string_flag fls ''type'') of
       None \<Rightarrow> exit_error (''node type '' @ string_flag fls ''type'' @ '' not found'')
     | Some t \<Rightarrow>
         if uint_flag fls ''beacon-count'' = 0 then exit_error ''--count cannot be zero''
         else or_exit (on_remote (rpc_NodeDeploy clt (validator_request fls t))) (\<lambda>_. ret 0)))"

definition node_row :: "('w, 'r) cli_api \<Rightarrow> proto_node \<Rightarrow> string" where
  "node_row A d = join_strings ''|'' [node_Name d, NodeType_String (type_text A) (node_Type d),
     node_Ip d, NodeClient_String (type_text A) (node_Client d)]"

definition formatNodes :: "('w, 'r) cli_api \<Rightarrow> proto_node list \<Rightarrow> string" where
  "formatNodes A ns =
     (if ns = [] then ''No nodes found''
      else formatList A (''Name|Type|IP|Client'' # map (node_row A) ns))"

definition formatNode :: "('w, 'r) cli_api \<Rightarrow> proto_node \<Rightarrow> string" where
  "formatNode A n = formatKV A
     [''Name|'' @ node_Name n,
      ''Type|'' @ NodeType_String (type_text A) (node_Type n),
      ''Client|'' @ NodeClient_String (type_text A) (node_Client n)]"

definition NodeListCommand_Run :: "('w, 'r) cli_api \<Rightarrow> string list \<Rightarrow> ('w, 'r, int) cmd" where
  "NodeListCommand_Run A args =
     or_exit (lift_out (parse_flags meta_flags args)) (\<lambda>(fls, _).
     or_exit (Conn A fls) (\<lambda>clt.
     or_exit (on_remote (rpc_NodeList clt)) (\<lambda>ns.
     exit_output (formatNodes A ns))))"

definition NodeStatusCommand_Run :: "('w, 'r) cli_api \<Rightarrow> string list \<Rightarrow> ('w, 'r, int) cmd" where
  "NodeStatusCommand_Run A args =
     or_exit (lift_out (parse_flags meta_flags args)) (\<lambda>(fls, left).
     case left of
       [name] \<Rightarrow>
         or_exit (Conn A fls) (\<lambda>clt.
         or_exit (on_remote (rpc_NodeStatus clt name)) (\<lambda>n.
         exit_output (formatNode A n)))
     | _ \<Rightarrow> exit_error ''expected one argument'')"

section \<open>Version\<close>

definition GetVersion :: "string \<Rightarrow> string \<Rightarrow> string \<Rightarrow> string" where
  "GetVersion Version VersionPrerelease GitCommit =
     (if VersionPrerelease \<noteq> []
      then Version @ ''-'' @ VersionPrerelease @ (if GitCommit \<noteq> [] then '' ('' @ GitCommit @ '')'' else [])
      else Version)"

definition Version :: string where "Version = ''0.1.1''"

text \<open>\<open>GitCommit\<close> is set by the linker.\<close>

definition VersionCommand_Run :: "string \<Rightarrow> string list \<Rightarrow> ('w, 'r, int) cmd" where
  "VersionCommand_Run gitCommit args = exit_output (GetVersion Version [] gitCommit)"

section \<open>The server command\<close>

definition server_flags :: flag_set where
  "server_flags =
     [(''name'', FString ''test''), (''min-genesis-validator-count'', FUint 10),
      (''num-genesis-validators'', FUint 10), (''genesis-time'', FString ''1m''),
      (''num-tranches'', FUint 1), (''altair'', FInt (- 1))]"

text \<open>The configuration the flags give; the clock is read for the default and again for the genesis time.\<close>

definition flag_config :: "flag_set \<Rightarrow> go_int \<Rightarrow> go_int \<Rightarrow> config" where
  "flag_config fls t0 t1 =
     (let c = (DefaultConfig t0)\<lparr>cfg_Name := string_flag fls ''name'',
            NumGenesisValidators := uint_flag fls ''num-genesis-validators'',
            NumTranches := uint_flag fls ''num-tranches''\<rparr>;
          sp = (Spec c)\<lparr>MinGenesisValidatorCount := uint_flag fls ''min-genesis-validator-count'',
            Altair := (if 0 \<le> sint (int_flag fls ''altair'') then Some (int_flag fls ''altair'') else Altair (Spec c)),
            MinGenesisTime := t1\<rparr>
      in c\<lparr>Spec := sp\<rparr>)"

definition add_genesis_time :: "go_int \<Rightarrow> config \<Rightarrow> config" where
  "add_genesis_time d c = c\<lparr>Spec := (Spec c)\<lparr>MinGenesisTime := MinGenesisTime (Spec c) + d\<rparr>\<rparr>"

text \<open>Parsing that fails calls \<open>Usage\<close> first, which shows the empty help text.\<close>

definition parse_server_flags :: "string list \<Rightarrow> ('w, 'r, flag_set) cmd" where
  "parse_server_flags args =
     (case parse_flags server_flags args of
        Ok (fls, left) \<Rightarrow> ret fls
      | Fail e \<Rightarrow> bind_go (show_line (UiError [])) (\<lambda>_. fail e)
      | Panic p \<Rightarrow> panic p)"

definition readConfig :: "('w, 'r) cli_api \<Rightarrow> string list \<Rightarrow> ('w, 'r, config) cmd" where
  "readConfig A args =
     bind_go (parse_server_flags args) (\<lambda>fls.
     bind_go (on_here (ext_get (time_now A))) (\<lambda>t0.
     bind_go (on_here (ext_get (time_now A))) (\<lambda>t1.
     let config = flag_config fls t0 t1 in
     if string_flag fls ''genesis-time'' \<noteq> []
     then bind_go (wrap_err ''failed to parse genesis time: ''
            (lift_out (parse_seconds A (string_flag fls ''genesis-time'')))) (\<lambda>d.
          ret (add_genesis_time d config))
     else ret config)))"

text \<open>
  \<open>handleSignals\<close>: the server serves until the first signal.  If another signal arrives before \<open>Stop\<close> has finished, the process exits with 1 and the
  remaining nodes are not stopped.  A count above the number of nodes is a signal that arrives when
  \<open>Stop\<close> has finished as well, when \<open>select\<close> may take either.  Requests that are still served after the
  first signal are the subject of theory \<open>Shutdown\<close>.
\<close>

definition stop_some :: "('w, 'h) services \<Rightarrow> nat \<Rightarrow> ('w, unit) srv" where
  "stop_some V k = bind_go (gets nodes) (\<lambda>ns.
     if length ns < k then StopServer V
     else bind_go (for_each (take k ns) (\<lambda>n. attempt (on_env (Stop (sv_docker V) n)))) (\<lambda>_. ret ()))"

definition on_server :: "'w server \<Rightarrow> ('w, 'a) srv \<Rightarrow> ('w world, 'a) go" where
  "on_server s m = (\<lambda>w. case m (s\<lparr>env := w\<rparr>) of (r, t) \<Rightarrow> (r, env t))"

definition serve_server :: "'w server \<Rightarrow> ('w, 'a) srv \<Rightarrow> ('w world, 'w server) go" where
  "serve_server s m = (\<lambda>w. case m (s\<lparr>env := w\<rparr>) of
     (Ok _, t) \<Rightarrow> (Ok t, env t)
   | (Fail e, t) \<Rightarrow> (Fail e, env t)
   | (Panic p, t) \<Rightarrow> (Panic p, env t))"

definition handleSignals :: "('w, 'r) cli_api \<Rightarrow> ('w, 'h) services \<Rightarrow> 'w server \<Rightarrow> ('w, 'r, int) cmd" where
  "handleSignals A V started =
     bind_go (on_here (ext_get (sig_events A))) (\<lambda>turns.
     bind_go (on_here (serve_server started (serve_turns V turns))) (\<lambda>client.
     bind_go (on_here (ext_get (sig_first A))) (\<lambda>sig.
     bind_go (show_line (UiOutput (''Caught signal: '' @ sig))) (\<lambda>_.
     bind_go (show_line (UiOutput ''Gracefully shutting down agent...'')) (\<lambda>_.
     bind_go (on_here (ext_get (sig_again A))) (\<lambda>again.
     case again of
       Some k \<Rightarrow> bind_go (on_here (on_server client (stop_some V k))) (\<lambda>_. ret 1)
     | None \<Rightarrow> bind_go (on_here (on_server client (StopServer V))) (\<lambda>_. ret 0)))))))"

text \<open>Both errors are shown as output.\<close>

definition ServerCommand_Run :: "('w, 'r) cli_api \<Rightarrow> ('w, 'h) services \<Rightarrow> string list \<Rightarrow> ('w, 'r, int) cmd" where
  "ServerCommand_Run A V args =
     bind_go (attempt (readConfig A args)) (\<lambda>r. case r of
       Inl err \<Rightarrow> bind_go (show_line (UiOutput (''failed to read config: '' @ err))) (\<lambda>_. ret 1)
     | Inr config \<Rightarrow>
         bind_go (attempt (on_here (NewServer V config))) (\<lambda>q. case q of
           Inl err \<Rightarrow> bind_go (show_line (UiOutput (''failed to start server: '' @ err))) (\<lambda>_. ret 1)
         | Inr client \<Rightarrow> handleSignals A V client))"

section \<open>The program\<close>

definition Commands ::
    "('w, 'r) cli_api \<Rightarrow> ('w, 'h) services \<Rightarrow> string \<Rightarrow> (string \<times> (string list \<Rightarrow> ('w, 'r, int) cmd)) list" where
  "Commands A V gitCommit =
     [(''server'', ServerCommand_Run A V),
      (''node deploy validator'', NodeDeployValidatorCommand_Run A),
      (''node deploy beacon'', NodeDeployBeaconCommand_Run A),
      (''node list'', NodeListCommand_Run A),
      (''node status'', NodeStatusCommand_Run A),
      (''deposit create'', DepositCreateCommand_Run A),
      (''deposit list'', DepositListCommand_Run A),
      (''version'', VersionCommand_Run gitCommit)]"

definition main_Run :: "('w, 'r) cli_api \<Rightarrow> ('w, 'h) services \<Rightarrow> string \<Rightarrow> string list \<Rightarrow> ('w, 'r, int) cmd" where
  "main_Run A V gitCommit args =
     (let commands = Commands A V gitCommit in
      bind_go (attempt (bind_go (lift_out (cli_dispatch A (map fst commands) args)) (\<lambda>d. case d of
          Inl code \<Rightarrow> ret code
        | Inr (name, rest) \<Rightarrow> (case map_of commands name of Some command \<Rightarrow> command rest | None \<Rightarrow> ret 127)))) (\<lambda>r.
      case r of
        Inl err \<Rightarrow> bind_go (show_line (StdErr (''Error executing CLI: '' @ err))) (\<lambda>_. ret 1)
      | Inr exitCode \<Rightarrow> ret exitCode))"

end
