(* ===== verification/CliClaims.thy ===== *)
theory CliClaims
  imports Cli ServerClaims StartClaims
begin

text \<open>
  The properties of the command line, on its own and composed with the server: the server command reads
  its documented flags, a client command sends exactly the request its flags describe, and refused input reaches no server.
\<close>

section \<open>Client commands\<close>

text \<open>
  How a call reaches a handler over gRPC: an error comes back as an error with the text of its status,
  and so does a handler that panics, which takes the server down.
\<close>

definition served :: "(string \<Rightarrow> string) \<Rightarrow> ('s, 'a) go \<Rightarrow> ('s, 'a) go" where
  "served txt m s = (case m s of
     (Ok x, t) \<Rightarrow> (Ok x, t)
   | (Fail e, t) \<Rightarrow> (Fail (txt e), t)
   | (Panic p, t) \<Rightarrow> (Fail (txt p), t))"

definition sample_client :: "nat server rpc_client" where
  "sample_client = \<lparr>rpc_DepositList = served id (DepositList sample_services),
     rpc_DepositCreate = (\<lambda>n. served id (DepositCreate sample_services n)),
     rpc_NodeDeploy = (\<lambda>req. served id (NodeDeploy sample_services req)),
     rpc_NodeList = served id NodeList, rpc_NodeStatus = (\<lambda>name. served id (NodeStatus name))\<rparr>"

definition sample_cli :: "(nat, nat server) cli_api" where
  "sample_cli = \<lparr>grpc_Dial = (\<lambda>addr r. (if addr = ''localhost:5555'' then Ok sample_client else Fail ''no route'', r)),
     columnize_Format = (\<lambda>rows c. concat rows), cli_dispatch = (\<lambda>names args. Ok (Inr (hd args, tl args))),
     sig_events = (\<lambda>n. ([ServeTurn (NodeDeployReq teku_beacon_request)], n)), sig_first = (\<lambda>n. (''interrupt'', n)), sig_again = (\<lambda>n. (Some 1, n)), time_now = (\<lambda>n. (1000, n)),
     parse_seconds = (\<lambda>s. Ok 60), type_text = itoa_int \<circ> sint\<rparr>"

definition sample_proc :: "(nat, nat server) proc" where
  "sample_proc = \<lparr>ui = [], here = sample_world, remote = sample_server\<rparr>"

lemma or_exit_Ok: "m p = (Ok x, q) \<Longrightarrow> or_exit m k p = k x q"
  by (simp add: or_exit_def attempt_def bind_go_def)

lemma or_exit_Fail: "m p = (Fail e, q) \<Longrightarrow> or_exit m k p = (Ok 1, q\<lparr>ui := ui q @ [UiError e]\<rparr>)"
  by (simp add: or_exit_def attempt_def bind_go_def exit_error_def show_line_def)

lemma or_exit_pure:
  "or_exit (lift_out (Ok x)) k = k x"
  "or_exit (lift_out (Fail e)) k = exit_error e"
  by (simp_all add: fun_eq_iff or_exit_Ok or_exit_Fail exit_error_def bind_go_def show_line_def)

lemma exit_error_run: "exit_error e p = (Ok 1, p\<lparr>ui := ui p @ [UiError e]\<rparr>)"
  by (simp add: exit_error_def bind_go_def show_line_def)

lemmas exit_simps = or_exit_pure exit_error_run

text \<open>A remote call leaves only the remote state changed.\<close>

lemma on_remote_run: "m (remote p) = (r, t) \<Longrightarrow> on_remote m p = (r, p\<lparr>remote := t\<rparr>)"
  by (simp add: on_remote_def on_part_def)

lemma Conn_run:
  assumes "grpc_Dial A (string_flag fls ''address'') (remote p) = (Ok clt, remote p)"
  shows "Conn A fls p = (Ok clt, p)"
  by (simp add: Conn_def wrap_err_def on_remote_def on_part_def assms)

text \<open>Every client command gives up on flags it cannot parse.\<close>

definition client_commands :: "('w, 'r) cli_api \<Rightarrow> (flag_set \<times> (string list \<Rightarrow> ('w, 'r, int) cmd)) list" where
  "client_commands A =
     [(validator_flags, NodeDeployValidatorCommand_Run A), (beacon_flags, NodeDeployBeaconCommand_Run A),
      (meta_flags, NodeListCommand_Run A), (meta_flags, NodeStatusCommand_Run A),
      (meta_flags @ [(''num-validators'', FUint 0)], DepositCreateCommand_Run A), (meta_flags, DepositListCommand_Run A)]"

lemmas command_defs = NodeDeployValidatorCommand_Run_def NodeDeployBeaconCommand_Run_def NodeListCommand_Run_def
  NodeStatusCommand_Run_def DepositCreateCommand_Run_def DepositListCommand_Run_def

theorem client_commands_check_flags:
  assumes "(fls, command) \<in> set (client_commands A)" and "parse_flags fls args = Fail e"
  shows "command args p = (Ok 1, p\<lparr>ui := ui p @ [UiError e]\<rparr>)"
  using assms by (auto simp: client_commands_def command_defs exit_simps)

theorem client_commands_check_flags_witness:
  "DepositCreateCommand_Run sample_cli [''--num-validators'', ''-3''] sample_proc =
     (Ok 1, sample_proc\<lparr>ui := [UiError (''invalid value '' @ go_quote ''-3'' @ '' for flag -num-validators: parse error'')]\<rparr>)"
proof -
  let ?fls = "meta_flags @ [(''num-validators'', FUint 0)]"
  have "(?fls, DepositCreateCommand_Run sample_cli) \<in> set (client_commands sample_cli)"
    by (simp add: client_commands_def)
  moreover have "parse_flags ?fls [''--num-validators'', ''-3'']
      = Fail (''invalid value '' @ go_quote ''-3'' @ '' for flag -num-validators: parse error'')"
    by code_simp
  ultimately show ?thesis
    using client_commands_check_flags [of ?fls _ sample_cli _ _ sample_proc] by (simp add: sample_proc_def)
qed

text \<open>The flags of a beacon command line, and the request they make.\<close>

lemma beacon_line:
  assumes "n < 2 ^ 64"
  shows "\<exists>fls. parse_flags beacon_flags [''--type'', name, ''--count'', itoa n] = Ok (fls, [])
    \<and> string_flag fls ''type'' = name \<and> string_flag fls ''address'' = ''localhost:5555''
    \<and> uint_flag fls ''count'' = of_nat n
    \<and> (\<forall>c. beacon_request fls c =
         \<lparr>NodeClient = c, Repo = [], req_Tag = [], NodeType = Some (ReqBeacon (of_nat n))\<rparr>)"
proof -
  let ?f1 = "AList.update ''type'' (FString name) beacon_flags"
  let ?f2 = "AList.update ''count'' (FUint (of_nat n)) ?f1"
  have "parse_flags beacon_flags ((''--'' @ ''type'') # name # rest) = parse_flags ?f1 rest" for rest
    by (rule parse_flags_word [where v = "FString []"]) (simp_all add: beacon_flags_def meta_flags_def)
  moreover have "parse_flags ?f1 ((''--'' @ ''count'') # itoa n # []) = parse_flags ?f2 []"
    using ParseUint_itoa [OF assms]
    by (intro parse_flags_word [where v = "FUint 1"]) (simp_all add: beacon_flags_def meta_flags_def)
  ultimately have "parse_flags beacon_flags [''--type'', name, ''--count'', itoa n] = Ok (?f2, [])" by simp
  moreover have "string_flag ?f2 ''type'' = name" "string_flag ?f2 ''address'' = ''localhost:5555''"
    "uint_flag ?f2 ''count'' = of_nat n" "string_flag ?f2 ''repo'' = []" "string_flag ?f2 ''tag'' = []"
    by (simp_all add: string_flag_def uint_flag_def beacon_flags_def meta_flags_def update_conv')
  ultimately show ?thesis
    unfolding beacon_request_def by (intro exI [of _ ?f2] conjI allI) (simp_all only:)
qed

text \<open>
  C13. The command node deploy beacon --type T --count N has exactly the effect of the handler
  NodeDeploy on the request for N beacons of client T: exit code 0 if it succeeds, 1 with the
  error shown if it fails, and an unknown type or a zero count never reaches the server.
\<close>

theorem command_deploys_beacon:
  assumes "grpc_Dial A ''localhost:5555'' (remote p) = (Ok clt, remote p)"
    and "\<forall>req. rpc_NodeDeploy clt req = served txt (NodeDeploy V req)"
    and "n < 2 ^ 64"
  shows "NodeDeployBeaconCommand_Run A [''--type'', name, ''--count'', itoa n] p =
    (case StringToNodeClient name of
       None \<Rightarrow> (Ok 1, p\<lparr>ui := ui p @ [UiError (''node type '' @ name @ '' not found'')]\<rparr>)
     | Some c \<Rightarrow>
         if n = 0 then (Ok 1, p\<lparr>ui := ui p @ [UiError ''--count cannot be zero'']\<rparr>)
         else (case NodeDeploy V \<lparr>NodeClient = c, Repo = [], req_Tag = [], NodeType = Some (ReqBeacon (of_nat n))\<rparr> (remote p) of
             (Ok ns, t) \<Rightarrow> (Ok 0, p\<lparr>remote := t\<rparr>)
           | (Fail e, t) \<Rightarrow> (Ok 1, p\<lparr>remote := t, ui := ui p @ [UiError (txt e)]\<rparr>)
           | (Panic e, t) \<Rightarrow> (Ok 1, p\<lparr>remote := t, ui := ui p @ [UiError (txt e)]\<rparr>)))"
proof -
  have u: "unat (of_nat n :: uint64) = n" using assms(3) by (simp add: unat_of_nat)
  have zero: "(of_nat n :: uint64) = 0 \<longleftrightarrow> n = 0"
  proof
    assume "(of_nat n :: uint64) = 0"
    with u show "n = 0" by (simp only: unat_0)
  qed simp
  obtain fls where line: "parse_flags beacon_flags [''--type'', name, ''--count'', itoa n] = Ok (fls, [])"
    and flags: "string_flag fls ''type'' = name" "string_flag fls ''address'' = ''localhost:5555''"
      "uint_flag fls ''count'' = of_nat n"
    and req: "\<forall>c. beacon_request fls c = \<lparr>NodeClient = c, Repo = [], req_Tag = [], NodeType = Some (ReqBeacon (of_nat n))\<rparr>"
    using beacon_line [OF assms(3), of name] by (elim exE conjE)
  have conn: "Conn A fls p = (Ok clt, p)" using assms(1) flags(2) by (intro Conn_run) simp
  show ?thesis
    unfolding NodeDeployBeaconCommand_Run_def line or_exit_pure case_prod_conv or_exit_Ok [where m = "Conn A fls" and p = p, OF conn] flags req [rule_format]
    by (simp add: zero exit_error_run assms(2) or_exit_def attempt_def bind_go_def on_remote_def on_part_def served_def
        show_line_def exit_error_def split: option.split outcome.split prod.split)
qed

theorem command_deploys_beacon_witness:
  "\<exists>t n. NodeDeployBeaconCommand_Run sample_cli [''--type'', ''teku'', ''--count'', itoa 1] sample_proc
      = (Ok 0, sample_proc\<lparr>remote := t\<rparr>)
    \<and> nodes t = sample_nodes @ [n] \<and> name_of n = ''beacon-1-teku''"
proof -
  have dial: "grpc_Dial sample_cli ''localhost:5555'' (remote sample_proc) = (Ok sample_client, remote sample_proc)"
    by (simp add: sample_cli_def)
  have calls: "\<forall>req. rpc_NodeDeploy sample_client req = served id (NodeDeploy sample_services req)"
    by (simp add: sample_client_def)
  have teku: "StringToNodeClient ''teku'' = Some NodeClient_Teku" by code_simp
  have req: "\<lparr>NodeClient = NodeClient_Teku, Repo = [], req_Tag = [], NodeType = Some (ReqBeacon 1)\<rparr> = teku_beacon_request"
    by (simp add: teku_beacon_request_def)
  obtain ps t n where "NodeDeploy sample_services teku_beacon_request sample_server = (Ok ps, t)"
    "nodes t = sample_nodes @ [n]" "name_of n = ''beacon-1-teku''"
    using teku_beacon_run by (elim exE conjE)
  moreover have "remote sample_proc = sample_server" by (simp add: sample_proc_def)
  ultimately show ?thesis
    using command_deploys_beacon [OF dial calls, of 1 "''teku''"] by (auto simp: teku req)
qed

text \<open>A validator command whose flags are well formed is the handler of the request they make.\<close>

lemma validator_command_run:
  assumes "parse_flags validator_flags args = Ok (fls, left)"
    and "grpc_Dial A (string_flag fls ''address'') (remote p) = (Ok clt, remote p)"
    and "\<forall>req. rpc_NodeDeploy clt req = served txt (NodeDeploy V req)"
  shows "NodeDeployValidatorCommand_Run A args p =
    (case StringToNodeClient (string_flag fls ''type'') of
       None \<Rightarrow> (Ok 1, p\<lparr>ui := ui p @ [UiError (''node type '' @ string_flag fls ''type'' @ '' not found'')]\<rparr>)
     | Some c \<Rightarrow>
         if uint_flag fls ''beacon-count'' = 0 then (Ok 1, p\<lparr>ui := ui p @ [UiError ''--count cannot be zero'']\<rparr>)
         else (case NodeDeploy V (validator_request fls c) (remote p) of
             (Ok ns, t) \<Rightarrow> (Ok 0, p\<lparr>remote := t\<rparr>)
           | (Fail e, t) \<Rightarrow> (Ok 1, p\<lparr>remote := t, ui := ui p @ [UiError (txt e)]\<rparr>)
           | (Panic e, t) \<Rightarrow> (Ok 1, p\<lparr>remote := t, ui := ui p @ [UiError (txt e)]\<rparr>)))"
proof -
  have conn: "Conn A fls p = (Ok clt, p)" using assms(2) by (rule Conn_run)
  show ?thesis
    unfolding NodeDeployValidatorCommand_Run_def assms(1) or_exit_pure case_prod_conv
      or_exit_Ok [where m = "Conn A fls" and p = p, OF conn]
    by (simp add: exit_error_run assms(3) or_exit_def attempt_def bind_go_def on_remote_def on_part_def served_def
        show_line_def exit_error_def split: option.split outcome.split prod.split)
qed

text \<open>
  C14. If node deploy validator exits with 0 for a tranche number, then that tranche existed and
  was unused, a validator node runs, and the only change to the tranches is that this one now
  carries the name of the validator.
\<close>

theorem command_uses_tranche:
  assumes "parse_flags validator_flags args = Ok (fls, left)"
    and "grpc_Dial A (string_flag fls ''address'') (remote p) = (Ok clt, remote p)"
    and "\<forall>req. rpc_NodeDeploy clt req = served txt (NodeDeploy V req)"
    and "uint_flag fls ''num-validators'' = 0"
    and "NodeDeployValidatorCommand_Run A args p = (Ok 0, q)"
  shows "\<exists>tr v. map_of (tranches (remote p)) (uint_flag fls ''tranche'') = Some tr \<and> \<not> IsConsumed tr
    \<and> v \<in> set (nodes (remote q)) \<and> type_of v = ''Validator''
    \<and> map_of (tranches (remote q)) = (map_of (tranches (remote p)))
        (uint_flag fls ''tranche'' \<mapsto> tr\<lparr>tr_Validator := name_of v\<rparr>)"
proof -
  obtain c ps t where run: "NodeDeploy V (validator_request fls c) (remote p) = (Ok ps, t)" and q: "q = p\<lparr>remote := t\<rparr>"
    using assms(5) unfolding validator_command_run [OF assms(1-3)]
    by (auto split: option.splits if_splits prod.splits outcome.splits)
  have "NodeType (validator_request fls c) = Some (ReqValidator \<lparr>NumValidators = 0,
      NumTranch = uint_flag fls ''tranche'', WithBeacon = bool_flag fls ''beacon'',
      BeaconCount = uint_flag fls ''beacon-count''\<rparr>)"
    using assms(4) by (simp add: validator_request_def)
  from NodeDeploy_validator_Ok [OF run this] obtain bs v k tr m where
    "nodes t = nodes (remote p) @ bs @ [v]"
    "new_node ''Validator'' ''validator'' (client_name V (NodeClient (validator_request fls c)))
      (kind_count ''Validator'' (nodes (remote p))) v"
    "uses_tranche \<lparr>NumValidators = 0, NumTranch = uint_flag fls ''tranche'', WithBeacon = bool_flag fls ''beacon'',
      BeaconCount = uint_flag fls ''beacon-count''\<rparr> (tranches (remote p)) k tr m"
    "tranches t = consume_tranche k (name_of v) m"
    by (elim exE conjE)
  then show ?thesis
    by (intro exI [of _ tr] exI [of _ v]) (auto simp: q uses_tranche_def new_node_def go_map.look_consume)
qed

theorem command_uses_tranche_witness:
  "\<exists>q tr v. NodeDeployValidatorCommand_Run sample_cli [''--type'', ''teku'', ''--tranche'', ''1''] sample_proc = (Ok 0, q)
    \<and> map_of (tranches (remote q)) 1 = Some (tr\<lparr>tr_Validator := name_of v\<rparr>) \<and> v \<in> set (nodes (remote q))"
proof -
  let ?args = "[''--type'', ''teku'', ''--tranche'', ''1'']"
  have "is_ok (parse_flags validator_flags ?args)" by code_simp
  then obtain fls left where line: "parse_flags validator_flags ?args = Ok (fls, left)"
    by (cases "parse_flags validator_flags ?args") auto
  have "(case parse_flags validator_flags ?args of Ok (fls, left) \<Rightarrow>
      string_flag fls ''address'' = ''localhost:5555'' \<and> string_flag fls ''type'' = ''teku''
      \<and> uint_flag fls ''tranche'' = 1 \<and> uint_flag fls ''num-validators'' = 0 \<and> uint_flag fls ''beacon-count'' = 1
      \<and> \<not> bool_flag fls ''beacon'' \<and> string_flag fls ''repo'' = [] \<and> string_flag fls ''tag'' = [] | _ \<Rightarrow> False)"
    by code_simp
  then have flags: "string_flag fls ''address'' = ''localhost:5555''" "string_flag fls ''type'' = ''teku''"
      "uint_flag fls ''tranche'' = 1" "uint_flag fls ''num-validators'' = 0" "uint_flag fls ''beacon-count'' = 1"
      "\<not> bool_flag fls ''beacon''" "string_flag fls ''repo'' = []" "string_flag fls ''tag'' = []"
    unfolding line by simp_all
  have dial: "grpc_Dial sample_cli (string_flag fls ''address'') (remote sample_proc) = (Ok sample_client, remote sample_proc)"
    by (simp add: sample_cli_def flags)
  have calls: "\<forall>req. rpc_NodeDeploy sample_client req = served id (NodeDeploy sample_services req)"
    by (simp add: sample_client_def)
  have teku: "StringToNodeClient ''teku'' = Some NodeClient_Teku" by code_simp
  have req: "validator_request fls NodeClient_Teku = teku_validator_request"
    by (simp add: validator_request_def teku_validator_request_def flags)
  obtain ps t where dep: "NodeDeploy sample_services teku_validator_request sample_server = (Ok ps, t)"
    using teku_validator_deployed by (elim exE)
  have "remote sample_proc = sample_server" by (simp add: sample_proc_def)
  with validator_command_run [OF line dial calls] dep
  have run: "NodeDeployValidatorCommand_Run sample_cli ?args sample_proc = (Ok 0, sample_proc\<lparr>remote := t\<rparr>)"
    by (simp add: teku req flags)
  from command_uses_tranche [OF line dial calls flags(4) run] flags(3) run show ?thesis by fastforce
qed

section \<open>The server command\<close>

text \<open>What a command has left alone: files, requests to the outside and the remote side.\<close>

definition untouched :: "('w, 'r) proc \<Rightarrow> ('w, 'r) proc \<Rightarrow> bool" where
  "untouched p q \<longleftrightarrow> fs (here q) = fs (here p) \<and> trace (here q) = trace (here p) \<and> remote q = remote p"

interpretation untouched: trans_rel untouched
  by unfold_locales (auto simp: untouched_def)

lemma reading_untouched:
  "within untouched (show_line l)" "within untouched (on_here (ext_get f))" "within untouched (parse_server_flags args)"
proof -
  show line: "within untouched (show_line l)" for l
    by (simp add: within_def untouched_def show_line_def)
  show "within untouched (on_here (ext_get f))"
    by (auto simp: within_def untouched_def on_here_def on_part_def ext_get_def split: prod.split)
  show "within untouched (parse_server_flags args)"
    unfolding parse_server_flags_def by (cases "parse_flags server_flags args") (auto intro: line)
qed

lemma readConfig_untouched: "within untouched (readConfig A args)"
  unfolding readConfig_def Let_def
  by (intro untouched.within_bind untouched.within_case_prod untouched.within_if untouched.within_wrap
      untouched.within_pure reading_untouched)

text \<open>The tranche count and the validator count of the configuration are those of the flags.\<close>

lemma readConfig_counts:
  assumes "readConfig A args p = (Ok cfg, q)"
  shows "\<exists>fls left. parse_flags server_flags args = Ok (fls, left) \<and> cfg_Name cfg = string_flag fls ''name''
    \<and> NumTranches cfg = uint_flag fls ''num-tranches''
    \<and> NumGenesisValidators cfg = uint_flag fls ''num-genesis-validators''"
  using assms
  by (auto simp: readConfig_def parse_server_flags_def Let_def flag_config_def add_genesis_time_def bind_go_Fail_iff
      bind_go_Panic_iff split: outcome.splits if_splits)

lemma ServerCommand_Fail:
  assumes "readConfig A args p = (Fail e, q)"
  shows "ServerCommand_Run A V args p = (Ok 1, q\<lparr>ui := ui q @ [UiOutput (''failed to read config: '' @ e)]\<rparr>)"
  by (simp add: ServerCommand_Run_def bind_go_def attempt_def assms show_line_def)

text \<open>Parsing numbers and flags never panics, and so neither does reading the configuration.\<close>

lemma ParseUint_no_panic: "ParseUint x \<noteq> Panic m"
proof -
  have "parse_digits b n ds \<noteq> Panic m" for b n ds
    by (induction b n ds rule: parse_digits.induct) (auto split: option.split)
  then show ?thesis
    by (auto simp: ParseUint_def bind_out_Panic_iff split: prod.split)
qed

lemma ParseBool_no_panic: "ParseBool x \<noteq> Panic m"
proof -
  have "(if b then Ok True else if c then Ok False else Fail e) \<noteq> Panic m" for b c e by simp
  then show ?thesis unfolding ParseBool_def .
qed

lemma ParseInt_no_panic: "ParseInt x \<noteq> Panic m"
  by (simp add: ParseInt_def Let_def bind_out_Panic_iff ParseUint_no_panic)

lemma set_flag_no_panic: "set_flag v x \<noteq> Panic m"
  by (cases v) (simp_all add: bind_out_Panic_iff ParseUint_no_panic ParseInt_no_panic ParseBool_no_panic)

definition calm :: "'a outcome \<Rightarrow> bool" where
  "calm r \<longleftrightarrow> (\<forall>m. r \<noteq> Panic m)"

lemma calm_intros:
  "calm (Ok x)" "calm (Fail e)"
  "calm r \<Longrightarrow> calm r' \<Longrightarrow> calm (if b then r else r')"
  "calm r \<Longrightarrow> (\<And>x. calm (k x)) \<Longrightarrow> calm (bind_out r k)"
  by (auto simp: calm_def bind_out_Panic_iff)

lemma calm_cases:
  "(\<And>a b. calm (f a b)) \<Longrightarrow> calm (case c of (a, b) \<Rightarrow> f a b)"
  "calm r \<Longrightarrow> (\<And>x. calm (g x)) \<Longrightarrow> calm (case v of None \<Rightarrow> r | Some x \<Rightarrow> g x)"
  "calm r \<Longrightarrow> (\<And>x xs. calm (h x xs)) \<Longrightarrow> calm (case l of [] \<Rightarrow> r | x # xs \<Rightarrow> h x xs)"
  "calm r \<Longrightarrow> calm r' \<Longrightarrow> calm (case y of True \<Rightarrow> r | False \<Rightarrow> r')"
  by (auto split: prod.split option.split list.split bool.split)

lemma parse_one_no_panic: "calm (parse_one fls x rest)"
proof -
  have "calm (assign fls n v y)" for n v y
    using set_flag_no_panic [of v y] by (auto simp: assign_def calm_def split: outcome.split)
  then show ?thesis
    unfolding parse_one_def Let_def by (intro calm_intros calm_cases)
qed

lemma parse_flags_no_panic: "parse_flags fls args \<noteq> Panic m"
proof (induction fls args rule: parse_flags.induct)
  case (2 fls x rest)
  with parse_one_no_panic [of fls x rest] show ?case
    by (auto simp: calm_def split: outcome.split prod.split option.split)
qed simp

lemma parse_server_flags_no_panic: "parse_server_flags args p \<noteq> (Panic m, q)"
  using parse_flags_no_panic [of server_flags args]
  by (auto simp: parse_server_flags_def bind_go_def show_line_def split: outcome.split)

lemma readConfig_no_panic:
  assumes "\<forall>x m. parse_seconds A x \<noteq> Panic m"
  shows "readConfig A args p \<noteq> (Panic m, q)"
proof -
  have clock: "on_here (ext_get f) r \<noteq> (Panic m, u)" for f r u
    by (auto simp: on_here_def on_part_def ext_get_def split: prod.split)
  have duration: "wrap_err x (lift_out (parse_seconds A y)) r \<noteq> (Panic m, u)" for x y r u
    using assms by (auto simp: wrap_err_def split: outcome.split)
  show ?thesis
    unfolding readConfig_def Let_def
    by (simp add: bind_go_Panic_iff parse_server_flags_no_panic clock duration)
qed

text \<open>The server command's flags: the documented defaults, and a line that sets all of them.\<close>

definition server_line :: "string \<Rightarrow> nat \<Rightarrow> nat \<Rightarrow> string \<Rightarrow> nat \<Rightarrow> int \<Rightarrow> string list" where
  "server_line name n m dur k a = [''--name'', name, ''--num-genesis-validators'', itoa n,
     ''--min-genesis-validator-count'', itoa m, ''--genesis-time'', dur, ''--num-tranches'', itoa k, ''--altair'', itoa_int a]"

lemma server_line_flags:
  assumes "n < 2 ^ 64" and "m < 2 ^ 64" and "k < 2 ^ 64" and "- (2 ^ 63) \<le> a" and "a < 2 ^ 63"
  shows "parse_flags server_flags (server_line name n m dur k a) =
    Ok ([(''name'', FString name), (''min-genesis-validator-count'', FUint (of_nat m)),
      (''num-genesis-validators'', FUint (of_nat n)), (''genesis-time'', FString dur),
      (''num-tranches'', FUint (of_nat k)), (''altair'', FInt (word_of_int a))], [])"
proof -
  let ?f1 = "AList.update ''name'' (FString name) server_flags"
  let ?f2 = "AList.update ''num-genesis-validators'' (FUint (of_nat n)) ?f1"
  let ?f3 = "AList.update ''min-genesis-validator-count'' (FUint (of_nat m)) ?f2"
  let ?f4 = "AList.update ''genesis-time'' (FString dur) ?f3"
  let ?f5 = "AList.update ''num-tranches'' (FUint (of_nat k)) ?f4"
  let ?f6 = "AList.update ''altair'' (FInt (word_of_int a)) ?f5"
  have "parse_flags server_flags ((''--'' @ ''name'') # name # rest) = parse_flags ?f1 rest" for rest
    by (intro parse_flags_word [where v = "FString ''test''"]) (simp_all add: server_flags_def)
  moreover have "parse_flags ?f1 ((''--'' @ ''num-genesis-validators'') # itoa n # rest) = parse_flags ?f2 rest" for rest
    using ParseUint_itoa [OF assms(1)]
    by (intro parse_flags_word [where v = "FUint 10"]) (simp_all add: server_flags_def)
  moreover have "parse_flags ?f2 ((''--'' @ ''min-genesis-validator-count'') # itoa m # rest) = parse_flags ?f3 rest" for rest
    using ParseUint_itoa [OF assms(2)]
    by (intro parse_flags_word [where v = "FUint 10"]) (simp_all add: server_flags_def)
  moreover have "parse_flags ?f3 ((''--'' @ ''genesis-time'') # dur # rest) = parse_flags ?f4 rest" for rest
    by (intro parse_flags_word [where v = "FString ''1m''"]) (simp_all add: server_flags_def)
  moreover have "parse_flags ?f4 ((''--'' @ ''num-tranches'') # itoa k # rest) = parse_flags ?f5 rest" for rest
    using ParseUint_itoa [OF assms(3)]
    by (intro parse_flags_word [where v = "FUint 1"]) (simp_all add: server_flags_def)
  moreover have "parse_flags ?f5 ((''--'' @ ''altair'') # itoa_int a # rest) = parse_flags ?f6 rest" for rest
    using ParseInt_itoa_int [OF assms(4,5)]
    by (intro parse_flags_word [where v = "FInt (- 1)"]) (simp_all add: server_flags_def)
  ultimately have "parse_flags server_flags (server_line name n m dur k a) = Ok (?f6, [])"
    by (simp add: server_line_def)
  then show ?thesis by (simp add: server_flags_def)
qed

text \<open>
  C29. The server command reads its documented flags: a line that sets all six, with counts
  below 2^64, a signed 64-bit altair epoch and a duration that parses, gives the configuration
  with that name, those three counts, the genesis time now plus the duration, and the Altair
  fork at the epoch if it is not negative; no arguments give the documented defaults (test, 10,
  10, 1 tranche, 1m, no Altair). Every other field keeps its default, and reading the
  configuration only reads the clock.
\<close>

theorem readConfig_reads_flags:
  assumes "time_now A (ext (here p)) = (t0, x)" and "time_now A x = (t1, y)"
    and "parse_seconds A ''1m'' = Ok minute" and "parse_seconds A dur = Ok d" and "dur \<noteq> []"
    and "n < 2 ^ 64" and "m < 2 ^ 64" and "k < 2 ^ 64" and "- (2 ^ 63) \<le> a" and "a < 2 ^ 63"
  defines "q \<equiv> p\<lparr>here := (here p)\<lparr>ext := y\<rparr>\<rparr>" and "sp \<equiv> DefaultEth2Spec t0"
  shows "readConfig A (server_line name n m dur k a) p = (Ok
      \<lparr>cfg_Name = name,
       Spec = sp\<lparr>MinGenesisValidatorCount := of_nat m, MinGenesisTime := t1 + d,
         Altair := (if 0 \<le> a then Some (word_of_int a) else None)\<rparr>,
       NumTranches = of_nat k, NumGenesisValidators = of_nat n\<rparr>, q)
    \<and> readConfig A [] p = (Ok
      \<lparr>cfg_Name = ''test'',
       Spec = sp\<lparr>MinGenesisValidatorCount := 10, MinGenesisTime := t1 + minute, Altair := None\<rparr>,
       NumTranches = 1, NumGenesisValidators = 10\<rparr>, q)"
proof -
  have a: "sint (word_of_int a :: 64 word) = a" using assms(9,10) by (simp add: signed_of_int signed_take_bit_int_eq_self)
  note run = readConfig_def parse_server_flags_def bind_go_def on_here_def on_part_def ext_get_def wrap_err_def
    assms(1-5) flag_config_def add_genesis_time_def DefaultConfig_def DefaultEth2Spec_def q_def sp_def
    string_flag_def uint_flag_def int_flag_def
  show ?thesis
  proof
    show "readConfig A (server_line name n m dur k a) p = (Ok
      \<lparr>cfg_Name = name,
       Spec = sp\<lparr>MinGenesisValidatorCount := of_nat m, MinGenesisTime := t1 + d,
         Altair := (if 0 \<le> a then Some (word_of_int a) else None)\<rparr>,
       NumTranches = of_nat k, NumGenesisValidators = of_nat n\<rparr>, q)"
      by (simp add: run server_line_flags [OF assms(6-10)] a Let_def)
    have "parse_flags server_flags [] = Ok (server_flags, [])" by simp
    then show "readConfig A [] p = (Ok
      \<lparr>cfg_Name = ''test'',
       Spec = sp\<lparr>MinGenesisValidatorCount := 10, MinGenesisTime := t1 + minute, Altair := None\<rparr>,
       NumTranches = 1, NumGenesisValidators = 10\<rparr>, q)"
      by (simp add: run Let_def server_flags_def)
  qed
qed

theorem readConfig_reads_flags_witness:
  "\<exists>c q. readConfig sample_cli (server_line ''dev'' 8 4 ''2m'' 2 0) sample_proc = (Ok c, q)
     \<and> NumGenesisValidators c = 8 \<and> NumTranches c = 2 \<and> MinGenesisTime (Spec c) = 1060 \<and> Altair (Spec c) = Some 0"
  using readConfig_reads_flags [of sample_cli sample_proc 1000 0 1000 0 60 "''2m''" 60 8 4 2 0 "''dev''"]
  by (simp add: sample_cli_def sample_proc_def sample_world_def)

text \<open>
  C18. With flags that do not parse, or a validator count that is not a multiple of the tranche
  count, the server command exits with 1 (a zero tranche count panics) before it writes a file
  or makes a request.
\<close>

theorem ServerCommand_checks_tranches:
  assumes "\<forall>x m. parse_seconds A x \<noteq> Panic m"
    and "\<forall>fls left. parse_flags server_flags args = Ok (fls, left) \<longrightarrow>
      uint_flag fls ''num-tranches'' = 0 \<or> uint_flag fls ''num-genesis-validators'' mod uint_flag fls ''num-tranches'' \<noteq> 0"
  shows "\<exists>r q. ServerCommand_Run A V args p = (r, q)
    \<and> fs (here q) = fs (here p) \<and> trace (here q) = trace (here p) \<and> remote q = remote p
    \<and> (r = Ok 1 \<or> r = Panic ''runtime error: integer divide by zero''
        \<and> (\<exists>fls left. parse_flags server_flags args = Ok (fls, left) \<and> uint_flag fls ''num-tranches'' = 0))"
proof -
  obtain r u where read: "readConfig A args p = (r, u)" by (cases "readConfig A args p")
  have same: "untouched p u" using readConfig_untouched read by (rule withinD)
  show ?thesis
  proof (cases r)
    case (Ok cfg)
    from readConfig_counts [OF read [unfolded Ok]] assms(2) obtain fls left where
      flags: "parse_flags server_flags args = Ok (fls, left)" "NumTranches cfg = uint_flag fls ''num-tranches''"
      and bad: "NumTranches cfg = 0 \<or> NumGenesisValidators cfg mod NumTranches cfg \<noteq> 0"
      by auto
    have stop: "snd (NewServer V cfg (here u)) = here u
      \<and> (if NumTranches cfg = 0 then fst (NewServer V cfg (here u)) = Panic ''runtime error: integer divide by zero''
         else \<exists>e. fst (NewServer V cfg (here u)) = Fail e)"
      using bad by (rule NewServer_rejects)
    obtain y w where new: "NewServer V cfg (here u) = (y, w)" by (cases "NewServer V cfg (here u)")
    have on: "on_here (NewServer V cfg) u = (y, u\<lparr>here := w\<rparr>)" by (simp add: on_here_def on_part_def new)
    show ?thesis
      using stop same flags new
      by (cases y) (auto simp: ServerCommand_Run_def bind_go_def attempt_def read Ok on show_line_def untouched_def
          split: if_splits)
  next
    case (Fail e)
    then show ?thesis using ServerCommand_Fail [of A args p e u V] read same by (simp add: untouched_def)
  next
    case (Panic m)
    then show ?thesis using readConfig_no_panic [OF assms(1)] read by simp
  qed
qed

theorem ServerCommand_checks_tranches_witness:
  "\<exists>q. ServerCommand_Run sample_cli sample_services [''--num-tranches'', ''3''] sample_proc = (Ok 1, q)
    \<and> trace (here q) = []"
proof -
  let ?args = "[''--num-tranches'', ''3'']"
  have "\<forall>x m. parse_seconds sample_cli x \<noteq> Panic m" by (simp add: sample_cli_def)
  moreover have line: "(case parse_flags server_flags ?args of Ok (fls, left) \<Rightarrow>
      uint_flag fls ''num-tranches'' = 3 \<and> uint_flag fls ''num-genesis-validators'' = 10 | _ \<Rightarrow> False)"
    by code_simp
  moreover have "\<forall>fls left. parse_flags server_flags ?args = Ok (fls, left) \<longrightarrow>
      uint_flag fls ''num-tranches'' = 0 \<or> uint_flag fls ''num-genesis-validators'' mod uint_flag fls ''num-tranches'' \<noteq> 0"
  proof (intro allI impI)
    fix fls left
    assume "parse_flags server_flags ?args = Ok (fls, left)"
    with line have n: "uint_flag fls ''num-tranches'' = 3" "uint_flag fls ''num-genesis-validators'' = 10"
      by (simp_all del: parse_flags.simps)
    show "uint_flag fls ''num-tranches'' = 0 \<or> uint_flag fls ''num-genesis-validators'' mod uint_flag fls ''num-tranches'' \<noteq> 0"
      unfolding n by code_simp
  qed
  ultimately show ?thesis
    using ServerCommand_checks_tranches [of sample_cli ?args sample_services sample_proc]
    by (fastforce simp: sample_proc_def sample_world_def)
qed

text \<open>The turns before the signal are steps of the running server.\<close>

lemma no_reply_outcome: "no_reply m s = (r, t) \<Longrightarrow> \<forall>p. r \<noteq> Panic p \<Longrightarrow> \<exists>q. m s = (q, t) \<and> (\<forall>p. q \<noteq> Panic p)"
  by (auto simp: no_reply_def bind_go_def split: outcome.splits prod.splits)

lemma take_turn_step:
  assumes "take_turn V q s = (r, t)" and "\<forall>p. r \<noteq> Panic p"
  shows "(server_step V)\<^sup>*\<^sup>* s t"
proof (cases q)
  case (ServeTurn req)
  with assms show ?thesis by (auto intro: server_step.Request)
next
  case (OutputTurn n)
  with assms show ?thesis by (auto intro: server_step.Output)
next
  case (ExitTurn n)
  with assms show ?thesis by (auto dest!: no_reply_outcome intro: server_step.Exit)
next
  case (DepositTurn i)
  with assms show ?thesis
    by (auto dest!: no_reply_outcome intro: server_step.Deposit split: option.splits if_splits)
qed

lemma serve_turns_steps: "serve_turns V turns s = (Ok rs, t) \<Longrightarrow> (server_step V)\<^sup>*\<^sup>* s t"
proof (induction turns arbitrary: s rs)
  case (Cons q turns)
  then obtain r u us where one: "attempt (take_turn V q) s = (Ok r, u)" and rest: "serve_turns V turns u = (Ok us, t)"
    by (auto simp: serve_turns_def)
  from one obtain r' where "take_turn V q s = (r', u)" "\<forall>p. r' \<noteq> Panic p"
    by (auto simp: attempt_def split: outcome.splits prod.splits)
  then have "(server_step V)\<^sup>*\<^sup>* s u" by (rule take_turn_step)
  with Cons.IH [OF rest] show ?case by (rule rtranclp_trans [rotated])
qed (simp add: serve_turns_def)

text \<open>Waiting for the first signal shows two lines; the second signal, if any, cuts the stop short.\<close>

lemma stop_some_trace:
  assumes "\<forall>i x p y. dk_ContainerStop (sv_docker V) i x \<noteq> (Panic p, y)"
  shows "\<exists>t. stop_some V k s = (Ok (), t)
    \<and> trace (env t) = trace (env s) @ map (\<lambda>n. ContainerStop (node_id n)) (take k (nodes s))"
proof (cases "length (nodes s) < k")
  case True
  with StopServer_trace [OF assms, of s] show ?thesis by (auto simp: stop_some_def bind_go_def)
next
  case False
  obtain rs t where "for_each (take k (nodes s)) (\<lambda>n. attempt (on_env (Stop (sv_docker V) n))) s = (Ok rs, t)"
    "trace (env t) = trace (env s) @ map (\<lambda>n. ContainerStop (node_id n)) (take k (nodes s))"
    using stop_each [OF assms] by blast
  with False show ?thesis by (auto simp: stop_some_def bind_go_def)
qed

definition shutdown_lines :: "string \<Rightarrow> ui_line list" where
  "shutdown_lines sig = [UiOutput (''Caught signal: '' @ sig), UiOutput ''Gracefully shutting down agent...'']"

lemma on_here_server:
  assumes "m (s\<lparr>env := here p\<rparr>) = (Ok x, t)"
  shows "on_here (on_server s m) p = (Ok x, p\<lparr>here := env t\<rparr>)"
  by (simp add: on_here_def on_part_def on_server_def assms)

text \<open>
  C17. Let u be the server after the requests and goroutines it serves until the first signal
  (none of which panics). Then the server command exits with 0 exactly if no other signal cuts
  Stop short, and has then asked Docker to stop every node of u in order; if another signal
  arrives when k nodes have been stopped it exits with 1 and exactly the first k nodes of u have
  been asked to stop. It shows the two shutdown lines and nothing else. The one hypothesis on
  Docker: its client does not panic when stopping a container.
\<close>

theorem handleSignals_stops_nodes:
  assumes "\<forall>i x m y. dk_ContainerStop (sv_docker V) i x \<noteq> (Panic m, y)"
    and "sig_events A (ext (here p)) = (turns, x)"
    and "serve_turns V turns (s\<lparr>env := (here p)\<lparr>ext := x\<rparr>\<rparr>) = (Ok rs, u)"
    and "sig_first A (ext (env u)) = (sig, y)" and "sig_again A y = (again, z)"
  shows "(server_step V)\<^sup>*\<^sup>* (s\<lparr>env := (here p)\<lparr>ext := x\<rparr>\<rparr>) u
    \<and> (\<exists>q. handleSignals A V s p = (Ok (if again = None then 0 else 1), q)
      \<and> trace (here q) = trace (env u) @ map (\<lambda>n. ContainerStop (node_id n))
          (case again of None \<Rightarrow> nodes u | Some k \<Rightarrow> take k (nodes u))
      \<and> ui q = ui p @ shutdown_lines sig \<and> remote q = remote p)"
proof (intro conjI serve_turns_steps [OF assms(3)])
  let ?p = "p\<lparr>ui := ui p @ shutdown_lines sig, here := (env u)\<lparr>ext := z\<rparr>\<rparr>"
  have run: "handleSignals A V s p = (case again of
       Some k \<Rightarrow> bind_go (on_here (on_server u (stop_some V k))) (\<lambda>_. ret 1) ?p
     | None \<Rightarrow> bind_go (on_here (on_server u (StopServer V))) (\<lambda>_. ret 0) ?p)"
    by (simp add: handleSignals_def bind_go_def on_here_def on_part_def ext_get_def assms show_line_def
        serve_server_def shutdown_lines_def split: option.split)
  show "\<exists>q. handleSignals A V s p = (Ok (if again = None then 0 else 1), q)
      \<and> trace (here q) = trace (env u) @ map (\<lambda>n. ContainerStop (node_id n))
          (case again of None \<Rightarrow> nodes u | Some k \<Rightarrow> take k (nodes u))
      \<and> ui q = ui p @ shutdown_lines sig \<and> remote q = remote p"
  proof (cases again)
    case None
    obtain t where "StopServer V (u\<lparr>env := here ?p\<rparr>) = (Ok (), t)"
      "trace (env t) = trace (env u) @ map (\<lambda>n. ContainerStop (node_id n)) (nodes u)"
      using StopServer_trace [OF assms(1), of "u\<lparr>env := here ?p\<rparr>"] by auto
    with run None on_here_server [of "StopServer V" ?p u "()" t] show ?thesis by (simp add: bind_go_def)
  next
    case (Some k)
    obtain t where "stop_some V k (u\<lparr>env := here ?p\<rparr>) = (Ok (), t)"
      "trace (env t) = trace (env u) @ map (\<lambda>n. ContainerStop (node_id n)) (take k (nodes u))"
      using stop_some_trace [OF assms(1), of k "u\<lparr>env := here ?p\<rparr>"] by auto
    with run Some on_here_server [of "stop_some V k" ?p u "()" t] show ?thesis by (simp add: bind_go_def)
  qed
qed

text \<open>A beacon node is deployed before the signal; it is the last of six nodes to be stopped.\<close>

theorem handleSignals_stops_nodes_witness:
  "\<exists>(u :: nat server) n q. handleSignals (sample_cli\<lparr>sig_again := (\<lambda>n. (None, n))\<rparr>) sample_services sample_server sample_proc
      = (Ok 0, q)
    \<and> nodes u = sample_nodes @ [n] \<and> name_of n = ''beacon-1-teku''
    \<and> trace (here q) = trace (env u) @ map ContainerStop [''c0'', ''c1'', ''c2'', ''c3'', ''c4'', node_id n]"
proof -
  let ?A = "sample_cli\<lparr>sig_again := (\<lambda>n. (None, n))\<rparr>" and ?V = sample_services
  have ok: "\<forall>i x m y. dk_ContainerStop (sv_docker ?V) i x \<noteq> (Panic m, y)"
    by (simp add: sample_services_def sample_docker_def)
  have events: "sig_events ?A (ext (here sample_proc)) = ([ServeTurn (NodeDeployReq teku_beacon_request)], ext sample_world)"
    by (simp add: sample_cli_def sample_proc_def)
  have same: "sample_server\<lparr>env := (here sample_proc)\<lparr>ext := ext sample_world\<rparr>\<rparr> = sample_server"
    by (simp add: sample_server_def new_server_def sample_proc_def)
  obtain ps u n where dep: "NodeDeploy ?V teku_beacon_request sample_server = (Ok ps, u)"
    and u: "nodes u = sample_nodes @ [n]" "name_of n = ''beacon-1-teku''"
    using teku_beacon_run by (elim exE conjE)
  have served: "serve_turns ?V [ServeTurn (NodeDeployReq teku_beacon_request)]
      (sample_server\<lparr>env := (here sample_proc)\<lparr>ext := ext sample_world\<rparr>\<rparr>) = (Ok [Inr ()], u)"
    unfolding same by (simp add: serve_turns_def bind_go_def attempt_def no_reply_def dep)
  have sigs: "sig_first ?A (ext (env u)) = (''interrupt'', ext (env u))" "sig_again ?A (ext (env u)) = (None, ext (env u))"
    by (simp_all add: sample_cli_def)
  obtain q where q: "handleSignals ?A ?V sample_server sample_proc = (Ok 0, q)"
    "trace (here q) = trace (env u) @ map (\<lambda>n. ContainerStop (node_id n)) (nodes u)"
    using handleSignals_stops_nodes [OF ok events served sigs] by auto
  have "map (\<lambda>n. ContainerStop (node_id n)) (nodes u) = map ContainerStop [''c0'', ''c1'', ''c2'', ''c3'', ''c4'', node_id n]"
    by (simp add: u(1) sample_nodes_def plain_node_def)
  with q u show ?thesis by (intro exI [of _ u] exI [of _ n] exI [of _ q]) simp
qed

end
