(* ===== verification/Spec2Isabelle.thy ===== *)
theory Spec2Isabelle
  imports DepositRuns DepositClaims StartClaims ServerClaims Shutdown CliClaims
begin

text \<open>
  A verification development for viewpoint, a tool that runs a local Ethereum test network.

  The program.  \<open>viewpoint server\<close> (cmd/main.go, internal/cmd/server) starts a gRPC server
  (internal/server/server.go) that owns the network: it starts bootnodes, an execution node and, on
  request, beacon and validator nodes as Docker containers (internal/docker), described by specs
  (internal/spec) that the factories of internal/components make.  Validator accounts come in
  tranches; the first tranches make the genesis state (internal/genesis), later ones get their
  deposits from the deposit handler (internal/server/deposit_handler.go).  The other commands
  (internal/cmd) are clients of the server.

  How the code is modelled.  A Go function with effects is a function from the state to an outcome and
  the state left behind (theory Prelude): \<open>Ok\<close>, \<open>Fail\<close> for a returned error, \<open>Panic\<close>.  A failing call
  keeps the mutations made before it.  Integers are 64-bit words, an \<open>int(x)\<close> of a uint64 may be
  negative (\<open>int_of_uint64\<close>, \<open>loop_count\<close>).  The world (theory GoWorld) holds a modelled file system
  with arbitrary faults, the state of everything outside, and the trace of the requests sent to it.
  Code that is not in the repository is a parameter, collected in one record per library:
  \<open>docker_api\<close>, \<open>crypto_api\<close>, \<open>ssz_api\<close>, \<open>eth_api\<close>, \<open>services\<close> and \<open>cli_api\<close>; map order, scheduling
  and the clock are parameters too.  The \<open>sample_\<close> constants instantiate them in the witnesses.

  The theories, from the leaves up:
  \<^item> Prelude: outcomes, the Go monad, frame relations (locale \<open>trans_rel\<close>), invariants and simulations
    (\<open>invariant_system\<close>, \<open>simulation\<close>, \<open>refined_invariant\<close>).  GoStrings, GoJson, GoWorld and GoFlag are
    the parts of Go's library the program uses: strings and hex (locale \<open>codec\<close>), \<open>encoding/json\<close>,
    paths and files, \<open>strconv\<close> and \<open>flag\<close>.
  \<^item> Proto, NodeSpec: internal/server/proto and internal/spec.
  \<^item> Bootnode, Eth1, Eth2Clients: internal/components, one function per constructor of a spec.
  \<^item> Docker: internal/docker, one function per method; \<open>run\<close> and \<open>trackOutput\<close> are goroutines and
    operations of their own.
  \<^item> Config, LogDir, Genesis: internal/server/config.go, the log directory of server.go,
    internal/genesis.
  \<^item> DepositHandler, DepositRuns: internal/server/deposit_handler.go.  The goroutines of \<open>MakeDeposits\<close>
    are threads with a program counter; DepositRuns has their interleavings as an inductive relation.
  \<^item> Tranches, Server: the tranche map and the server state with every handler of server.go, the
    start (\<open>NewServer\<close>, \<open>setupEth1Network\<close>, \<open>setupGenesis\<close>) and \<open>StopServer\<close>; \<open>handle\<close> dispatches a request
    to its handler and \<open>take_turn\<close> adds the goroutines that run between requests.
  \<^item> Network: the abstract network.  ServerRuns: what each operation of the server does to nodes and
    tranches, whatever its outcome.  ServerStart: the state a server starts in, and stopping.
    ServerSystem: the running server as a step relation of requests and goroutines, and its
    refinement of the abstract network.  Shutdown: \<open>Stop\<close> as steps beside the handlers.
  \<^item> Success, DeploySuccess, ServerSuccess, StartSuccess: when an operation returns without an error.
    \<open>succeeds m Q s\<close> is a weakest precondition for the outcome \<open>Ok\<close>; its rules follow the control flow.
    \<open>services_up\<close> collects the answers that a start needs of Docker, the execution node and the
    libraries, \<open>sound_files\<close> what it needs of the file system and \<open>sound_config\<close> of the configuration;
    the samples satisfy all three.  What is asked of the logs is asked per image: an ENR of the prysm
    bootnode, a first line without a brace of the v4 bootnode, nothing of any other container.
  \<^item> Cli: every command of internal/cmd and internal/cmd/server, the dispatch of cmd/main.go and
    internal/version.
  \<^item> StartClaims, ServerClaims, DepositClaims, CliClaims: the properties of the server and the command
    line.  The properties of the other components stand in their theories.

  Interfaces.  The locale \<open>codec\<close> is interpreted by hex, the decimal numbers and the enum tables;
  \<open>node_factory\<close> (Eth2Clients) by the six factories; \<open>tranche_store\<close> (Tranches) by the association list
  that models the Go map; \<open>trans_rel\<close> by each frame relation; \<open>invariant_system\<close> by the network, the
  log directory, the interleavings of deposits and the shutdown; \<open>refined_invariant\<close> (through \<open>simulation\<close>) by the
  server over the network.

  What the properties show.  The server: every run is a run of the abstract network; names are
  distinct, tranches are numbered without gaps and belong to one validator each, nothing is lost; what
  each request returns and when it is refused; that a server starts when its services answer; how
  genesis accounts are split and that the file genesis.ssz is made of them; that \<open>Stop\<close> reaches every
  node the server has when its loop takes the list of nodes, and those only.  The deposit handler: nonces are
  distinct and all deposits are made under every schedule, and a call always returns, with an error
  only if one of its goroutines met one.  Containers: the protocol with the
  Docker daemon, bounds of the readiness loop, and that every command line expands.  Configuration,
  genesis state, log directory, tranche files: contents, round trips and error paths.  The command
  line: the server command reads its documented flags, commands have exactly the effect of the handler
  they call, refused input starts nothing, and the exit code tells whether the shutdown was cut short.

  Loops and bounds.  A loop with a ticker and a timeout is bounded by their quotient: 600 ticks for
  the readiness loop, 122 polls for a receipt; the recursions count down these numbers.  The scheduler
  of \<open>MakeDeposits\<close> is given fuel by the number of steps its threads have left, which is shown to be
  enough.  The channel of a call is a list without a bound, which is no less than the code's: no
  reachable state has a full channel and a result to send (\<open>send_has_room\<close>).  A loop \<open>for i := 0; i < int(n); i++\<close> runs \<open>loop_count\<close> times, 0 for a negative bound.

  Atomicity.  Every handler but the first check of \<open>NodeStatus\<close> runs under the server's lock, so a
  request is one step.  \<open>Stop\<close> takes no lock: \<open>shutdown_step\<close> has the arrival of the signal, the moment at
  which the goroutine of \<open>Stop\<close> evaluates \<open>range s.nodes\<close> and the steps of its loop, interleaved with
  whole requests; \<open>handleSignals\<close> is the sequential part: the server serves until the first signal, then
  stops, cut short or not by a second one.  A handler is not cut in the middle by \<open>Stop\<close>, which
  after taking its slice reads nothing a handler writes except, at its end, the list of log files.

  Select.  A goroutine parked in a select takes the first channel that is sent to; that 100 ms pass
  between the evaluation of \<open>time.After\<close> and the parking in \<open>retryFn\<close> is not modelled.  What the tick and
  the timer of one moment do, and which of a signal and the end of \<open>Stop\<close> is taken, is left open.

  Not modelled: the generated gRPC and protobuf code and the transport (a call reaches its handler,
  an error comes back as an error; a hypothesis of the composed properties), logging, the text that
  the flag package prints itself, the empty help texts, the registration of commands inside
  mitchellh/cli and the layout of columnize (parameters), \<open>time.ParseDuration\<close> and its conversion to
  seconds (floating point, a parameter), the contract bindings and the cryptography (parameters), the
  goroutine that serves gRPC connections, and the tests, which start containers.
\<close>

end
